theory Spec2Isabelle
  imports
    Main
    "HOL-Library.AList"
    "HOL-Library.Char_ord"
    "HOL-Library.List_Lexorder"
    "HOL-Library.Sublist"
    "HOL-Library.Multiset"
begin

section \<open>File-set resolution of buf: the provider of package bufbuild\<close>

text \<open>
  The provider has two entry points, \<open>GetProtoFileSetForBucket\<close> (roots and excludes
  scanned in a bucket) and \<open>GetProtoFileSetForRealFilePaths\<close> (an explicit list of files).
  Both are embedded below statement by statement. What they call but the sources do not
  contain (the path utilities of \<open>storagepath\<close>, \<open>utilstring.SliceToMap\<close>, \<open>newConfig\<close>,
  \<open>newProtoFileSet\<close>, the \<open>storage.ReadBucket\<close> interface) is modelled from the
  specification, each definition saying so.
\<close>

subsection \<open>Errors\<close>

text \<open>
  Modelled from the spec: the errors of the bucket belong to package \<open>storage\<close>, which
  is not among the sources. The provider needs one distinction only, the one section 7
  of the specification makes: the "does not exist" condition against every other
  failure of the bucket.
\<close>

datatype storage_error = NotExist string | StorageFailure string

text \<open>
  Modelled from the spec: \<open>storage.IsNotExist\<close> is not among the sources. It holds of
  the "does not exist" condition and of no other error.
\<close>

fun IsNotExist :: "storage_error \<Rightarrow> bool" where
  "IsNotExist (NotExist p) = True"
| "IsNotExist (StorageFailure m) = False"

text \<open>
  The errors the provider returns. There is one constructor for each \<open>fmt.Errorf\<close> and
  \<open>errors.New\<close> of the source, carrying the arguments of the format string in their
  order:
  \<^item> \<open>ErrNoRealFilePath\<close>, line 82: "no real file path for file path %q"
  \<^item> \<open>ErrWithinMultipleRoots\<close>, lines 87 and 182:
    "file with path %s is within multiple roots at %v"
  \<^item> \<open>ErrNoInputFilesMatchRoots\<close>, line 93: "no input files found that match roots"
  \<^item> \<open>ErrNoInputFilesMatchRootsAndExcludes\<close>, line 106:
    "no input files found that match roots and excludes"
  \<^item> \<open>ErrDuplicateNormalizedFilePath\<close>, line 137: "duplicate normalized file path %s"
  \<^item> \<open>ErrNotWithinAnyRoot\<close>, line 162: "file %s is not within any root %v"
  \<^item> \<open>ErrWithinAnotherRoot\<close>, line 176:
    "file with path %s is within another root as %s at %s"
  \<^item> \<open>ErrNoInputFilesSpecified\<close>, line 187: "no input files specified"

  The other constructors are the errors the provider passes on unchanged: of the
  bucket (\<open>ErrStorage\<close>), of the path utilities (\<open>ErrInvalidPath\<close>,
  \<open>ErrNotRelative\<close>) and of the validation of the configuration (\<open>ErrEmptyValue\<close>,
  \<open>ErrNoRoots\<close>, \<open>ErrOverlappingRoots\<close>).
\<close>

datatype error =
    ErrInvalidPath string
  | ErrNotRelative string string
  | ErrEmptyValue
  | ErrNoRoots
  | ErrOverlappingRoots "string list"
  | ErrStorage storage_error
  | ErrNoRealFilePath string
  | ErrWithinMultipleRoots string "string list"
  | ErrNoInputFilesMatchRoots
  | ErrNoInputFilesMatchRootsAndExcludes
  | ErrDuplicateNormalizedFilePath string
  | ErrNotWithinAnyRoot string "string list"
  | ErrWithinAnotherRoot string string string
  | ErrNoInputFilesSpecified

subsection \<open>Path utilities\<close>

text \<open>
  Modelled from the spec: package \<open>storagepath\<close> is not among the sources. Section 2
  describes its functions as working on slash-separated paths. \<open>splitOn\<close> cuts a string
  at every occurrence of a character (it never returns the empty list).
\<close>

fun splitOn :: "char \<Rightarrow> string \<Rightarrow> string list" where
  "splitOn c [] = [[]]"
| "splitOn c (x # xs) =
     (if x = c then [] # splitOn c xs
      else case splitOn c xs of [] \<Rightarrow> [[x]] | s # ss \<Rightarrow> (x # s) # ss)"

text \<open>
  Modelled from the spec: joining segments with slashes, the inverse of cutting a path
  at its slashes.
\<close>

fun joinPath :: "string list \<Rightarrow> string" where
  "joinPath [] = []"
| "joinPath [s] = s"
| "joinPath (s # t # ss) = s @ CHR ''/'' # joinPath (t # ss)"

text \<open>
  Modelled from the spec: the normalisation of the segments of a path. Section 3
  describes a normalised path as having no \<open>.\<close> and no \<open>..\<close> segment and no trailing
  slash. Empty and \<open>.\<close> segments are dropped and a \<open>..\<close> is resolved against the segment
  before it; a \<open>..\<close> with nothing before it would leave the bucket, and there is no
  normalised path then.
\<close>

fun cleanSegments :: "string list \<Rightarrow> string list \<Rightarrow> string list option" where
  "cleanSegments st [] = Some (rev st)"
| "cleanSegments st (s # ss) =
     (if s = [] \<or> s = ''.'' then cleanSegments st ss
      else if s = ''..'' then (case st of [] \<Rightarrow> None | t # st' \<Rightarrow> cleanSegments st' ss)
      else cleanSegments (s # st) ss)"

text \<open>
  Modelled from the spec: \<open>storagepath.NormalizeAndValidate\<close> is not among the sources.
  It returns the normalised path, \<open>.\<close> standing for the empty path, or an error for a
  path that is invalid: one that leaves the bucket, or an absolute one, which is not
  relative to the bucket.
\<close>

definition NormalizeAndValidate :: "string \<Rightarrow> error + string" where
  "NormalizeAndValidate path =
     (if take 1 path = ''/'' then Inl (ErrInvalidPath path)
      else case cleanSegments [] (splitOn CHR ''/'' path) of
             None \<Rightarrow> Inl (ErrInvalidPath path)
           | Some segs \<Rightarrow> Inr (if segs = [] then ''.'' else joinPath segs))"

text \<open>
  Modelled from the spec: the segments of a normalised path, on which the other path
  utilities work; the path \<open>.\<close> has none.
\<close>

definition pathComponents :: "string \<Rightarrow> string list" where
  "pathComponents path = (if path = ''.'' then [] else splitOn CHR ''/'' path)"

text \<open>
  Modelled from the spec: \<open>storagepath.Ext\<close> is not among the sources. The extension of
  a path is the suffix of its last segment that starts at that segment's last dot, and
  is empty when the last segment has no dot; section 4.2 asks for an exact,
  case-sensitive match of the extension.
\<close>

definition Ext :: "string \<Rightarrow> string" where
  "Ext path =
     (let base = last (splitOn CHR ''/'' path)
      in if CHR ''.'' \<in> set base then CHR ''.'' # last (splitOn CHR ''.'' base) else [])"

text \<open>
  Modelled from the spec: \<open>storagepath.Dir\<close> is not among the sources. The containing
  directory of a normalised path: the path without its last segment, \<open>.\<close> when nothing
  remains.
\<close>

definition Dir :: "string \<Rightarrow> string" where
  "Dir path =
     (let segs = butlast (pathComponents path)
      in if segs = [] then ''.'' else joinPath segs)"

text \<open>
  Modelled from the spec: the ancestor matching of the path utilities, which is not
  among the sources. A normalised path is equal to, or a descendant of, a directory
  when the directory's segments are a prefix of the path's segments.
\<close>

definition equalsOrContainsPath :: "string \<Rightarrow> string \<Rightarrow> bool" where
  "equalsOrContainsPath dir path = prefix (pathComponents dir) (pathComponents path)"

text \<open>
  Modelled from the spec: \<open>storagepath.Rel\<close> is not among the sources. The specification
  defines the relative path between a root and a descendant: the descendant's segments
  after the root's. For any other pair there is no such path, and the call fails.
\<close>

definition Rel :: "string \<Rightarrow> string \<Rightarrow> error + string" where
  "Rel basepath targpath =
     (let b = pathComponents basepath; t = pathComponents targpath
      in if prefix b t
         then Inr (let r = drop (length b) t in if r = [] then ''.'' else joinPath r)
         else Inl (ErrNotRelative basepath targpath))"

subsection \<open>Maps\<close>

text \<open>
  A Go \<open>map[string]struct{}\<close> is a list without duplicates, a \<open>map[string]V\<close> an
  association list with distinct keys: \<open>map_of\<close> reads it, \<open>AList.update\<close> assigns to
  a key (in place when the key is there, at the end when it is new), \<open>List.insert\<close>
  adds a member to a set, and \<open>len\<close> is \<open>length\<close>.
\<close>

text \<open>
  Modelled from the spec: \<open>utilstring.SliceToMap\<close> is not among the sources. It turns a
  slice into the set of its elements.
\<close>

definition SliceToMap :: "string list \<Rightarrow> string list" where
  "SliceToMap s = remdups s"

text \<open>
  Modelled from the spec: \<open>storagepath.MapContainsMatch\<close> is not among the sources. It
  says whether the path is equal to, or a descendant of, a member of the set.
\<close>

definition MapContainsMatch :: "string list \<Rightarrow> string \<Rightarrow> bool" where
  "MapContainsMatch m path = list_ex (\<lambda>dir. equalsOrContainsPath dir path) m"

text \<open>
  Modelled from the spec: \<open>storagepath.MapMatches\<close> is not among the sources. It returns
  the members of the set that the path is equal to or a descendant of.
\<close>

definition MapMatches :: "string list \<Rightarrow> string \<Rightarrow> string list" where
  "MapMatches m path = filter (\<lambda>dir. equalsOrContainsPath dir path) m"

text \<open>
  Go leaves the order in which \<open>range\<close> visits a map unspecified. Each \<open>range\<close> over a
  map takes its order from a list of numbers: \<open>rangeOrder seeds xs\<close> picks the element
  at position \<open>seed mod length\<close> of what is left, for one seed after the other, and
  keeps the stored order once the seeds are used up. Every list of seeds gives a
  permutation and every permutation is given by some list of seeds (lemmas
  \<open>mset_rangeOrder\<close> and \<open>rangeOrder_complete\<close>), so a property proved for every
  oracle holds for every order Go may choose. The record names the oracle of each
  \<open>range\<close> statement over a map by its line in the source; \<open>insertionOrder\<close> is the
  oracle under which every map is visited in the order its keys were stored.
\<close>

primrec rangeOrder :: "nat list \<Rightarrow> 'a list \<Rightarrow> 'a list" where
  "rangeOrder [] xs = xs"
| "rangeOrder (s # seeds) xs =
     (if xs = [] then []
      else let i = s mod length xs
           in xs ! i # rangeOrder seeds (take i xs @ drop (Suc i) xs))"

record rangeOracle =
  range74 :: "nat list"
  range76 :: "string \<Rightarrow> nat list"
  range100 :: "nat list"
  range154 :: "nat list"
  range157 :: "string \<Rightarrow> nat list"

definition insertionOrder :: rangeOracle where
  "insertionOrder =
     \<lparr>range74 = [], range76 = (\<lambda>k. []), range100 = [], range154 = [], range157 = (\<lambda>p. [])\<rparr>"

subsection \<open>The bucket\<close>

text \<open>
  Modelled from the spec: \<open>storage.ReadBucket\<close> is an interface whose declaration and
  implementations are not among the sources. Section 6: \<open>walk\<close> enumerates the real
  paths under a prefix, \<open>stat\<close> checks one real path. A bucket is what it answers: for
  \<open>Walk\<close> of a prefix the paths it visits, in its order, and the failure of its own, if
  any, that ends the walk after them; for \<open>Stat\<close> of a path \<open>None\<close> when the file
  exists and the error otherwise.
\<close>

record bucket =
  walked :: "string \<Rightarrow> string list"
  walkFailure :: "string \<Rightarrow> storage_error option"
  Stat :: "string \<Rightarrow> storage_error option"

text \<open>
  Modelled from the spec: the loop of \<open>Walk\<close> over the paths. Section 6: the
  enumeration aborts at the first error of the visitor. The state the visitor works
  on is passed along.
\<close>

fun visitAll :: "('s \<Rightarrow> string \<Rightarrow> error + 's) \<Rightarrow> 's \<Rightarrow> string list \<Rightarrow> error + 's" where
  "visitAll f s [] = Inr s"
| "visitAll f s (p # ps) = (case f s p of Inl err \<Rightarrow> Inl err | Inr s' \<Rightarrow> visitAll f s' ps)"

text \<open>
  Modelled from the spec: \<open>bucket.Walk\<close>. It returns the visitor's error unchanged, or
  its own failure once the visitor has seen every path.
\<close>

definition Walk :: "bucket \<Rightarrow> string \<Rightarrow> ('s \<Rightarrow> string \<Rightarrow> error + 's) \<Rightarrow> 's \<Rightarrow> error + 's" where
  "Walk b root f s =
     (case visitAll f s (walked b root) of
        Inl err \<Rightarrow> Inl err
      | Inr s' \<Rightarrow> (case walkFailure b root of
                     Some e \<Rightarrow> Inl (ErrStorage e)
                   | None \<Rightarrow> Inr s'))"

text \<open>
  Modelled from the spec: a bucket that holds exactly the given files, as in the
  concrete scenarios of section 8. Walking a prefix visits the files equal to or below
  it, in the order given; a file exists when it is one of them.
\<close>

definition memBucket :: "string list \<Rightarrow> bucket" where
  "memBucket files =
     \<lparr>walked = (\<lambda>root. filter (equalsOrContainsPath root) files),
      walkFailure = (\<lambda>root. None),
      Stat = (\<lambda>path. if path \<in> set files then None else Some (NotExist path))\<rparr>"

text \<open>
  Modelled from the spec: a bucket in which \<open>Stat\<close> succeeds for one file and fails for
  every other path with an error that is not the "does not exist" condition (an I/O
  error of section 7).
\<close>

definition brokenBucket :: bucket where
  "brokenBucket =
     \<lparr>walked = (\<lambda>root. []), walkFailure = (\<lambda>root. None),
      Stat = (\<lambda>path. if path = ''proto/a.proto'' then None
                       else Some (StorageFailure ''permission denied''))\<rparr>"

subsection \<open>Configuration and file set\<close>

text \<open>
  Modelled from the spec: the type of the configuration is not among the sources; the
  provider reads its fields \<open>Roots\<close> and \<open>Excludes\<close>. Section 3: an ordered,
  deduplicated list of roots and an ordered, deduplicated list of excludes.
\<close>

record config =
  Roots :: "string list"
  Excludes :: "string list"

text \<open>
  Modelled from the spec: the first step of \<open>newConfig\<close>, which is not among the
  sources. Section 4.1: normalise each entry, reject empty and invalid entries.
\<close>

fun normalizeAll :: "string list \<Rightarrow> error + string list" where
  "normalizeAll [] = Inr []"
| "normalizeAll (x # xs) =
     (if x = [] then Inl ErrEmptyValue
      else case NormalizeAndValidate x of
             Inl err \<Rightarrow> Inl err
           | Inr n \<Rightarrow> (case normalizeAll xs of
                         Inl err \<Rightarrow> Inl err
                       | Inr ns \<Rightarrow> Inr (n # ns)))"

text \<open>
  Modelled from the spec: the check of \<open>newConfig\<close> on the roots. Section 4.1: fail
  when a root is an ancestor of, a descendant of, or identical to another root.
\<close>

fun rootsOverlap :: "string list \<Rightarrow> bool" where
  "rootsOverlap [] = False"
| "rootsOverlap (r # rs) =
     (list_ex (\<lambda>s. equalsOrContainsPath r s \<or> equalsOrContainsPath s r) rs \<or> rootsOverlap rs)"

text \<open>
  Modelled from the spec: \<open>newConfig\<close> is not among the sources. Section 4.1: normalise
  the roots and the excludes, reject empty and invalid entries, deduplicate, and fail
  when two roots overlap; section 3: a configuration without roots is rejected.
\<close>

definition newConfig :: "string list \<Rightarrow> string list \<Rightarrow> error + config" where
  "newConfig roots excludes =
     (case normalizeAll roots of
        Inl err \<Rightarrow> Inl err
      | Inr rs \<Rightarrow>
          (case normalizeAll excludes of
             Inl err \<Rightarrow> Inl err
           | Inr es \<Rightarrow>
               if remdups rs = [] then Inl ErrNoRoots
               else if rootsOverlap (remdups rs) then Inl (ErrOverlappingRoots (remdups rs))
               else Inr \<lparr>Roots = remdups rs, Excludes = remdups es\<rparr>))"

text \<open>
  Modelled from the spec: the type of the file set is not among the sources. Section
  4.4: a read-only container of the roots it was built from and of the mapping from
  logical path to real path.
\<close>

record ProtoFileSet =
  pfsRoots :: "string list"
  pfsRootFilePathToRealFilePath :: "(string \<times> string) list"

text \<open>
  Modelled from the spec: \<open>newProtoFileSet\<close> is not among the sources. It builds the
  file set from the roots and the mapping; the specification names no input on which
  the construction fails.
\<close>

definition newProtoFileSet :: "string list \<Rightarrow> (string \<times> string) list \<Rightarrow> error + ProtoFileSet" where
  "newProtoFileSet roots rootFilePathToRealFilePath =
     Inr \<lparr>pfsRoots = roots, pfsRootFilePathToRealFilePath = rootFilePathToRealFilePath\<rparr>"

subsection \<open>GetProtoFileSetForBucket\<close>

text \<open>
  Lines 46 to 67, the visitor of \<open>bucket.Walk\<close>: a path without the extension
  \<open>.proto\<close> is skipped; otherwise its path relative to the root is computed and
  validated, and the real path is added to the set stored for that key (a set that is
  created, and stored, when the key is new).
\<close>

definition visit ::
  "string \<Rightarrow> (string \<times> string list) list \<Rightarrow> string \<Rightarrow> error + (string \<times> string list) list" where
  "visit root rootFilePathToRealFilePathMap realFilePath =
     (if Ext realFilePath \<noteq> ''.proto'' then Inr rootFilePathToRealFilePathMap
      else case Rel root realFilePath of
             Inl err \<Rightarrow> Inl err
           | Inr relFilePath \<Rightarrow>
               (case NormalizeAndValidate relFilePath of
                  Inl err \<Rightarrow> Inl err
                | Inr rootFilePath \<Rightarrow>
                    (let realFilePathMap =
                           (case map_of rootFilePathToRealFilePathMap rootFilePath of
                              None \<Rightarrow> []
                            | Some m \<Rightarrow> m)
                     in Inr (AList.update rootFilePath (List.insert realFilePath realFilePathMap)
                               rootFilePathToRealFilePathMap))))"

text \<open>
  Lines 41 to 71: the roots are walked in the order of the configuration, each walk
  adding to the map the walks before it have built; the first error of a walk is
  returned.
\<close>

fun walkRoots ::
  "bucket \<Rightarrow> string list \<Rightarrow> (string \<times> string list) list \<Rightarrow> error + (string \<times> string list) list" where
  "walkRoots b [] m = Inr m"
| "walkRoots b (root # roots) m =
     (case Walk b root (visit root) m of
        Inl walkErr \<Rightarrow> Inl walkErr
      | Inr m' \<Rightarrow> walkRoots b roots m')"

text \<open>
  Lines 73 to 89: every key's set of real paths is turned into a slice; a set of size
  one gives the entry of the result, an empty set and a set of several paths return
  an error, the second with the paths sorted.
\<close>

fun collapse ::
  "rangeOracle \<Rightarrow> (string \<times> string list) list \<Rightarrow> (string \<times> string) list
     \<Rightarrow> error + (string \<times> string) list" where
  "collapse ord [] rootFilePathToRealFilePath = Inr rootFilePathToRealFilePath"
| "collapse ord ((rootFilePath, realFilePathMap) # rest) rootFilePathToRealFilePath =
     (let realFilePaths = rangeOrder (range76 ord rootFilePath) realFilePathMap
      in if length realFilePaths = 0 then Inl (ErrNoRealFilePath rootFilePath)
         else if length realFilePaths = 1
         then collapse ord rest
                (AList.update rootFilePath (realFilePaths ! 0) rootFilePathToRealFilePath)
         else Inl (ErrWithinMultipleRoots rootFilePath (sort realFilePaths)))"

text \<open>
  Lines 100 to 104: an entry is kept unless the directory of its real path is equal
  to, or below, an exclude.
\<close>

fun filterExcludes ::
  "string list \<Rightarrow> (string \<times> string) list \<Rightarrow> (string \<times> string) list \<Rightarrow> (string \<times> string) list" where
  "filterExcludes excludeMap [] filtered = filtered"
| "filterExcludes excludeMap ((rootFilePath, realFilePath) # rest) filtered =
     (if \<not> MapContainsMatch excludeMap (Dir realFilePath)
      then filterExcludes excludeMap rest (AList.update rootFilePath realFilePath filtered)
      else filterExcludes excludeMap rest filtered)"

text \<open>
  Lines 27 to 109. The context and the logger take no part in the result. The
  configuration is built from the roots and the excludes (line 35), the roots are
  walked (lines 40 to 71), the map is collapsed (lines 73 to 89); without excludes the
  collapsed map is the result, unless it is empty (lines 91 to 96); with excludes the
  filtered map is, unless it is empty (lines 98 to 108).
\<close>

definition GetProtoFileSetForBucket ::
  "rangeOracle \<Rightarrow> bucket \<Rightarrow> string list \<Rightarrow> string list \<Rightarrow> error + ProtoFileSet" where
  "GetProtoFileSetForBucket ord b roots excludes =
     (case newConfig roots excludes of
        Inl err \<Rightarrow> Inl err
      | Inr config \<Rightarrow>
          (case walkRoots b (Roots config) [] of
             Inl walkErr \<Rightarrow> Inl walkErr
           | Inr rootFilePathToRealFilePathMap \<Rightarrow>
               (case collapse ord (rangeOrder (range74 ord) rootFilePathToRealFilePathMap) [] of
                  Inl err \<Rightarrow> Inl err
                | Inr rootFilePathToRealFilePath \<Rightarrow>
                    if length (Excludes config) = 0
                    then (if length rootFilePathToRealFilePath = 0
                          then Inl ErrNoInputFilesMatchRoots
                          else newProtoFileSet (Roots config) rootFilePathToRealFilePath)
                    else (let excludeMap = SliceToMap (Excludes config);
                              filtered = filterExcludes excludeMap
                                (rangeOrder (range100 ord) rootFilePathToRealFilePath) []
                          in if length filtered = 0
                             then Inl ErrNoInputFilesMatchRootsAndExcludes
                             else newProtoFileSet (Roots config) filtered))))"

subsection \<open>GetProtoFileSetForRealFilePaths\<close>

text \<open>
  Lines 130 to 150. The loop carries the set \<open>normalizedRealFilePaths\<close> and, as the
  effect of the loop on the bucket, the list of the paths \<open>Stat\<close> was called with. A
  path is checked against the set before \<open>Stat\<close> is called for it, and is added to the
  set only when \<open>Stat\<close> succeeded.
\<close>

fun checkRealFilePaths ::
  "bucket \<Rightarrow> bool \<Rightarrow> string list \<Rightarrow> string list \<Rightarrow> string list
     \<Rightarrow> string list \<times> (error + string list)" where
  "checkRealFilePaths b allowNotExist [] normalizedRealFilePaths statCalls =
     (statCalls, Inr normalizedRealFilePaths)"
| "checkRealFilePaths b allowNotExist (realFilePath # rest) normalizedRealFilePaths statCalls =
     (case NormalizeAndValidate realFilePath of
        Inl err \<Rightarrow> (statCalls, Inl err)
      | Inr normalizedRealFilePath \<Rightarrow>
          if normalizedRealFilePath \<in> set normalizedRealFilePaths
          then (statCalls, Inl (ErrDuplicateNormalizedFilePath normalizedRealFilePath))
          else (case Stat b normalizedRealFilePath of
                  Some err \<Rightarrow>
                    if \<not> IsNotExist err
                    then (statCalls @ [normalizedRealFilePath], Inl (ErrStorage err))
                    else if \<not> allowNotExist
                    then (statCalls @ [normalizedRealFilePath], Inl (ErrStorage err))
                    else checkRealFilePaths b allowNotExist rest normalizedRealFilePaths
                           (statCalls @ [normalizedRealFilePath])
                | None \<Rightarrow>
                    checkRealFilePaths b allowNotExist rest
                      (normalizedRealFilePaths @ [normalizedRealFilePath])
                      (statCalls @ [normalizedRealFilePath])))"

text \<open>
  Lines 154 to 184: each surviving path must lie within exactly one root; its path
  relative to that root must not have been claimed by a path visited before it.
\<close>

fun resolveRealFilePaths ::
  "rangeOracle \<Rightarrow> string list \<Rightarrow> string list \<Rightarrow> string list \<Rightarrow> (string \<times> string) list
     \<Rightarrow> error + (string \<times> string) list" where
  "resolveRealFilePaths ord rootMap roots [] rootFilePathToRealFilePath =
     Inr rootFilePathToRealFilePath"
| "resolveRealFilePaths ord rootMap roots (normalizedRealFilePath # rest) rootFilePathToRealFilePath =
     (let matchingRootMap = MapMatches rootMap normalizedRealFilePath;
          matchingRoots = rangeOrder (range157 ord normalizedRealFilePath) matchingRootMap
      in if length matchingRoots = 0
         then Inl (ErrNotWithinAnyRoot normalizedRealFilePath roots)
         else if length matchingRoots = 1
         then (case Rel (matchingRoots ! 0) normalizedRealFilePath of
                 Inl err \<Rightarrow> Inl err
               | Inr relFilePath \<Rightarrow>
                   (case NormalizeAndValidate relFilePath of
                      Inl err \<Rightarrow> Inl err
                    | Inr normalizedRootFilePath \<Rightarrow>
                        (case map_of rootFilePathToRealFilePath normalizedRootFilePath of
                           Some otherRealFilePath \<Rightarrow>
                             Inl (ErrWithinAnotherRoot normalizedRealFilePath
                                    normalizedRootFilePath otherRealFilePath)
                         | None \<Rightarrow>
                             resolveRealFilePaths ord rootMap roots rest
                               (AList.update normalizedRootFilePath normalizedRealFilePath
                                  rootFilePathToRealFilePath))))
         else Inl (ErrWithinMultipleRoots normalizedRealFilePath (sort matchingRoots)))"

text \<open>
  Lines 117 to 190. The configuration is built from the roots alone (line 126), the
  explicit paths are checked (lines 130 to 150), the surviving paths are resolved
  against the roots (lines 152 to 184), and an empty result is an error (lines 186 to
  189). The function is given with the paths \<open>Stat\<close> was called with, in the order of
  the calls, beside its result; \<open>GetProtoFileSetForRealFilePaths\<close> is the result
  alone.
\<close>

definition runGetProtoFileSetForRealFilePaths ::
  "rangeOracle \<Rightarrow> bucket \<Rightarrow> string list \<Rightarrow> string list \<Rightarrow> bool
     \<Rightarrow> string list \<times> (error + ProtoFileSet)" where
  "runGetProtoFileSetForRealFilePaths ord b roots realFilePaths realFilePathsAllowNotExist =
     (case newConfig roots [] of
        Inl err \<Rightarrow> ([], Inl err)
      | Inr config \<Rightarrow>
          (case checkRealFilePaths b realFilePathsAllowNotExist realFilePaths [] [] of
             (statCalls, Inl err) \<Rightarrow> (statCalls, Inl err)
           | (statCalls, Inr normalizedRealFilePaths) \<Rightarrow>
               (statCalls,
                case resolveRealFilePaths ord (SliceToMap (Roots config)) (Roots config)
                       (rangeOrder (range154 ord) normalizedRealFilePaths) [] of
                  Inl err \<Rightarrow> Inl err
                | Inr rootFilePathToRealFilePath \<Rightarrow>
                    if length rootFilePathToRealFilePath = 0
                    then Inl ErrNoInputFilesSpecified
                    else newProtoFileSet (Roots config) rootFilePathToRealFilePath)))"

definition GetProtoFileSetForRealFilePaths ::
  "rangeOracle \<Rightarrow> bucket \<Rightarrow> string list \<Rightarrow> string list \<Rightarrow> bool \<Rightarrow> error + ProtoFileSet" where
  "GetProtoFileSetForRealFilePaths ord b roots realFilePaths realFilePathsAllowNotExist =
     snd (runGetProtoFileSetForRealFilePaths ord b roots realFilePaths realFilePathsAllowNotExist)"

subsection \<open>Notions used to state the properties\<close>

text \<open>
  A segment of a normalised path: not empty, neither \<open>.\<close> nor \<open>..\<close>, without a
  slash.
\<close>

definition cleanSegment :: "string \<Rightarrow> bool" where
  "cleanSegment s = (s \<noteq> [] \<and> s \<noteq> ''.'' \<and> s \<noteq> ''..'' \<and> CHR ''/'' \<notin> set s)"

text \<open>
  The logical path of a real path under a root, as both entry points compute it
  (lines 51 to 59 and lines 164 to 174): the relative path, validated once more.
\<close>

definition rootFilePathOf :: "string \<Rightarrow> string \<Rightarrow> error + string" where
  "rootFilePathOf root realFilePath =
     (case Rel root realFilePath of
        Inl err \<Rightarrow> Inl err
      | Inr relFilePath \<Rightarrow> NormalizeAndValidate relFilePath)"

text \<open>
  What the specification asks of the root scan, in its words: every file with the
  extension \<open>.proto\<close> that the bucket enumerates under a root, keyed by its path
  relative to that root.
\<close>

definition relativeEntries :: "string \<Rightarrow> string list \<Rightarrow> (string \<times> string) list" where
  "relativeEntries root paths =
     concat (map (\<lambda>p. case Rel root p of Inl err \<Rightarrow> [] | Inr k \<Rightarrow> [(k, p)]) paths)"

definition protoFilesUnder :: "bucket \<Rightarrow> string list \<Rightarrow> (string \<times> string) list" where
  "protoFilesUnder b roots =
     concat (map (\<lambda>root. relativeEntries root (filter (\<lambda>p. Ext p = ''.proto'') (walked b root)))
               roots)"

text \<open>
  A bucket that behaves on the given roots: no walk of a root fails, and every path a
  walk enumerates is normalised and lies under the root walked. It is a hypothesis of
  the statements that name it, never a property of every bucket.
\<close>

definition wellFormedBucket :: "bucket \<Rightarrow> string list \<Rightarrow> bool" where
  "wellFormedBucket b roots =
     list_all (\<lambda>root. walkFailure b root = None \<and>
                 list_all (\<lambda>p. NormalizeAndValidate p = Inr p \<and> equalsOrContainsPath root p)
                   (walked b root))
       roots"

text \<open>The pairs of logical path and real path held by the accumulation map.\<close>

definition entriesOf :: "(string \<times> string list) list \<Rightarrow> (string \<times> string) set" where
  "entriesOf m = {(k, p). \<exists>ps. map_of m k = Some ps \<and> p \<in> set ps}"

text \<open>
  The logical path of an explicitly named file (lines 155 to 174): the file must lie
  within exactly one of the roots.
\<close>

definition rootFilePathIn :: "rangeOracle \<Rightarrow> string list \<Rightarrow> string list \<Rightarrow> string \<Rightarrow> error + string" where
  "rootFilePathIn ord rootMap roots normalizedRealFilePath =
     (let matchingRoots =
            rangeOrder (range157 ord normalizedRealFilePath) (MapMatches rootMap normalizedRealFilePath)
      in if length matchingRoots = 0
         then Inl (ErrNotWithinAnyRoot normalizedRealFilePath roots)
         else if length matchingRoots = 1
         then rootFilePathOf (matchingRoots ! 0) normalizedRealFilePath
         else Inl (ErrWithinMultipleRoots normalizedRealFilePath (sort matchingRoots)))"

text \<open>
  The invariant of the accumulation map: its keys are distinct and every key holds a
  non-empty set of real paths.
\<close>

definition accInv :: "(string \<times> string list) list \<Rightarrow> bool" where
  "accInv m = (distinct (map fst m) \<and> (\<forall>k ps. map_of m k = Some ps \<longrightarrow> ps \<noteq> [] \<and> distinct ps))"

text \<open>The entries the visitor adds for the paths enumerated under one root.\<close>

definition visitEntries :: "string \<Rightarrow> string list \<Rightarrow> (string \<times> string) set" where
  "visitEntries root ps = {(k, p). p \<in> set ps \<and> Ext p = ''.proto'' \<and> rootFilePathOf root p = Inr k}"


section \<open>Lemmas\<close>

subsection \<open>Paths\<close>

text \<open>
  Cutting a path at its slashes and joining the segments again are inverse to each
  other on clean segments, and normalising a path whose segments are clean returns the
  path. So a normalised path is determined by its segments, and a suffix of its
  segments is a normalised path again.
\<close>

lemma cleanSegments_skip: "s = [] \<or> s = ''.'' \<Longrightarrow> cleanSegments st (s # ss) = cleanSegments st ss"
  by (simp only: cleanSegments.simps if_True)

lemma cleanSegments_up:
  "s = ''..'' \<Longrightarrow> cleanSegments st (s # ss) = (case st of [] \<Rightarrow> None | t # st' \<Rightarrow> cleanSegments st' ss)"
  by simp

lemma cleanSegments_push:
  "cleanSegment s \<Longrightarrow> cleanSegments st (s # ss) = cleanSegments (s # st) ss"
  unfolding cleanSegment_def by (simp only: cleanSegments.simps if_False simp_thms)

lemma cleanSegments_clean:
  "cleanSegments st segs = Some out \<Longrightarrow> \<forall>s\<in>set st. cleanSegment s
     \<Longrightarrow> \<forall>s\<in>set segs. CHR ''/'' \<notin> set s \<Longrightarrow> \<forall>s\<in>set out. cleanSegment s"
proof (induction segs arbitrary: st out)
  case Nil
  then show ?case by auto
next
  case (Cons s ss)
  from Cons.prems(3) have free: "CHR ''/'' \<notin> set s" and rest: "\<forall>s\<in>set ss. CHR ''/'' \<notin> set s"
    by simp_all
  consider (skip) "s = [] \<or> s = ''.''" | (up) "s = ''..''" | (push) "cleanSegment s"
    using free unfolding cleanSegment_def by blast
  then show ?case
  proof cases
    case skip
    then have "cleanSegments st ss = Some out"
      using Cons.prems(1) cleanSegments_skip by metis
    then show ?thesis using Cons.IH Cons.prems(2) rest by blast
  next
    case up
    then have e: "(case st of [] \<Rightarrow> None | t # st' \<Rightarrow> cleanSegments st' ss) = Some out"
      using Cons.prems(1) cleanSegments_up by metis
    then obtain t st' where st: "st = t # st'" and r: "cleanSegments st' ss = Some out"
      by (cases st) simp_all
    from st Cons.prems(2) have "\<forall>s\<in>set st'. cleanSegment s" by simp
    then show ?thesis using Cons.IH r rest by blast
  next
    case push
    then have "cleanSegments (s # st) ss = Some out"
      using Cons.prems(1) cleanSegments_push by metis
    moreover have "\<forall>x\<in>set (s # st). cleanSegment x" using push Cons.prems(2) by simp
    ultimately show ?thesis using Cons.IH rest by blast
  qed
qed

lemma cleanSegments_id:
  "\<forall>s\<in>set segs. cleanSegment s \<Longrightarrow> cleanSegments st segs = Some (rev st @ segs)"
proof (induction segs arbitrary: st)
  case Nil
  then show ?case by simp
next
  case (Cons s ss)
  then have "cleanSegments st (s # ss) = cleanSegments (s # st) ss"
    using cleanSegments_push by simp
  also have "\<dots> = Some (rev (s # st) @ ss)" using Cons by simp
  finally show ?case by simp
qed


lemma splitOn_nonempty: "splitOn c s \<noteq> []"
  by (induction s) (auto split: list.splits)

lemma splitOn_free: "x \<in> set (splitOn c s) \<Longrightarrow> c \<notin> set x"
proof (induction s arbitrary: x)
  case Nil
  then show ?case by simp
next
  case (Cons a s)
  obtain y ys where ys: "splitOn c s = y # ys"
    using splitOn_nonempty [of c s] by (cases "splitOn c s") auto
  show ?case
  proof (cases "a = c")
    case True
    with Cons show ?thesis by auto
  next
    case False
    with Cons.prems ys have "x = a # y \<or> x \<in> set ys" by (auto split: list.splits)
    with Cons.IH ys False show ?thesis by auto
  qed
qed

lemma splitOn_single: "c \<notin> set s \<Longrightarrow> splitOn c s = [s]"
  by (induction s) auto

lemma splitOn_append: "c \<notin> set s \<Longrightarrow> splitOn c (s @ c # t) = s # splitOn c t"
  by (induction s) auto

lemma splitOn_joinPath:
  "segs \<noteq> [] \<Longrightarrow> \<forall>s\<in>set segs. CHR ''/'' \<notin> set s \<Longrightarrow> splitOn CHR ''/'' (joinPath segs) = segs"
proof (induction segs rule: joinPath.induct)
  case 1
  then show ?case by simp
next
  case (2 s)
  then show ?case by (simp add: splitOn_single)
next
  case (3 s t ss)
  then have IH: "splitOn CHR ''/'' (joinPath (t # ss)) = t # ss" by simp
  from 3 have "CHR ''/'' \<notin> set s" by simp
  then show ?case using IH by (simp add: splitOn_append)
qed

lemma joinPath_single_iff:
  "segs \<noteq> [] \<Longrightarrow> CHR ''/'' \<notin> set (joinPath segs) \<Longrightarrow> \<exists>s. segs = [s]"
  by (induction segs rule: joinPath.induct) auto

lemma joinPath_not_dot:
  assumes "segs \<noteq> []" and "\<forall>s\<in>set segs. cleanSegment s"
  shows "joinPath segs \<noteq> ''.''"
proof
  assume eq: "joinPath segs = ''.''"
  then have "CHR ''/'' \<notin> set (joinPath segs)" by simp
  then obtain s where "segs = [s]" using joinPath_single_iff assms(1) by blast
  with eq assms(2) show False by (simp add: cleanSegment_def)
qed

lemma joinPath_take1:
  assumes "segs \<noteq> []" and "\<forall>s\<in>set segs. cleanSegment s"
  shows "take 1 (joinPath segs) \<noteq> ''/''"
proof -
  obtain s ss where segs: "segs = s # ss" using assms(1) by (cases segs) auto
  then have s: "s \<noteq> []" "CHR ''/'' \<notin> set s" using assms(2) by (auto simp: cleanSegment_def)
  then obtain c cs where c: "s = c # cs" by (cases s) auto
  with s have "c \<noteq> CHR ''/''" by auto
  moreover have "take 1 (joinPath segs) = [c]" using segs c by (cases ss) simp_all
  ultimately show ?thesis by simp
qed

lemma pathComponents_joinPath:
  assumes "\<forall>s\<in>set segs. cleanSegment s"
  shows "pathComponents (if segs = [] then ''.'' else joinPath segs) = segs"
proof (cases "segs = []")
  case True
  then show ?thesis by (simp add: pathComponents_def)
next
  case False
  have "\<forall>s\<in>set segs. CHR ''/'' \<notin> set s" using assms by (simp add: cleanSegment_def)
  then show ?thesis
    using False joinPath_not_dot [OF False assms] splitOn_joinPath [OF False]
    by (simp add: pathComponents_def)
qed

lemma NormalizeAndValidate_clean:
  assumes "\<forall>s\<in>set segs. cleanSegment s"
  shows "NormalizeAndValidate (if segs = [] then ''.'' else joinPath segs)
           = Inr (if segs = [] then ''.'' else joinPath segs)"
proof (cases "segs = []")
  case True
  then show ?thesis by (simp add: NormalizeAndValidate_def)
next
  case False
  have free: "\<forall>s\<in>set segs. CHR ''/'' \<notin> set s" using assms by (simp add: cleanSegment_def)
  have "cleanSegments [] (splitOn CHR ''/'' (joinPath segs)) = Some segs"
    using splitOn_joinPath [OF False free] cleanSegments_id [OF assms, of "[]"] by simp
  then show ?thesis
    using False joinPath_take1 [OF False assms] by (simp add: NormalizeAndValidate_def)
qed

lemma normalized_components:
  assumes "NormalizeAndValidate p = Inr p"
  shows "\<forall>s\<in>set (pathComponents p). cleanSegment s"
    and "p = (if pathComponents p = [] then ''.'' else joinPath (pathComponents p))"
proof -
  obtain segs where segs: "cleanSegments [] (splitOn CHR ''/'' p) = Some segs"
    using assms by (cases "cleanSegments [] (splitOn CHR ''/'' p)")
      (simp_all add: NormalizeAndValidate_def split: if_splits)
  have "(if segs = [] then ''.'' else joinPath segs) = p"
    using assms segs by (simp add: NormalizeAndValidate_def split: if_splits)
  then have p: "p = (if segs = [] then ''.'' else joinPath segs)" by (rule sym)
  have "\<forall>s\<in>set (splitOn CHR ''/'' p). CHR ''/'' \<notin> set s" using splitOn_free by blast
  then have clean: "\<forall>s\<in>set segs. cleanSegment s"
    using cleanSegments_clean [OF segs] by simp
  have pc: "pathComponents p = segs"
    using pathComponents_joinPath [OF clean] p by simp
  show "\<forall>s\<in>set (pathComponents p). cleanSegment s"
    unfolding pc by (rule clean)
  show "p = (if pathComponents p = [] then ''.'' else joinPath (pathComponents p))"
    unfolding pc by (rule p)
qed

text \<open>
  An iteration order is a permutation of the entries of the map, and every permutation
  is the order of some oracle.
\<close>

lemma mset_rangeOrder: "mset (rangeOrder seeds xs) = mset xs"
proof (induction seeds arbitrary: xs)
  case Nil
  then show ?case by simp
next
  case (Cons s seeds)
  show ?case
  proof (cases "xs = []")
    case True
    then show ?thesis by simp
  next
    case False
    define i where "i = s mod length xs"
    have i: "i < length xs" using False by (simp add: i_def)
    have "mset xs = mset (take i xs @ xs ! i # drop (Suc i) xs)"
      using id_take_nth_drop [OF i] by simp
    also have "\<dots> = add_mset (xs ! i) (mset (take i xs @ drop (Suc i) xs))" by simp
    finally show ?thesis using False Cons.IH [of "take i xs @ drop (Suc i) xs"]
      by (simp add: i_def Let_def)
  qed
qed

lemma set_rangeOrder: "set (rangeOrder seeds xs) = set xs"
  using mset_rangeOrder [of seeds xs] by (metis set_mset_mset)

lemma length_rangeOrder: "length (rangeOrder seeds xs) = length xs"
  using mset_rangeOrder [of seeds xs] by (metis size_mset)

lemma distinct_rangeOrder: "distinct (rangeOrder seeds xs) = distinct xs"
  using mset_rangeOrder [of seeds xs] by (metis mset_eq_imp_distinct_iff)

lemma sort_rangeOrder: "sort (rangeOrder seeds (xs :: string list)) = sort xs"
  using mset_rangeOrder [of seeds xs] by (metis properties_for_sort sorted_sort mset_sort)

lemma rangeOrder_single: "rangeOrder seeds [x] = [x]"
proof (cases seeds)
  case Nil
  then show ?thesis by simp
next
  case (Cons s ss)
  then show ?thesis by (cases ss) simp_all
qed

lemma rangeOrder_complete: "mset ys = mset xs \<Longrightarrow> \<exists>seeds. rangeOrder seeds xs = ys"
proof (induction ys arbitrary: xs)
  case Nil
  then have "xs = []" by simp
  then have "rangeOrder [] xs = []" by simp
  then show ?case by blast
next
  case (Cons y ys)
  then have "y \<in> set xs" by (metis list.set_intros(1) mset_eq_setD)
  then obtain i where i: "i < length xs" and y: "xs ! i = y" by (auto simp: in_set_conv_nth)
  have "mset xs = add_mset y (mset (take i xs @ drop (Suc i) xs))"
    using id_take_nth_drop [OF i] y by (metis mset.simps(2) mset_append union_mset_add_mset_right)
  with Cons.prems have "mset ys = mset (take i xs @ drop (Suc i) xs)" by simp
  then obtain seeds where "rangeOrder seeds (take i xs @ drop (Suc i) xs) = ys"
    using Cons.IH by blast
  then have "rangeOrder (i # seeds) xs = y # ys" using i y by (auto simp: Let_def)
  then show ?case by blast
qed

subsection \<open>The accumulation of real paths\<close>

text \<open>
  One call of the visitor keeps the invariant of the accumulation map and adds at most
  one pair of logical path and real path; it fails only when the logical path of a
  file with extension \<open>.proto\<close> cannot be computed.
\<close>

lemma visit_alt:
  "visit root m p =
     (if Ext p \<noteq> ''.proto'' then Inr m
      else case rootFilePathOf root p of
             Inl err \<Rightarrow> Inl err
           | Inr k \<Rightarrow> Inr (AList.update k (List.insert p (case map_of m k of None \<Rightarrow> [] | Some ps \<Rightarrow> ps)) m))"
  by (simp add: visit_def rootFilePathOf_def split: sum.splits)

lemma entriesOf_update:
  "entriesOf (AList.update k (List.insert p (case map_of m k of None \<Rightarrow> [] | Some ps \<Rightarrow> ps)) m)
     = insert (k, p) (entriesOf m)"
  by (auto simp: entriesOf_def update_conv' split: option.splits if_splits)

lemma accInv_update:
  "accInv m \<Longrightarrow> accInv (AList.update k (List.insert p (case map_of m k of None \<Rightarrow> [] | Some ps \<Rightarrow> ps)) m)"
proof -
  assume inv: "accInv m"
  define ps0 where "ps0 = (case map_of m k of None \<Rightarrow> [] | Some ps \<Rightarrow> ps)"
  have d0: "distinct ps0"
    using inv by (cases "map_of m k") (simp_all add: ps0_def accInv_def)
  have v: "List.insert p ps0 \<noteq> [] \<and> distinct (List.insert p ps0)"
    using d0 by (auto simp: List.insert_def)
  have "distinct (map fst (AList.update k (List.insert p ps0) m))"
    using inv by (simp add: accInv_def distinct_update)
  moreover have "\<forall>k' ps. map_of (AList.update k (List.insert p ps0) m) k' = Some ps
      \<longrightarrow> ps \<noteq> [] \<and> distinct ps"
  proof (intro allI impI)
    fix k' ps
    assume a: "map_of (AList.update k (List.insert p ps0) m) k' = Some ps"
    show "ps \<noteq> [] \<and> distinct ps"
    proof (cases "k' = k")
      case True
      then have "ps = List.insert p ps0" using a by (simp add: update_conv')
      then show ?thesis using v by simp
    next
      case False
      then have "map_of m k' = Some ps" using a by (simp add: update_conv')
      then show ?thesis using inv by (simp add: accInv_def)
    qed
  qed
  ultimately show ?thesis unfolding accInv_def ps0_def by blast
qed

lemma accInv_Nil: "accInv []"
  by (simp add: accInv_def)

lemma entriesOf_Nil: "entriesOf [] = {}"
  by (simp add: entriesOf_def)

lemma visitEntries_Nil: "visitEntries root [] = {}"
  by (simp add: visitEntries_def)

lemma visitEntries_Cons:
  "visitEntries root (p # ps) =
     (if Ext p = ''.proto'' then (case rootFilePathOf root p of Inl e \<Rightarrow> {} | Inr k \<Rightarrow> {(k, p)}) else {})
       \<union> visitEntries root ps"
  by (auto simp: visitEntries_def split: sum.splits)

lemma visit_Inl:
  assumes "visit root m p = Inl e"
  shows "Ext p = ''.proto'' \<and> rootFilePathOf root p = Inl e"
proof (cases "Ext p = ''.proto''")
  case False
  then show ?thesis using assms by (simp add: visit_alt)
next
  case True
  then show ?thesis using assms by (cases "rootFilePathOf root p") (simp_all add: visit_alt)
qed

lemma visit_Inr:
  assumes "visit root m p = Inr m1" and "accInv m"
  shows "accInv m1 \<and> entriesOf m1 = entriesOf m \<union> visitEntries root [p]"
proof (cases "Ext p = ''.proto''")
  case False
  then show ?thesis using assms by (simp add: visit_alt visitEntries_Cons visitEntries_Nil)
next
  case True
  show ?thesis
  proof (cases "rootFilePathOf root p")
    case (Inl e)
    then show ?thesis using assms True by (simp add: visit_alt)
  next
    case (Inr k)
    then have "m1 = AList.update k (List.insert p (case map_of m k of None \<Rightarrow> [] | Some ps \<Rightarrow> ps)) m"
      using assms(1) True by (simp add: visit_alt)
    then show ?thesis
      using assms(2) True Inr
      by (simp add: entriesOf_update accInv_update visitEntries_Cons visitEntries_Nil)
  qed
qed

lemma visitAll_visit_Inr:
  "visitAll (visit root) m ps = Inr m' \<Longrightarrow> accInv m \<Longrightarrow>
     accInv m' \<and> entriesOf m' = entriesOf m \<union> visitEntries root ps"
proof (induction ps arbitrary: m)
  case Nil
  then show ?case by (simp add: visitEntries_Nil)
next
  case (Cons p ps)
  show ?case
  proof (cases "visit root m p")
    case (Inl e)
    then show ?thesis using Cons.prems(1) by simp
  next
    case (Inr m1)
    then have rest: "visitAll (visit root) m1 ps = Inr m'" using Cons.prems(1) by simp
    have one: "accInv m1 \<and> entriesOf m1 = entriesOf m \<union> visitEntries root [p]"
      using visit_Inr [OF Inr Cons.prems(2)] .
    then have "accInv m' \<and> entriesOf m' = entriesOf m1 \<union> visitEntries root ps"
      using Cons.IH [OF rest] by simp
    moreover have "(entriesOf m \<union> visitEntries root [p]) \<union> visitEntries root ps
        = entriesOf m \<union> visitEntries root (p # ps)"
      unfolding visitEntries_def by auto
    ultimately show ?thesis using one by simp
  qed
qed

lemma visitAll_visit_Inl:
  "visitAll (visit root) m ps = Inl e \<Longrightarrow> \<exists>p\<in>set ps. Ext p = ''.proto'' \<and> rootFilePathOf root p = Inl e"
proof (induction ps arbitrary: m)
  case Nil
  then show ?case by simp
next
  case (Cons p ps)
  show ?case
  proof (cases "visit root m p")
    case (Inl e')
    then have "e' = e" using Cons.prems by simp
    then show ?thesis using visit_Inl [OF Inl] by simp
  next
    case (Inr m1)
    then have "visitAll (visit root) m1 ps = Inl e" using Cons.prems by simp
    then show ?thesis using Cons.IH by auto
  qed
qed

subsection \<open>Walking the roots\<close>

text \<open>
  What the walks of all roots accumulate, and the only ways in which they fail. For a
  bucket that behaves on the roots (\<open>wellFormedBucket\<close>) the walks succeed and
  accumulate the files the specification describes.
\<close>

lemma Walk_Inr:
  assumes "Walk b root (visit root) m = Inr m'" and "accInv m"
  shows "accInv m' \<and> entriesOf m' = entriesOf m \<union> visitEntries root (walked b root)
           \<and> walkFailure b root = None"
proof (cases "visitAll (visit root) m (walked b root)")
  case (Inl e)
  then show ?thesis using assms(1) by (simp add: Walk_def)
next
  case (Inr m1)
  then have "walkFailure b root = None \<and> m1 = m'"
    using assms(1) by (cases "walkFailure b root") (simp_all add: Walk_def)
  then show ?thesis using visitAll_visit_Inr [OF Inr assms(2)] by simp
qed

lemma Walk_Inl:
  assumes "Walk b root (visit root) m = Inl e"
  shows "(\<exists>p\<in>set (walked b root). Ext p = ''.proto'' \<and> rootFilePathOf root p = Inl e)
           \<or> (\<exists>se. walkFailure b root = Some se \<and> e = ErrStorage se)"
proof (cases "visitAll (visit root) m (walked b root)")
  case (Inl e')
  then have "e' = e" using assms by (simp add: Walk_def)
  then show ?thesis using visitAll_visit_Inl [OF Inl] by simp
next
  case (Inr m1)
  then show ?thesis using assms by (cases "walkFailure b root") (simp_all add: Walk_def)
qed

lemma walkRoots_Inr:
  "walkRoots b roots m = Inr m' \<Longrightarrow> accInv m \<Longrightarrow>
     accInv m' \<and> entriesOf m' = entriesOf m \<union> (\<Union>r\<in>set roots. visitEntries r (walked b r))
       \<and> (\<forall>r\<in>set roots. walkFailure b r = None)"
proof (induction roots arbitrary: m)
  case Nil
  then show ?case by simp
next
  case (Cons root roots)
  show ?case
  proof (cases "Walk b root (visit root) m")
    case (Inl e)
    then show ?thesis using Cons.prems(1) by simp
  next
    case (Inr m1)
    then have rest: "walkRoots b roots m1 = Inr m'" using Cons.prems(1) by simp
    have one: "accInv m1 \<and> entriesOf m1 = entriesOf m \<union> visitEntries root (walked b root)
           \<and> walkFailure b root = None"
      using Walk_Inr [OF Inr Cons.prems(2)] .
    then have "accInv m' \<and> entriesOf m' = entriesOf m1 \<union> (\<Union>r\<in>set roots. visitEntries r (walked b r))
       \<and> (\<forall>r\<in>set roots. walkFailure b r = None)"
      using Cons.IH [OF rest] by simp
    then show ?thesis using one by auto
  qed
qed

lemma walkRoots_Inl:
  "walkRoots b roots m = Inl e \<Longrightarrow>
     \<exists>r\<in>set roots. (\<exists>p\<in>set (walked b r). Ext p = ''.proto'' \<and> rootFilePathOf r p = Inl e)
           \<or> (\<exists>se. walkFailure b r = Some se \<and> e = ErrStorage se)"
proof (induction roots arbitrary: m)
  case Nil
  then show ?case by simp
next
  case (Cons root roots)
  show ?case
  proof (cases "Walk b root (visit root) m")
    case (Inl e')
    then have "e' = e" using Cons.prems by simp
    then show ?thesis using Walk_Inl [OF Inl] by simp
  next
    case (Inr m1)
    then have "walkRoots b roots m1 = Inl e" using Cons.prems by simp
    then show ?thesis using Cons.IH by (meson list.set_intros(2))
  qed
qed

lemma wellFormed_rootFilePathOf:
  assumes "NormalizeAndValidate p = Inr p" and "equalsOrContainsPath root p"
  shows "\<exists>k. Rel root p = Inr k \<and> rootFilePathOf root p = Inr k"
proof -
  define r where "r = drop (length (pathComponents root)) (pathComponents p)"
  have "\<forall>s\<in>set (pathComponents p). cleanSegment s"
    using normalized_components(1) [OF assms(1)] .
  then have clean: "\<forall>s\<in>set r. cleanSegment s"
    unfolding r_def by (meson in_set_dropD)
  have rel: "Rel root p = Inr (if r = [] then ''.'' else joinPath r)"
    using assms(2) by (simp add: Rel_def equalsOrContainsPath_def r_def Let_def)
  then show ?thesis
    using NormalizeAndValidate_clean [OF clean] by (simp add: rootFilePathOf_def)
qed

lemma wellFormedBucket_iff:
  "wellFormedBucket b roots \<longleftrightarrow>
     (\<forall>r\<in>set roots. walkFailure b r = None \<and>
        (\<forall>p\<in>set (walked b r). NormalizeAndValidate p = Inr p \<and> equalsOrContainsPath r p))"
  by (simp add: wellFormedBucket_def list_all_iff)

lemma set_relativeEntries:
  "set (relativeEntries root ps) = {(k, p). p \<in> set ps \<and> Rel root p = Inr k}"
  by (auto simp: relativeEntries_def split: sum.splits)

lemma set_protoFilesUnder:
  "set (protoFilesUnder b roots) =
     {(k, p). \<exists>r\<in>set roots. p \<in> set (walked b r) \<and> Ext p = ''.proto'' \<and> Rel r p = Inr k}"
  by (auto simp: protoFilesUnder_def set_relativeEntries)

lemma wellFormed_visitEntries:
  assumes "wellFormedBucket b roots"
  shows "(\<Union>r\<in>set roots. visitEntries r (walked b r)) = set (protoFilesUnder b roots)"
proof -
  have "\<And>r p k. r \<in> set roots \<Longrightarrow> p \<in> set (walked b r) \<Longrightarrow>
          rootFilePathOf r p = Inr k \<longleftrightarrow> Rel r p = Inr k"
    using assms wellFormed_rootFilePathOf unfolding wellFormedBucket_iff
    by (metis sum.inject(2))
  then show ?thesis
    unfolding set_protoFilesUnder visitEntries_def by blast
qed

lemma wellFormed_walkRoots:
  assumes "wellFormedBucket b roots"
  shows "\<exists>m. walkRoots b roots [] = Inr m \<and> accInv m \<and> entriesOf m = set (protoFilesUnder b roots)"
proof (cases "walkRoots b roots []")
  case (Inl e)
  then obtain r where r: "r \<in> set roots"
    and "(\<exists>p\<in>set (walked b r). Ext p = ''.proto'' \<and> rootFilePathOf r p = Inl e)
           \<or> (\<exists>se. walkFailure b r = Some se \<and> e = ErrStorage se)"
    using walkRoots_Inl by blast
  then show ?thesis
    using assms wellFormed_rootFilePathOf unfolding wellFormedBucket_iff
    by (metis Inl_Inr_False option.distinct(1))
next
  case (Inr m)
  then show ?thesis
    using walkRoots_Inr [OF Inr accInv_Nil] wellFormed_visitEntries [OF assms]
    by (simp add: entriesOf_Nil)
qed

subsection \<open>Collapsing and filtering\<close>

text \<open>
  The loop of lines 74 to 89 succeeds exactly when every key holds one real path, and
  then returns the keys in the order of the iteration, each with its real path. The
  loop of lines 100 to 104 is a filter.
\<close>

lemma update_fresh: "k \<notin> fst ` set al \<Longrightarrow> AList.update k v al = al @ [(k, v)]"
  by (induction al) auto

lemma length_one_hd: "length ps = 1 \<Longrightarrow> ps = [hd ps]"
  by (cases ps) simp_all

lemma rangeOrder_Nil_iff: "rangeOrder seeds xs = [] \<longleftrightarrow> xs = []"
  using length_rangeOrder [of seeds xs] by (metis length_0_conv)

lemma collapse_Cons:
  "collapse ord ((k, ps) # rest) out =
     (if ps = [] then Inl (ErrNoRealFilePath k)
      else if length ps = 1 then collapse ord rest (AList.update k (hd ps) out)
      else Inl (ErrWithinMultipleRoots k (sort ps)))"
proof (cases "length ps = 1")
  case True
  then have ps: "ps = [hd ps]" by (rule length_one_hd)
  have "rangeOrder (range76 ord k) ps = [hd ps]"
    using rangeOrder_single [of "range76 ord k" "hd ps"] ps by simp
  moreover have "ps ! 0 = hd ps" "ps \<noteq> []" using True by (cases ps; simp)+
  ultimately show ?thesis using True by (simp add: Let_def)
next
  case False
  then show ?thesis by (simp add: Let_def length_rangeOrder sort_rangeOrder rangeOrder_Nil_iff)
qed

lemma collapse_Inr:
  "collapse ord l out = Inr out' \<Longrightarrow> distinct (map fst l) \<Longrightarrow> fst ` set l \<inter> fst ` set out = {} \<Longrightarrow>
     out' = out @ map (\<lambda>(k, ps). (k, hd ps)) l \<and> (\<forall>(k, ps)\<in>set l. length ps = 1)"
proof (induction l arbitrary: out)
  case Nil
  then show ?case by simp
next
  case (Cons x rest)
  obtain k ps where x: "x = (k, ps)" by (cases x)
  from Cons.prems(1) have len: "length ps = 1" and ne: "ps \<noteq> []"
    and rec: "collapse ord rest (AList.update k (hd ps) out) = Inr out'"
    unfolding x collapse_Cons by (auto split: if_splits)
  have fresh: "k \<notin> fst ` set out" using Cons.prems(3) x by auto
  then have upd: "AList.update k (hd ps) out = out @ [(k, hd ps)]" by (rule update_fresh)
  have d: "distinct (map fst rest)" and knr: "k \<notin> fst ` set rest"
    using Cons.prems(2) x by auto
  have disj: "fst ` set rest \<inter> fst ` set (out @ [(k, hd ps)]) = {}"
    using Cons.prems(3) knr by auto
  have "out' = (out @ [(k, hd ps)]) @ map (\<lambda>(k, ps). (k, hd ps)) rest
          \<and> (\<forall>(k, ps)\<in>set rest. length ps = 1)"
    using Cons.IH [OF rec [unfolded upd] d disj] .
  then show ?case using x len by simp
qed

lemma collapse_Inl:
  "collapse ord l out = Inl e \<Longrightarrow>
     \<exists>k ps. (k, ps) \<in> set l \<and>
        (ps = [] \<and> e = ErrNoRealFilePath k \<or> 2 \<le> length ps \<and> e = ErrWithinMultipleRoots k (sort ps))"
proof (induction l arbitrary: out)
  case Nil
  then show ?case by simp
next
  case (Cons x rest)
  obtain k ps where x: "x = (k, ps)" by (cases x)
  consider (empty) "ps = []" | (one) "length ps = 1" | (many) "2 \<le> length ps"
    by (cases ps) (auto simp: Suc_le_eq)
  then show ?case
  proof cases
    case empty
    then have "e = ErrNoRealFilePath k" using Cons.prems unfolding x collapse_Cons by simp
    then show ?thesis using empty x by auto
  next
    case one
    then have "collapse ord rest (AList.update k (hd ps) out) = Inl e"
      using Cons.prems unfolding x collapse_Cons by (auto split: if_splits)
    then show ?thesis using Cons.IH by (meson list.set_intros(2))
  next
    case many
    then have "e = ErrWithinMultipleRoots k (sort ps)"
      using Cons.prems unfolding x collapse_Cons by (auto split: if_splits)
    then show ?thesis using many x by auto
  qed
qed

lemma filterExcludes_filter:
  "distinct (map fst l) \<Longrightarrow> fst ` set l \<inter> fst ` set out = {} \<Longrightarrow>
     filterExcludes ex l out = out @ filter (\<lambda>(k, v). \<not> MapContainsMatch ex (Dir v)) l"
proof (induction l arbitrary: out)
  case Nil
  then show ?case by simp
next
  case (Cons x rest)
  obtain k v where x: "x = (k, v)" by (cases x)
  have d: "distinct (map fst rest)" and knr: "k \<notin> fst ` set rest"
    using Cons.prems(1) x by auto
  show ?case
  proof (cases "MapContainsMatch ex (Dir v)")
    case True
    have "fst ` set rest \<inter> fst ` set out = {}" using Cons.prems(2) by auto
    then show ?thesis using Cons.IH [OF d] True x by simp
  next
    case False
    have fresh: "k \<notin> fst ` set out" using Cons.prems(2) x by auto
    have disj: "fst ` set rest \<inter> fst ` set (out @ [(k, v)]) = {}"
      using Cons.prems(2) knr by auto
    show ?thesis using Cons.IH [OF d disj] False x update_fresh [OF fresh] by simp
  qed
qed

subsection \<open>The configuration\<close>

text \<open>
  What an accepted configuration holds and which errors the validation returns; the
  roots of the configuration do not depend on the excludes.
\<close>

lemma normalizeAll_Inr:
  "normalizeAll xs = Inr ns \<Longrightarrow> length ns = length xs \<and> (\<forall>n\<in>set ns. NormalizeAndValidate n = Inr n)"
proof (induction xs arbitrary: ns)
  case Nil
  then show ?case by simp
next
  case (Cons x xs)
  from Cons.prems obtain n ns' where n: "NormalizeAndValidate x = Inr n"
    and ns': "normalizeAll xs = Inr ns'" and ns: "ns = n # ns'"
    by (auto split: if_splits sum.splits)
  obtain segs where segs: "cleanSegments [] (splitOn CHR ''/'' x) = Some segs"
    using n by (cases "cleanSegments [] (splitOn CHR ''/'' x)")
      (simp_all add: NormalizeAndValidate_def split: if_splits)
  have nn: "n = (if segs = [] then ''.'' else joinPath segs)"
    using n segs by (simp add: NormalizeAndValidate_def split: if_splits)
  have "\<forall>s\<in>set (splitOn CHR ''/'' x). CHR ''/'' \<notin> set s" using splitOn_free by blast
  then have "\<forall>s\<in>set segs. cleanSegment s" using cleanSegments_clean [OF segs] by simp
  then have "NormalizeAndValidate n = Inr n" unfolding nn by (rule NormalizeAndValidate_clean)
  then show ?case using Cons.IH [OF ns'] ns by simp
qed

lemma normalizeAll_Inl:
  "normalizeAll xs = Inl e \<Longrightarrow> e = ErrEmptyValue \<or> (\<exists>p. e = ErrInvalidPath p)"
proof (induction xs)
  case Nil
  then show ?case by simp
next
  case (Cons x xs)
  show ?case
  proof (cases "x = []")
    case True
    then show ?thesis using Cons.prems by simp
  next
    case False
    show ?thesis
    proof (cases "NormalizeAndValidate x")
      case (Inl e')
      then have "e = e'" using Cons.prems False by simp
      then show ?thesis using Inl by (auto simp: NormalizeAndValidate_def split: if_splits option.splits)
    next
      case (Inr n)
      then show ?thesis using Cons False by (auto split: sum.splits)
    qed
  qed
qed

lemma newConfig_Inl:
  assumes "newConfig roots excludes = Inl e"
  shows "e = ErrEmptyValue \<or> (\<exists>p. e = ErrInvalidPath p) \<or> e = ErrNoRoots \<or> (\<exists>rs. e = ErrOverlappingRoots rs)"
proof (cases "normalizeAll roots")
  case (Inl e')
  then show ?thesis using assms normalizeAll_Inl [OF Inl] by (auto simp: newConfig_def)
next
  case (Inr rs)
  note rs = this
  show ?thesis
  proof (cases "normalizeAll excludes")
    case (Inl e')
    then show ?thesis using assms rs normalizeAll_Inl [OF Inl] by (auto simp: newConfig_def)
  next
    case (Inr es)
    then show ?thesis using assms rs by (auto simp: newConfig_def split: if_splits)
  qed
qed

lemma newConfig_Inr:
  assumes "newConfig roots excludes = Inr cfg"
  shows "\<exists>rs es. normalizeAll roots = Inr rs \<and> normalizeAll excludes = Inr es
           \<and> Roots cfg = remdups rs \<and> Excludes cfg = remdups es
           \<and> Roots cfg \<noteq> [] \<and> \<not> rootsOverlap (Roots cfg)"
proof (cases "normalizeAll roots")
  case (Inl e')
  then show ?thesis using assms by (simp add: newConfig_def)
next
  case (Inr rs)
  note rs = this
  show ?thesis
  proof (cases "normalizeAll excludes")
    case (Inl e')
    then show ?thesis using assms rs by (simp add: newConfig_def)
  next
    case (Inr es)
    then show ?thesis using assms rs by (auto simp: newConfig_def split: if_splits)
  qed
qed

lemma newConfig_no_excludes:
  assumes "newConfig roots excludes = Inr cfg"
  shows "newConfig roots [] = Inr (cfg\<lparr>Excludes := []\<rparr>)"
proof -
  obtain rs es where "normalizeAll roots = Inr rs" "Roots cfg = remdups rs"
    "Roots cfg \<noteq> []" "\<not> rootsOverlap (Roots cfg)"
    using newConfig_Inr [OF assms] by blast
  then show ?thesis by (simp add: newConfig_def)
qed

lemma newConfig_Excludes_Nil:
  assumes "newConfig roots excludes = Inr cfg"
  shows "Excludes cfg = [] \<longleftrightarrow> excludes = []"
proof -
  obtain es where es: "normalizeAll excludes = Inr es" "Excludes cfg = remdups es"
    using newConfig_Inr [OF assms] by blast
  have "length es = length excludes" using normalizeAll_Inr [OF es(1)] by simp
  then have "es = [] \<longleftrightarrow> excludes = []" by (metis length_0_conv)
  then show ?thesis using es(2) by simp
qed

lemma rootFilePathOf_Inl:
  assumes "rootFilePathOf root p = Inl e"
  shows "(\<exists>a c. e = ErrNotRelative a c) \<or> (\<exists>a. e = ErrInvalidPath a)"
proof (cases "Rel root p")
  case (Inl e')
  then have "e' = e" using assms by (simp add: rootFilePathOf_def)
  then show ?thesis using Inl by (auto simp: Rel_def Let_def split: if_splits)
next
  case (Inr k)
  then have "NormalizeAndValidate k = Inl e" using assms by (simp add: rootFilePathOf_def)
  then show ?thesis by (auto simp: NormalizeAndValidate_def split: if_splits option.splits)
qed

lemma accInv_set:
  assumes "accInv m" and "(k, ps) \<in> set m"
  shows "ps \<noteq> [] \<and> distinct ps \<and> map_of m k = Some ps"
proof -
  have "map_of m k = Some ps" using assms by (simp add: accInv_def)
  then show ?thesis using assms(1) by (simp add: accInv_def)
qed

subsection \<open>The stages of the root scan\<close>

text \<open>
  The root scan in terms of its stages: configuration, walks, collapse, filter.
\<close>

lemma distinct_map_rangeOrder: "distinct (map f (rangeOrder seeds xs)) = distinct (map f xs)"
proof -
  have "mset (map f (rangeOrder seeds xs)) = mset (map f xs)"
    using mset_rangeOrder [of seeds xs] by (metis mset_map)
  then show ?thesis by (rule mset_eq_imp_distinct_iff)
qed

lemma collapse_result:
  assumes inv: "accInv m" and c: "collapse ord (rangeOrder seeds m) [] = Inr c"
  shows "distinct (map fst c) \<and> set c = entriesOf m \<and> (\<forall>(k, ps)\<in>set m. length ps = 1)"
proof -
  have d: "distinct (map fst (rangeOrder seeds m))"
    using inv by (simp add: distinct_map_rangeOrder accInv_def)
  have r: "c = map (\<lambda>(k, ps). (k, hd ps)) (rangeOrder seeds m)
         \<and> (\<forall>(k, ps)\<in>set (rangeOrder seeds m). length ps = 1)"
    using collapse_Inr [OF c d] by simp
  then have one: "\<forall>(k, ps)\<in>set m. length ps = 1" by (simp add: set_rangeOrder)
  have keys: "map fst c = map fst (rangeOrder seeds m)"
    using r by (simp add: case_prod_unfold comp_def)
  have setc: "set c = (\<lambda>(k, ps). (k, hd ps)) ` set m"
    using r by (simp add: set_rangeOrder)
  have "set c = entriesOf m"
  proof (rule set_eqI)
    fix x :: "string \<times> string"
    obtain k p where x: "x = (k, p)" by (cases x)
    have "x \<in> set c \<longleftrightarrow> (\<exists>ps. (k, ps) \<in> set m \<and> p = hd ps)"
      unfolding setc x by auto
    also have "\<dots> \<longleftrightarrow> (\<exists>ps. map_of m k = Some ps \<and> p \<in> set ps)"
    proof
      assume "\<exists>ps. (k, ps) \<in> set m \<and> p = hd ps"
      then obtain ps where ps: "(k, ps) \<in> set m" "p = hd ps" by blast
      then have "map_of m k = Some ps" "ps \<noteq> []" using accInv_set [OF inv] by simp_all
      then show "\<exists>ps. map_of m k = Some ps \<and> p \<in> set ps" using ps(2) by auto
    next
      assume "\<exists>ps. map_of m k = Some ps \<and> p \<in> set ps"
      then obtain ps where ps: "map_of m k = Some ps" "p \<in> set ps" by blast
      then have in_m: "(k, ps) \<in> set m" by (meson map_of_SomeD)
      then have "length ps = 1" using one by auto
      then have "ps = [hd ps]" by (rule length_one_hd)
      then have "p = hd ps" using ps(2) by (metis empty_iff empty_set set_ConsD)
      then show "\<exists>ps. (k, ps) \<in> set m \<and> p = hd ps" using in_m by blast
    qed
    finally show "x \<in> set c \<longleftrightarrow> x \<in> entriesOf m" by (simp add: entriesOf_def x)
  qed
  then show ?thesis using d keys one by simp
qed

lemma collapse_fails:
  assumes inv: "accInv m" and c: "collapse ord (rangeOrder seeds m) [] = Inl e"
  shows "\<exists>k ps. map_of m k = Some ps \<and> 2 \<le> length ps \<and> distinct ps
            \<and> e = ErrWithinMultipleRoots k (sort ps)"
proof -
  obtain k ps where kps: "(k, ps) \<in> set (rangeOrder seeds m)"
    and e: "ps = [] \<and> e = ErrNoRealFilePath k \<or> 2 \<le> length ps \<and> e = ErrWithinMultipleRoots k (sort ps)"
    using collapse_Inl [OF c] by blast
  have "(k, ps) \<in> set m" using kps by (simp add: set_rangeOrder)
  then have "ps \<noteq> [] \<and> distinct ps \<and> map_of m k = Some ps" using accInv_set [OF inv] by simp
  then show ?thesis using e by blast
qed

lemma collapse_succeeds:
  assumes "\<forall>(k, ps)\<in>set m. length ps = 1"
  shows "\<exists>c. collapse ord (rangeOrder seeds m) out = Inr c"
proof (cases "collapse ord (rangeOrder seeds m) out")
  case (Inl e)
  then obtain k ps where "(k, ps) \<in> set (rangeOrder seeds m)" "ps = [] \<or> 2 \<le> length ps"
    using collapse_Inl [OF Inl] by blast
  then show ?thesis using assms by (auto simp: set_rangeOrder)
next
  case (Inr c)
  then show ?thesis by blast
qed

lemma GetProtoFileSetForBucket_stages:
  assumes cfg: "newConfig roots excludes = Inr cfg"
    and m: "walkRoots b (Roots cfg) [] = Inr m"
    and c: "collapse ord (rangeOrder (range74 ord) m) [] = Inr c"
  shows "GetProtoFileSetForBucket ord b roots excludes =
     (if excludes = []
      then (if c = [] then Inl ErrNoInputFilesMatchRoots
            else Inr \<lparr>pfsRoots = Roots cfg, pfsRootFilePathToRealFilePath = c\<rparr>)
      else (if filter (\<lambda>(k, v). \<not> MapContainsMatch (SliceToMap (Excludes cfg)) (Dir v))
                 (rangeOrder (range100 ord) c) = []
            then Inl ErrNoInputFilesMatchRootsAndExcludes
            else Inr \<lparr>pfsRoots = Roots cfg, pfsRootFilePathToRealFilePath =
                    filter (\<lambda>(k, v). \<not> MapContainsMatch (SliceToMap (Excludes cfg)) (Dir v))
                      (rangeOrder (range100 ord) c)\<rparr>))"
proof -
  have inv: "accInv m" using walkRoots_Inr [OF m accInv_Nil] by simp
  have "distinct (map fst c)" using collapse_result [OF inv c] by simp
  then have "distinct (map fst (rangeOrder (range100 ord) c))"
    by (simp add: distinct_map_rangeOrder)
  then have f: "filterExcludes (SliceToMap (Excludes cfg)) (rangeOrder (range100 ord) c) []
      = filter (\<lambda>(k, v). \<not> MapContainsMatch (SliceToMap (Excludes cfg)) (Dir v))
          (rangeOrder (range100 ord) c)"
    using filterExcludes_filter [of "rangeOrder (range100 ord) c" "[]"] by simp
  show ?thesis
    using cfg m c newConfig_Excludes_Nil [OF cfg]
    by (simp add: GetProtoFileSetForBucket_def newProtoFileSet_def f Let_def)
qed

lemma GetProtoFileSetForBucket_Inr:
  assumes "GetProtoFileSetForBucket ord b roots excludes = Inr pfs"
  shows "\<exists>cfg m c. newConfig roots excludes = Inr cfg \<and> walkRoots b (Roots cfg) [] = Inr m
           \<and> collapse ord (rangeOrder (range74 ord) m) [] = Inr c"
proof (cases "newConfig roots excludes")
  case (Inl e)
  then show ?thesis using assms by (simp add: GetProtoFileSetForBucket_def)
next
  case (Inr cfg)
  note cfg = this
  show ?thesis
  proof (cases "walkRoots b (Roots cfg) []")
    case (Inl e)
    then show ?thesis using assms cfg by (simp add: GetProtoFileSetForBucket_def)
  next
    case (Inr m)
    note m = this
    show ?thesis
    proof (cases "collapse ord (rangeOrder (range74 ord) m) []")
      case (Inl e)
      then show ?thesis using assms cfg m by (simp add: GetProtoFileSetForBucket_def)
    next
      case (Inr c)
      then show ?thesis using cfg m by blast
    qed
  qed
qed

subsection \<open>The outcome of the root scan\<close>

text \<open>
  Roots that do not overlap never contain the same path. With this, the result of the
  root scan without excludes is described in terms of the files of the bucket.
\<close>

lemma rootsOverlap_none:
  "\<not> rootsOverlap rs \<Longrightarrow> r1 \<in> set rs \<Longrightarrow> r2 \<in> set rs \<Longrightarrow> equalsOrContainsPath r1 r2 \<Longrightarrow> r1 = r2"
proof (induction rs)
  case Nil
  then show ?case by simp
next
  case (Cons r rs)
  from Cons.prems(1) have no: "\<forall>s\<in>set rs. \<not> equalsOrContainsPath r s \<and> \<not> equalsOrContainsPath s r"
    and rest: "\<not> rootsOverlap rs"
    by (simp_all add: list_ex_iff)
  show ?case
  proof (cases "r1 \<in> set rs \<and> r2 \<in> set rs")
    case True
    then show ?thesis using Cons.IH [OF rest] Cons.prems(4) by simp
  next
    case False
    then have "r1 = r \<or> r2 = r" using Cons.prems(2,3) by auto
    then show ?thesis using no Cons.prems(2,3,4) by auto
  qed
qed

lemma one_root_contains:
  assumes "\<not> rootsOverlap rs" "r1 \<in> set rs" "r2 \<in> set rs"
    and "equalsOrContainsPath r1 p" "equalsOrContainsPath r2 p"
  shows "r1 = r2"
proof -
  have "prefix (pathComponents r1) (pathComponents r2) \<or> prefix (pathComponents r2) (pathComponents r1)"
    using assms(4,5) unfolding equalsOrContainsPath_def by (rule prefix_same_cases)
  then have "equalsOrContainsPath r1 r2 \<or> equalsOrContainsPath r2 r1"
    by (simp add: equalsOrContainsPath_def)
  then show ?thesis using rootsOverlap_none [OF assms(1)] assms(2,3) by blast
qed

lemma protoFilesUnder_inj:
  assumes wf: "wellFormedBucket b rs" and no: "\<not> rootsOverlap rs"
    and 1: "(k1, p) \<in> set (protoFilesUnder b rs)" and 2: "(k2, p) \<in> set (protoFilesUnder b rs)"
  shows "k1 = k2"
proof -
  obtain r1 where r1: "r1 \<in> set rs" "p \<in> set (walked b r1)" "Rel r1 p = Inr k1"
    using 1 unfolding set_protoFilesUnder by blast
  obtain r2 where r2: "r2 \<in> set rs" "p \<in> set (walked b r2)" "Rel r2 p = Inr k2"
    using 2 unfolding set_protoFilesUnder by blast
  have "equalsOrContainsPath r1 p" "equalsOrContainsPath r2 p"
    using wf r1 r2 unfolding wellFormedBucket_iff by blast+
  then have "r1 = r2" using one_root_contains [OF no r1(1) r2(1)] by simp
  then show ?thesis using r1(3) r2(3) by simp
qed

lemma scan_outcome:
  assumes cfg: "newConfig roots [] = Inr cfg" and wf: "wellFormedBucket b (Roots cfg)"
  shows "case GetProtoFileSetForBucket ord b roots [] of
           Inr pfs \<Rightarrow>
             pfsRoots pfs = Roots cfg
             \<and> set (pfsRootFilePathToRealFilePath pfs) = set (protoFilesUnder b (Roots cfg))
             \<and> distinct (map fst (pfsRootFilePathToRealFilePath pfs))
             \<and> distinct (map snd (pfsRootFilePathToRealFilePath pfs))
         | Inl err \<Rightarrow>
             err = ErrNoInputFilesMatchRoots \<and> protoFilesUnder b (Roots cfg) = []
             \<or> (\<exists>k p q ps. err = ErrWithinMultipleRoots k ps \<and> p \<noteq> q
                    \<and> (k, p) \<in> set (protoFilesUnder b (Roots cfg))
                    \<and> (k, q) \<in> set (protoFilesUnder b (Roots cfg)))"
proof -
  let ?P = "protoFilesUnder b (Roots cfg)"
  obtain m where m: "walkRoots b (Roots cfg) [] = Inr m" and inv: "accInv m"
    and em: "entriesOf m = set ?P"
    using wellFormed_walkRoots [OF wf] by blast
  have no: "\<not> rootsOverlap (Roots cfg)" using newConfig_Inr [OF cfg] by blast
  show ?thesis
  proof (cases "collapse ord (rangeOrder (range74 ord) m) []")
    case (Inl e)
    then obtain k ps where ps: "map_of m k = Some ps" "2 \<le> length ps" "distinct ps"
      and e: "e = ErrWithinMultipleRoots k (sort ps)"
      using collapse_fails [OF inv] by blast
    obtain p q rest where "ps = p # q # rest" using ps(2) by (cases ps; cases "tl ps") auto
    then have "p \<noteq> q" "p \<in> set ps" "q \<in> set ps" using ps(3) by auto
    then have "p \<noteq> q \<and> (k, p) \<in> set ?P \<and> (k, q) \<in> set ?P"
      using ps(1) em by (auto simp: entriesOf_def)
    moreover have "GetProtoFileSetForBucket ord b roots [] = Inl e"
      using cfg m Inl by (simp add: GetProtoFileSetForBucket_def)
    ultimately show ?thesis using e by auto
  next
    case (Inr c)
    have c: "distinct (map fst c)" "set c = set ?P"
      using collapse_result [OF inv Inr] em by simp_all
    have G: "GetProtoFileSetForBucket ord b roots [] =
        (if c = [] then Inl ErrNoInputFilesMatchRoots
         else Inr \<lparr>pfsRoots = Roots cfg, pfsRootFilePathToRealFilePath = c\<rparr>)"
      using GetProtoFileSetForBucket_stages [OF cfg m Inr] by simp
    show ?thesis
    proof (cases "c = []")
      case True
      then have "?P = []" using c(2) by simp
      then show ?thesis using G True by simp
    next
      case False
      have "inj_on snd (set c)"
      proof (rule inj_onI)
        fix x y assume x: "x \<in> set c" and y: "y \<in> set c" and s: "snd x = snd y"
        have "(fst x, snd x) \<in> set ?P" "(fst y, snd x) \<in> set ?P"
          using x y s c(2) by (metis prod.collapse)+
        then have "fst x = fst y" using protoFilesUnder_inj [OF wf no] by blast
        then show "x = y" using s by (simp add: prod_eq_iff)
      qed
      moreover have "distinct c" using c(1) by (simp add: distinct_map)
      ultimately have "distinct (map snd c)" by (simp add: distinct_map)
      then show ?thesis using G False c by simp
    qed
  qed
qed

lemma scenario_config: "newConfig [''proto''] [] = Inr \<lparr>Roots = [''proto''], Excludes = []\<rparr>"
  by code_simp

lemma scenario_wellFormed:
  "wellFormedBucket (memBucket [''proto/foo/a.proto'', ''proto/foo/b.proto'']) [''proto'']"
  by code_simp

lemma scenario_protoFilesUnder:
  "protoFilesUnder (memBucket [''proto/foo/a.proto'', ''proto/foo/b.proto'']) [''proto'']
     = [(''foo/a.proto'', ''proto/foo/a.proto''), (''foo/b.proto'', ''proto/foo/b.proto'')]"
  by code_simp

lemma scan_Inr:
  assumes "newConfig roots [] = Inr cfg" and "wellFormedBucket b (Roots cfg)"
    and "GetProtoFileSetForBucket ord b roots [] = Inr pfs"
  shows "pfsRoots pfs = Roots cfg
           \<and> set (pfsRootFilePathToRealFilePath pfs) = set (protoFilesUnder b (Roots cfg))
           \<and> distinct (map fst (pfsRootFilePathToRealFilePath pfs))
           \<and> distinct (map snd (pfsRootFilePathToRealFilePath pfs))"
  using scan_outcome [OF assms(1,2), of ord] assms(3) by simp

lemma scan_Inl:
  assumes "newConfig roots [] = Inr cfg" and "wellFormedBucket b (Roots cfg)"
    and "GetProtoFileSetForBucket ord b roots [] = Inl err"
  shows "err = ErrNoInputFilesMatchRoots \<and> protoFilesUnder b (Roots cfg) = []
           \<or> (\<exists>k p q ps. err = ErrWithinMultipleRoots k ps \<and> p \<noteq> q
                  \<and> (k, p) \<in> set (protoFilesUnder b (Roots cfg))
                  \<and> (k, q) \<in> set (protoFilesUnder b (Roots cfg)))"
  using scan_outcome [OF assms(1,2), of ord] assms(3) by simp

lemma scan_covers:
  assumes cfg: "newConfig roots [] = Inr cfg" and wf: "wellFormedBucket b (Roots cfg)"
    and G: "GetProtoFileSetForBucket ord b roots [] = Inr pfs"
    and r: "root \<in> set (Roots cfg)" and p: "p \<in> set (walked b root)" "Ext p = ''.proto''"
  shows "\<exists>k. Rel root p = Inr k \<and> map_of (pfsRootFilePathToRealFilePath pfs) k = Some p"
proof -
  have "NormalizeAndValidate p = Inr p" "equalsOrContainsPath root p"
    using wf r p(1) unfolding wellFormedBucket_iff by blast+
  then obtain k where k: "Rel root p = Inr k" using wellFormed_rootFilePathOf by blast
  then have "(k, p) \<in> set (protoFilesUnder b (Roots cfg))"
    using r p unfolding set_protoFilesUnder by blast
  then have "(k, p) \<in> set (pfsRootFilePathToRealFilePath pfs)"
    using scan_Inr [OF cfg wf G] by simp
  moreover have "distinct (map fst (pfsRootFilePathToRealFilePath pfs))"
    using scan_Inr [OF cfg wf G] by simp
  ultimately have "map_of (pfsRootFilePathToRealFilePath pfs) k = Some p" by simp
  then show ?thesis using k by blast
qed

subsection \<open>The errors of the root scan\<close>

text \<open>
  Every error the root scan can return, by the stage that returns it.
\<close>

lemma walkRoots_error_kind:
  assumes "walkRoots b roots m = Inl e"
  shows "(\<exists>a c. e = ErrNotRelative a c) \<or> (\<exists>a. e = ErrInvalidPath a) \<or> (\<exists>se. e = ErrStorage se)"
proof -
  obtain r where "(\<exists>p\<in>set (walked b r). Ext p = ''.proto'' \<and> rootFilePathOf r p = Inl e)
           \<or> (\<exists>se. walkFailure b r = Some se \<and> e = ErrStorage se)"
    using walkRoots_Inl [OF assms] by blast
  then show ?thesis using rootFilePathOf_Inl by blast
qed

lemma GetProtoFileSetForBucket_Inl:
  assumes "GetProtoFileSetForBucket ord b roots excludes = Inl e"
  shows "e = ErrEmptyValue \<or> (\<exists>p. e = ErrInvalidPath p) \<or> e = ErrNoRoots
           \<or> (\<exists>rs. e = ErrOverlappingRoots rs)
           \<or> (\<exists>a c. e = ErrNotRelative a c) \<or> (\<exists>se. e = ErrStorage se)
           \<or> (\<exists>k ps. e = ErrWithinMultipleRoots k ps)
           \<or> e = ErrNoInputFilesMatchRoots \<and> excludes = []
           \<or> e = ErrNoInputFilesMatchRootsAndExcludes \<and> excludes \<noteq> []"
proof (cases "newConfig roots excludes")
  case (Inl e')
  then have "e' = e" using assms by (simp add: GetProtoFileSetForBucket_def)
  then show ?thesis using newConfig_Inl [OF Inl] by blast
next
  case (Inr cfg)
  note cfg = this
  show ?thesis
  proof (cases "walkRoots b (Roots cfg) []")
    case (Inl e')
    then have "e' = e" using assms cfg by (simp add: GetProtoFileSetForBucket_def)
    then show ?thesis using walkRoots_error_kind [OF Inl] by blast
  next
    case (Inr m)
    note m = this
    have inv: "accInv m" using walkRoots_Inr [OF m accInv_Nil] by simp
    show ?thesis
    proof (cases "collapse ord (rangeOrder (range74 ord) m) []")
      case (Inl e')
      then have "e' = e" using assms cfg m by (simp add: GetProtoFileSetForBucket_def)
      then show ?thesis using collapse_fails [OF inv Inl] by blast
    next
      case (Inr c)
      show ?thesis
        using assms unfolding GetProtoFileSetForBucket_stages [OF cfg m Inr]
        by (auto split: if_splits)
    qed
  qed
qed


lemma GetProtoFileSetForBucket_nonempty:
  assumes "GetProtoFileSetForBucket ord b roots excludes = Inr pfs"
  shows "pfsRootFilePathToRealFilePath pfs \<noteq> [] \<and> distinct (map fst (pfsRootFilePathToRealFilePath pfs))"
proof -
  obtain cfg m c where cfg: "newConfig roots excludes = Inr cfg"
    and m: "walkRoots b (Roots cfg) [] = Inr m"
    and c: "collapse ord (rangeOrder (range74 ord) m) [] = Inr c"
    using GetProtoFileSetForBucket_Inr [OF assms] by blast
  have inv: "accInv m" using walkRoots_Inr [OF m accInv_Nil] by simp
  have d: "distinct (map fst c)" using collapse_result [OF inv c] by simp
  then have "distinct (map fst (rangeOrder (range100 ord) c))" by (simp add: distinct_map_rangeOrder)
  then have "distinct (map fst (filter (\<lambda>(k, v). \<not> MapContainsMatch (SliceToMap (Excludes cfg)) (Dir v))
                 (rangeOrder (range100 ord) c)))"
    by (rule distinct_map_filter)
  then show ?thesis
    using assms d unfolding GetProtoFileSetForBucket_stages [OF cfg m c]
    by (auto split: if_splits)
qed

lemma scenario_excluded_walk:
  "walkRoots (memBucket [''proto/foo/a.proto'', ''proto/foo/b.proto''])
      (Roots \<lparr>Roots = [''proto''], Excludes = [''proto/foo'']\<rparr>) []
     = Inr [(''foo/a.proto'', [''proto/foo/a.proto'']), (''foo/b.proto'', [''proto/foo/b.proto''])]"
  by code_simp

lemma scenario_excluded_config:
  "newConfig [''proto''] [''proto/foo''] = Inr \<lparr>Roots = [''proto''], Excludes = [''proto/foo'']\<rparr>"
  by code_simp

lemma scenario_excluded_dirs:
  "MapContainsMatch (SliceToMap (Excludes \<lparr>Roots = [''proto''], Excludes = [''proto/foo'']\<rparr>))
     (Dir ''proto/foo/a.proto'')"
  "MapContainsMatch (SliceToMap (Excludes \<lparr>Roots = [''proto''], Excludes = [''proto/foo'']\<rparr>))
     (Dir ''proto/foo/b.proto'')"
  by code_simp+


subsection \<open>The check of the explicit paths\<close>

text \<open>
  The loop of lines 131 to 150, one entry at a time: what it has recorded and which
  calls of \<open>Stat\<close> it has made when it succeeds, and that its result does not depend on
  the calls made before.
\<close>

lemma checkRealFilePaths_Cons:
  assumes "NormalizeAndValidate p = Inr n"
  shows "checkRealFilePaths b allow (p # rest) seen calls =
     (if n \<in> set seen then (calls, Inl (ErrDuplicateNormalizedFilePath n))
      else case Stat b n of
             None \<Rightarrow> checkRealFilePaths b allow rest (seen @ [n]) (calls @ [n])
           | Some err \<Rightarrow>
               if IsNotExist err \<and> allow then checkRealFilePaths b allow rest seen (calls @ [n])
               else (calls @ [n], Inl (ErrStorage err)))"
  using assms by (simp split: option.splits)

lemma checkRealFilePaths_Cons_invalid:
  assumes "NormalizeAndValidate p = Inl e"
  shows "checkRealFilePaths b allow (p # rest) seen calls = (calls, Inl e)"
  using assms by simp

lemma checkRealFilePaths_append:
  "checkRealFilePaths b allow (xs @ ys) seen calls =
     (case checkRealFilePaths b allow xs seen calls of
        (c, Inl e) \<Rightarrow> (c, Inl e)
      | (c, Inr s) \<Rightarrow> checkRealFilePaths b allow ys s c)"
proof (induction xs arbitrary: seen calls allow)
  case Nil
  then show ?case by simp
next
  case (Cons p xs)
  show ?case
  proof (cases "NormalizeAndValidate p")
    case (Inl e)
    then show ?thesis by (simp add: checkRealFilePaths_Cons_invalid)
  next
    case (Inr n)
    show ?thesis
      unfolding append_Cons checkRealFilePaths_Cons [OF Inr]
      by (simp add: Cons.IH split: option.splits)
  qed
qed

lemma checkRealFilePaths_result_calls:
  "snd (checkRealFilePaths b allow ps seen calls) = snd (checkRealFilePaths b allow ps seen calls')"
proof (induction ps arbitrary: seen calls calls' allow)
  case Nil
  then show ?case by simp
next
  case (Cons p ps)
  show ?case
  proof (cases "NormalizeAndValidate p")
    case (Inl e)
    then show ?thesis by (simp add: checkRealFilePaths_Cons_invalid)
  next
    case (Inr n)
    show ?thesis
      unfolding checkRealFilePaths_Cons [OF Inr]
      using Cons.IH [of _ seen "calls @ [n]" "calls' @ [n]"]
        Cons.IH [of _ "seen @ [n]" "calls @ [n]" "calls' @ [n]"]
      by (simp split: option.splits)
  qed
qed

lemma checkRealFilePaths_Inr_step:
  assumes "checkRealFilePaths b allow (p # ps) seen calls = (c, Inr s)"
  shows "\<exists>n. NormalizeAndValidate p = Inr n \<and> n \<notin> set seen
           \<and> (Stat b n = None \<and> checkRealFilePaths b allow ps (seen @ [n]) (calls @ [n]) = (c, Inr s)
              \<or> (\<exists>e. Stat b n = Some e \<and> IsNotExist e \<and> allow)
                 \<and> checkRealFilePaths b allow ps seen (calls @ [n]) = (c, Inr s))"
proof (cases "NormalizeAndValidate p")
  case (Inl e)
  then show ?thesis using assms by (simp add: checkRealFilePaths_Cons_invalid)
next
  case (Inr n)
  have fresh: "n \<notin> set seen"
    using assms unfolding checkRealFilePaths_Cons [OF Inr] by (auto split: if_splits)
  show ?thesis
  proof (cases "Stat b n")
    case None
    then have "checkRealFilePaths b allow ps (seen @ [n]) (calls @ [n]) = (c, Inr s)"
      using assms fresh unfolding checkRealFilePaths_Cons [OF Inr] by simp
    then show ?thesis using Inr fresh None by blast
  next
    case (Some err)
    then have "IsNotExist err \<and> allow"
      and "checkRealFilePaths b allow ps seen (calls @ [n]) = (c, Inr s)"
      using assms fresh unfolding checkRealFilePaths_Cons [OF Inr]
      by (auto split: if_splits)
    then show ?thesis using Inr fresh Some by blast
  qed
qed

lemma checkRealFilePaths_Inr_distinct:
  "checkRealFilePaths b allow ps seen calls = (c, Inr s) \<Longrightarrow>
     distinct seen \<Longrightarrow> \<forall>n\<in>set seen. Stat b n = None \<Longrightarrow>
     distinct s \<and> (\<forall>n\<in>set s. Stat b n = None)"
proof (induction ps arbitrary: seen calls)
  case Nil
  then show ?case by simp
next
  case (Cons p ps)
  obtain n where n: "NormalizeAndValidate p = Inr n" "n \<notin> set seen"
    and alt: "Stat b n = None \<and> checkRealFilePaths b allow ps (seen @ [n]) (calls @ [n]) = (c, Inr s)
              \<or> (\<exists>e. Stat b n = Some e \<and> IsNotExist e \<and> allow)
                 \<and> checkRealFilePaths b allow ps seen (calls @ [n]) = (c, Inr s)"
    using checkRealFilePaths_Inr_step [OF Cons.prems(1)] by blast
  from alt show ?case
  proof
    assume a: "Stat b n = None \<and> checkRealFilePaths b allow ps (seen @ [n]) (calls @ [n]) = (c, Inr s)"
    have d: "distinct (seen @ [n])" using Cons.prems(2) n(2) by simp
    have st: "\<forall>x\<in>set (seen @ [n]). Stat b x = None" using Cons.prems(3) a by simp
    show ?thesis using Cons.IH [OF conjunct2 [OF a] d st] .
  next
    assume a: "(\<exists>e. Stat b n = Some e \<and> IsNotExist e \<and> allow)
                 \<and> checkRealFilePaths b allow ps seen (calls @ [n]) = (c, Inr s)"
    show ?thesis using Cons.IH [OF conjunct2 [OF a] Cons.prems(2,3)] .
  qed
qed

lemma checkRealFilePaths_Inr_calls:
  "checkRealFilePaths b allow ps seen calls = (c, Inr s) \<Longrightarrow>
     map Inr c = map Inr calls @ map NormalizeAndValidate ps"
proof (induction ps arbitrary: seen calls)
  case Nil
  then show ?case by simp
next
  case (Cons p ps)
  obtain n where n: "NormalizeAndValidate p = Inr n"
    and alt: "Stat b n = None \<and> checkRealFilePaths b allow ps (seen @ [n]) (calls @ [n]) = (c, Inr s)
              \<or> (\<exists>e. Stat b n = Some e \<and> IsNotExist e \<and> allow)
                 \<and> checkRealFilePaths b allow ps seen (calls @ [n]) = (c, Inr s)"
    using checkRealFilePaths_Inr_step [OF Cons.prems(1)] by blast
  have "map Inr c = map Inr (calls @ [n]) @ map NormalizeAndValidate ps"
    using alt Cons.IH [of "seen @ [n]" "calls @ [n]"] Cons.IH [of seen "calls @ [n]"] by blast
  then show ?case using n by simp
qed

lemma checkRealFilePaths_Inr_stat:
  "checkRealFilePaths b allow ps seen calls = (c, Inr s) \<Longrightarrow> p \<in> set ps \<Longrightarrow>
     \<exists>n. NormalizeAndValidate p = Inr n
        \<and> (Stat b n = None \<or> (\<exists>e. Stat b n = Some e \<and> IsNotExist e \<and> allow))"
proof (induction ps arbitrary: seen calls)
  case Nil
  then show ?case by simp
next
  case (Cons q ps)
  obtain n where n: "NormalizeAndValidate q = Inr n"
    and alt: "Stat b n = None \<and> checkRealFilePaths b allow ps (seen @ [n]) (calls @ [n]) = (c, Inr s)
              \<or> (\<exists>e. Stat b n = Some e \<and> IsNotExist e \<and> allow)
                 \<and> checkRealFilePaths b allow ps seen (calls @ [n]) = (c, Inr s)"
    using checkRealFilePaths_Inr_step [OF Cons.prems(1)] by blast
  show ?case
  proof (cases "p = q")
    case True
    then show ?thesis using n alt by blast
  next
    case False
    then have "p \<in> set ps" using Cons.prems(2) by simp
    then show ?thesis
      using alt Cons.IH [of "seen @ [n]" "calls @ [n]"] Cons.IH [of seen "calls @ [n]"] by blast
  qed
qed

lemma checkRealFilePaths_duplicate:
  "snd (checkRealFilePaths b allow ps seen calls) = Inl (ErrDuplicateNormalizedFilePath n) \<Longrightarrow>
     \<forall>x\<in>set seen. Stat b x = None \<Longrightarrow> Stat b n = None"
proof (induction ps arbitrary: seen calls)
  case Nil
  then show ?case by simp
next
  case (Cons p ps)
  show ?case
  proof (cases "NormalizeAndValidate p")
    case (Inl e)
    then have "e = ErrDuplicateNormalizedFilePath n"
      using Cons.prems(1) by (simp add: checkRealFilePaths_Cons_invalid)
    then show ?thesis using Inl by (auto simp: NormalizeAndValidate_def split: if_splits option.splits)
  next
    case (Inr x)
    note x = this
    show ?thesis
    proof (cases "x \<in> set seen")
      case True
      then have "x = n" using Cons.prems(1) unfolding checkRealFilePaths_Cons [OF x] by simp
      then show ?thesis using True Cons.prems(2) by simp
    next
      case False
      note fresh = this
      show ?thesis
      proof (cases "Stat b x")
        case None
        then have rec: "snd (checkRealFilePaths b allow ps (seen @ [x]) (calls @ [x]))
            = Inl (ErrDuplicateNormalizedFilePath n)"
          using Cons.prems(1) fresh unfolding checkRealFilePaths_Cons [OF x] by simp
        have "\<forall>y\<in>set (seen @ [x]). Stat b y = None" using Cons.prems(2) None by simp
        then show ?thesis using Cons.IH [OF rec] by blast
      next
        case (Some err)
        then have rec: "snd (checkRealFilePaths b allow ps seen (calls @ [x]))
            = Inl (ErrDuplicateNormalizedFilePath n)"
          using Cons.prems(1) fresh unfolding checkRealFilePaths_Cons [OF x]
          by (auto split: if_splits)
        then show ?thesis using Cons.IH [OF rec Cons.prems(2)] by blast
      qed
    qed
  qed
qed

subsection \<open>The resolution of the explicit paths\<close>

text \<open>
  The loop of lines 154 to 184, one path at a time: when it succeeds it has paired
  every path with its logical path, and when it fails the error is the one of a path
  whose logical path cannot be computed, or the collision of a path with a path
  visited before it.
\<close>

lemma resolveRealFilePaths_Cons:
  "resolveRealFilePaths ord rootMap roots (p # rest) out =
     (case rootFilePathIn ord rootMap roots p of
        Inl e \<Rightarrow> Inl e
      | Inr k \<Rightarrow>
          (case map_of out k of
             Some q \<Rightarrow> Inl (ErrWithinAnotherRoot p k q)
           | None \<Rightarrow> resolveRealFilePaths ord rootMap roots rest (AList.update k p out)))"
  by (simp add: rootFilePathIn_def rootFilePathOf_def Let_def split: sum.splits option.splits)

lemma rootFilePathIn_Inl:
  assumes "rootFilePathIn ord rootMap roots p = Inl e"
  shows "e = ErrNotWithinAnyRoot p roots \<or> (\<exists>rs. e = ErrWithinMultipleRoots p rs)
           \<or> (\<exists>a c. e = ErrNotRelative a c) \<or> (\<exists>a. e = ErrInvalidPath a)"
proof -
  let ?mr = "rangeOrder (range157 ord p) (MapMatches rootMap p)"
  consider (none) "length ?mr = 0" | (one) "length ?mr = 1" | (many) "length ?mr \<noteq> 0" "length ?mr \<noteq> 1"
    by blast
  then show ?thesis
  proof cases
    case none
    then show ?thesis using assms by (simp add: rootFilePathIn_def Let_def)
  next
    case one
    moreover from one have "?mr \<noteq> []" by auto
    ultimately have "rootFilePathOf (?mr ! 0) p = Inl e"
      using assms by (simp add: rootFilePathIn_def Let_def)
    then show ?thesis using rootFilePathOf_Inl by blast
  next
    case many
    then show ?thesis using assms by (auto simp: rootFilePathIn_def Let_def)
  qed
qed

lemma resolveRealFilePaths_Inr:
  "resolveRealFilePaths ord rootMap roots ps out = Inr out' \<Longrightarrow> distinct (map fst out) \<Longrightarrow>
     \<exists>ks. map (rootFilePathIn ord rootMap roots) ps = map Inr ks
          \<and> out' = out @ zip ks ps \<and> distinct (map fst out')"
proof (induction ps arbitrary: out)
  case Nil
  then show ?case by simp
next
  case (Cons p rest)
  obtain k where k: "rootFilePathIn ord rootMap roots p = Inr k"
    using Cons.prems(1) unfolding resolveRealFilePaths_Cons
    by (cases "rootFilePathIn ord rootMap roots p") simp_all
  have free: "map_of out k = None"
    using Cons.prems(1) unfolding resolveRealFilePaths_Cons k
    by (cases "map_of out k") simp_all
  then have rec: "resolveRealFilePaths ord rootMap roots rest (AList.update k p out) = Inr out'"
    using Cons.prems(1) unfolding resolveRealFilePaths_Cons k by simp
  have "k \<notin> fst ` set out" using free by (simp add: map_of_eq_None_iff)
  then have upd: "AList.update k p out = out @ [(k, p)]" by (rule update_fresh)
  have d: "distinct (map fst (AList.update k p out))"
    using Cons.prems(2) by (rule distinct_update)
  obtain ks where ks: "map (rootFilePathIn ord rootMap roots) rest = map Inr ks"
    and out': "out' = AList.update k p out @ zip ks rest" and dd: "distinct (map fst out')"
    using Cons.IH [OF rec d] by blast
  have "map (rootFilePathIn ord rootMap roots) (p # rest) = map Inr (k # ks)"
    using k ks by simp
  moreover have "out' = out @ zip (k # ks) (p # rest)" using out' upd by simp
  ultimately show ?case using dd by blast
qed

lemma resolveRealFilePaths_Inl:
  "resolveRealFilePaths ord rootMap roots ps out = Inl e \<Longrightarrow>
     (\<exists>p\<in>set ps. rootFilePathIn ord rootMap roots p = Inl e)
     \<or> (\<exists>pre p post k q. ps = pre @ p # post \<and> e = ErrWithinAnotherRoot p k q
           \<and> rootFilePathIn ord rootMap roots p = Inr k
           \<and> (map_of out k = Some q \<or> q \<in> set pre \<and> rootFilePathIn ord rootMap roots q = Inr k))"
proof (induction ps arbitrary: out)
  case Nil
  then show ?case by simp
next
  case (Cons p rest)
  show ?case
  proof (cases "rootFilePathIn ord rootMap roots p")
    case (Inl e')
    then have "e' = e" using Cons.prems unfolding resolveRealFilePaths_Cons by simp
    then show ?thesis using Inl by simp
  next
    case (Inr k)
    note k = this
    show ?thesis
    proof (cases "map_of out k")
      case (Some q)
      then have "e = ErrWithinAnotherRoot p k q"
        using Cons.prems unfolding resolveRealFilePaths_Cons k by simp
      then have "p # rest = [] @ p # rest \<and> e = ErrWithinAnotherRoot p k q
           \<and> rootFilePathIn ord rootMap roots p = Inr k \<and> map_of out k = Some q"
        using k Some by simp
      then show ?thesis by blast
    next
      case None
      then have rec: "resolveRealFilePaths ord rootMap roots rest (AList.update k p out) = Inl e"
        using Cons.prems unfolding resolveRealFilePaths_Cons k by simp
      from Cons.IH [OF rec] show ?thesis
      proof
        assume "\<exists>p\<in>set rest. rootFilePathIn ord rootMap roots p = Inl e"
        then show ?thesis by auto
      next
        assume "\<exists>pre p' post k' q. rest = pre @ p' # post \<and> e = ErrWithinAnotherRoot p' k' q
           \<and> rootFilePathIn ord rootMap roots p' = Inr k'
           \<and> (map_of (AList.update k p out) k' = Some q
               \<or> q \<in> set pre \<and> rootFilePathIn ord rootMap roots q = Inr k')"
        then obtain pre p' post k' q where r: "rest = pre @ p' # post"
          and e: "e = ErrWithinAnotherRoot p' k' q"
          and k': "rootFilePathIn ord rootMap roots p' = Inr k'"
          and alt: "map_of (AList.update k p out) k' = Some q
               \<or> q \<in> set pre \<and> rootFilePathIn ord rootMap roots q = Inr k'"
          by blast
        have "map_of out k' = Some q \<or> q \<in> set (p # pre) \<and> rootFilePathIn ord rootMap roots q = Inr k'"
        proof (cases "k' = k")
          case True
          then show ?thesis using alt k by (auto simp: update_conv')
        next
          case False
          then show ?thesis using alt by (auto simp: update_conv')
        qed
        moreover have "p # rest = (p # pre) @ p' # post" using r by simp
        ultimately show ?thesis using e k' by blast
      qed
    qed
  qed
qed

subsection \<open>The stages of the explicit mode\<close>

text \<open>
  The explicit mode in terms of its stages: configuration, check, resolution.
\<close>

lemma run_stages:
  assumes "newConfig roots [] = Inr cfg"
    and "checkRealFilePaths b allow paths [] [] = (calls, r)"
  shows "runGetProtoFileSetForRealFilePaths ord b roots paths allow =
     (calls,
      case r of
        Inl e \<Rightarrow> Inl e
      | Inr S \<Rightarrow>
          (case resolveRealFilePaths ord (SliceToMap (Roots cfg)) (Roots cfg)
                  (rangeOrder (range154 ord) S) [] of
             Inl e \<Rightarrow> Inl e
           | Inr out \<Rightarrow>
               if out = [] then Inl ErrNoInputFilesSpecified
               else Inr \<lparr>pfsRoots = Roots cfg, pfsRootFilePathToRealFilePath = out\<rparr>))"
  using assms
  by (cases r) (simp_all add: runGetProtoFileSetForRealFilePaths_def newProtoFileSet_def
      split: sum.splits)

lemma explicit_Inr:
  assumes "GetProtoFileSetForRealFilePaths ord b roots paths allow = Inr pfs"
  shows "\<exists>cfg calls S. newConfig roots [] = Inr cfg
           \<and> checkRealFilePaths b allow paths [] [] = (calls, Inr S)
           \<and> resolveRealFilePaths ord (SliceToMap (Roots cfg)) (Roots cfg)
                  (rangeOrder (range154 ord) S) [] = Inr (pfsRootFilePathToRealFilePath pfs)
           \<and> pfsRootFilePathToRealFilePath pfs \<noteq> [] \<and> pfsRoots pfs = Roots cfg"
proof (cases "newConfig roots []")
  case (Inl e)
  then show ?thesis using assms
    by (simp add: GetProtoFileSetForRealFilePaths_def runGetProtoFileSetForRealFilePaths_def)
next
  case (Inr cfg)
  obtain calls r where c: "checkRealFilePaths b allow paths [] [] = (calls, r)"
    by (cases "checkRealFilePaths b allow paths [] []")
  show ?thesis
  proof (cases r)
    case (Inl e)
    then show ?thesis
      using assms unfolding GetProtoFileSetForRealFilePaths_def run_stages [OF Inr c] by simp
  next
    case (Inr S)
    note S = this
    show ?thesis
    proof (cases "resolveRealFilePaths ord (SliceToMap (Roots cfg)) (Roots cfg)
                  (rangeOrder (range154 ord) S) []")
      case (Inl e)
      then show ?thesis
        using assms S unfolding GetProtoFileSetForRealFilePaths_def run_stages [OF \<open>newConfig roots [] = Inr cfg\<close> c]
        by simp
    next
      case (Inr out)
      then have "out \<noteq> [] \<and> pfs = \<lparr>pfsRoots = Roots cfg, pfsRootFilePathToRealFilePath = out\<rparr>"
        using assms S unfolding GetProtoFileSetForRealFilePaths_def run_stages [OF \<open>newConfig roots [] = Inr cfg\<close> c]
        by (auto split: if_splits)
      then show ?thesis using \<open>newConfig roots [] = Inr cfg\<close> c S Inr by auto
    qed
  qed
qed

lemma explicit_Inl:
  assumes "GetProtoFileSetForRealFilePaths ord b roots paths allow = Inl e"
  shows "(\<exists>e'. newConfig roots [] = Inl e' \<and> e = e')
     \<or> (\<exists>cfg. newConfig roots [] = Inr cfg
          \<and> (snd (checkRealFilePaths b allow paths [] []) = Inl e
              \<or> (\<exists>S. snd (checkRealFilePaths b allow paths [] []) = Inr S
                   \<and> (resolveRealFilePaths ord (SliceToMap (Roots cfg)) (Roots cfg)
                         (rangeOrder (range154 ord) S) [] = Inl e
                       \<or> resolveRealFilePaths ord (SliceToMap (Roots cfg)) (Roots cfg)
                         (rangeOrder (range154 ord) S) [] = Inr [] \<and> e = ErrNoInputFilesSpecified))))"
proof (cases "newConfig roots []")
  case (Inl e')
  then show ?thesis using assms
    by (simp add: GetProtoFileSetForRealFilePaths_def runGetProtoFileSetForRealFilePaths_def)
next
  case (Inr cfg)
  note cfg = this
  obtain calls r where c: "checkRealFilePaths b allow paths [] [] = (calls, r)"
    by (cases "checkRealFilePaths b allow paths [] []")
  show ?thesis
  proof (cases r)
    case (Inl e')
    then show ?thesis
      using assms cfg c unfolding GetProtoFileSetForRealFilePaths_def run_stages [OF cfg c] by simp
  next
    case (Inr S)
    note S = this
    show ?thesis
    proof (cases "resolveRealFilePaths ord (SliceToMap (Roots cfg)) (Roots cfg)
                  (rangeOrder (range154 ord) S) []")
      case (Inl e')
      then show ?thesis
        using assms S cfg c unfolding GetProtoFileSetForRealFilePaths_def run_stages [OF cfg c]
        by simp
    next
      case (Inr out)
      then show ?thesis
        using assms S cfg c unfolding GetProtoFileSetForRealFilePaths_def run_stages [OF cfg c]
        by (auto split: if_splits)
    qed
  qed
qed

lemma checkRealFilePaths_Inl_kind:
  "snd (checkRealFilePaths b allow ps seen calls) = Inl e \<Longrightarrow>
     (\<exists>a. e = ErrInvalidPath a) \<or> (\<exists>n. e = ErrDuplicateNormalizedFilePath n) \<or> (\<exists>se. e = ErrStorage se)"
proof (induction ps arbitrary: seen calls)
  case Nil
  then show ?case by simp
next
  case (Cons p ps)
  show ?case
  proof (cases "NormalizeAndValidate p")
    case (Inl e')
    then have "e = e'" using Cons.prems by (simp add: checkRealFilePaths_Cons_invalid)
    then show ?thesis using Inl by (auto simp: NormalizeAndValidate_def split: if_splits option.splits)
  next
    case (Inr n)
    show ?thesis
      using Cons.prems Cons.IH [of seen "calls @ [n]"] Cons.IH [of "seen @ [n]" "calls @ [n]"]
      unfolding checkRealFilePaths_Cons [OF Inr]
      by (auto split: if_splits option.splits)
  qed
qed

lemma checkRealFilePaths_Inr_member:
  "checkRealFilePaths b allow ps seen calls = (c, Inr s) \<Longrightarrow>
     set seen \<subseteq> set s
     \<and> (\<forall>p\<in>set ps. \<forall>n. NormalizeAndValidate p = Inr n \<longrightarrow> Stat b n = None \<longrightarrow> n \<in> set s)"
proof (induction ps arbitrary: seen calls)
  case Nil
  then show ?case by simp
next
  case (Cons q ps)
  obtain n where n: "NormalizeAndValidate q = Inr n"
    and alt: "Stat b n = None \<and> checkRealFilePaths b allow ps (seen @ [n]) (calls @ [n]) = (c, Inr s)
              \<or> (\<exists>e. Stat b n = Some e \<and> IsNotExist e \<and> allow)
                 \<and> checkRealFilePaths b allow ps seen (calls @ [n]) = (c, Inr s)"
    using checkRealFilePaths_Inr_step [OF Cons.prems(1)] by blast
  from alt show ?case
  proof
    assume a: "Stat b n = None \<and> checkRealFilePaths b allow ps (seen @ [n]) (calls @ [n]) = (c, Inr s)"
    have "set (seen @ [n]) \<subseteq> set s
     \<and> (\<forall>p\<in>set ps. \<forall>n. NormalizeAndValidate p = Inr n \<longrightarrow> Stat b n = None \<longrightarrow> n \<in> set s)"
      using Cons.IH [OF conjunct2 [OF a]] .
    then show ?thesis using n by auto
  next
    assume a: "(\<exists>e. Stat b n = Some e \<and> IsNotExist e \<and> allow)
                 \<and> checkRealFilePaths b allow ps seen (calls @ [n]) = (c, Inr s)"
    have "set seen \<subseteq> set s
     \<and> (\<forall>p\<in>set ps. \<forall>n. NormalizeAndValidate p = Inr n \<longrightarrow> Stat b n = None \<longrightarrow> n \<in> set s)"
      using Cons.IH [OF conjunct2 [OF a]] .
    then show ?thesis using n a by auto
  qed
qed

subsection \<open>Missing files and failures of the bucket in the explicit mode\<close>

text \<open>
  The result of the explicit mode depends on the explicit paths through the result of
  the check only; an entry that does not exist leaves no trace in it when missing
  files are tolerated.
\<close>

lemma explicit_result_of_check:
  assumes "snd (checkRealFilePaths b allow paths [] []) = snd (checkRealFilePaths b allow paths' [] [])"
  shows "GetProtoFileSetForRealFilePaths ord b roots paths allow
           = GetProtoFileSetForRealFilePaths ord b roots paths' allow"
proof (cases "newConfig roots []")
  case (Inl e)
  then show ?thesis
    by (simp add: GetProtoFileSetForRealFilePaths_def runGetProtoFileSetForRealFilePaths_def)
next
  case (Inr cfg)
  obtain c r where c: "checkRealFilePaths b allow paths [] [] = (c, r)"
    by (cases "checkRealFilePaths b allow paths [] []")
  obtain c' r' where c': "checkRealFilePaths b allow paths' [] [] = (c', r')"
    by (cases "checkRealFilePaths b allow paths' [] []")
  have "r = r'" using assms c c' by simp
  then show ?thesis
    unfolding GetProtoFileSetForRealFilePaths_def run_stages [OF Inr c] run_stages [OF Inr c']
    by simp
qed

lemma checkRealFilePaths_drop_missing:
  assumes n: "NormalizeAndValidate p = Inr n" and e: "Stat b n = Some e" "IsNotExist e"
  shows "snd (checkRealFilePaths b True (pre @ p # post) [] [])
           = snd (checkRealFilePaths b True (pre @ post) [] [])"
proof -
  obtain c r where c: "checkRealFilePaths b True pre [] [] = (c, r)"
    by (cases "checkRealFilePaths b True pre [] []")
  show ?thesis
  proof (cases r)
    case (Inl err)
    then show ?thesis unfolding checkRealFilePaths_append c by simp
  next
    case (Inr s)
    have "\<forall>x\<in>set s. Stat b x = None"
      using checkRealFilePaths_Inr_distinct [OF c [unfolded Inr]] by simp
    then have fresh: "n \<notin> set s" using e(1) by auto
    have "checkRealFilePaths b True (p # post) s c = checkRealFilePaths b True post s (c @ [n])"
      unfolding checkRealFilePaths_Cons [OF n] using fresh e by simp
    then have "snd (checkRealFilePaths b True (p # post) s c) = snd (checkRealFilePaths b True post s c)"
      using checkRealFilePaths_result_calls [of b True post s "c @ [n]" c] by simp
    then show ?thesis unfolding checkRealFilePaths_append c Inr by simp
  qed
qed

lemma explicit_duplicate_existed:
  assumes "GetProtoFileSetForRealFilePaths ord b roots paths allow = Inl (ErrDuplicateNormalizedFilePath n)"
  shows "Stat b n = None"
proof -
  let ?e = "ErrDuplicateNormalizedFilePath n"
  have "newConfig roots [] = Inl ?e
      \<or> snd (checkRealFilePaths b allow paths [] []) = Inl ?e
      \<or> (\<exists>(cfg :: config) S. resolveRealFilePaths ord (SliceToMap (Roots cfg)) (Roots cfg)
                         (rangeOrder (range154 ord) S) [] = Inl ?e)"
    using explicit_Inl [OF assms] by auto
  then show ?thesis
  proof (elim disjE exE)
    assume "newConfig roots [] = Inl ?e"
    then show ?thesis using newConfig_Inl by fastforce
  next
    assume "snd (checkRealFilePaths b allow paths [] []) = Inl ?e"
    then show ?thesis using checkRealFilePaths_duplicate [of b allow paths "[]" "[]" n] by simp
  next
    fix cfg :: config and S
    assume "resolveRealFilePaths ord (SliceToMap (Roots cfg)) (Roots cfg)
                         (rangeOrder (range154 ord) S) [] = Inl ?e"
    from resolveRealFilePaths_Inl [OF this]
    have "\<exists>p. rootFilePathIn ord (SliceToMap (Roots cfg)) (Roots cfg) p = Inl ?e"
      by auto
    then show ?thesis using rootFilePathIn_Inl by fastforce
  qed
qed


lemma rootFilePathIn_single:
  assumes "MapMatches rootMap p = [r]"
  shows "rootFilePathIn ord rootMap roots p = rootFilePathOf r p"
  using assms by (simp add: rootFilePathIn_def rangeOrder_single)

lemma explicit_stat_failure:
  assumes "p \<in> set paths" and "NormalizeAndValidate p = Inr n"
    and "Stat b n = Some e" and "\<not> IsNotExist e"
  shows "\<exists>err. GetProtoFileSetForRealFilePaths ord b roots paths allow = Inl err"
proof (cases "GetProtoFileSetForRealFilePaths ord b roots paths allow")
  case (Inl err)
  then show ?thesis by blast
next
  case (Inr pfs)
  then obtain calls S where "checkRealFilePaths b allow paths [] [] = (calls, Inr S)"
    using explicit_Inr by blast
  then have "\<exists>n. NormalizeAndValidate p = Inr n
        \<and> (Stat b n = None \<or> (\<exists>e. Stat b n = Some e \<and> IsNotExist e \<and> allow))"
    using assms(1) by (rule checkRealFilePaths_Inr_stat)
  then show ?thesis using assms(2,3,4) by auto
qed

lemma explicit_tolerance:
  assumes cfg: "newConfig roots [] = Inr cfg"
    and a: "NormalizeAndValidate a = Inr na" "Stat b na = None"
    and r: "MapMatches (SliceToMap (Roots cfg)) na = [r]" "rootFilePathOf r na = Inr k"
    and m: "NormalizeAndValidate mb = Inr nb" "Stat b nb = Some e" "IsNotExist e"
  shows "GetProtoFileSetForRealFilePaths ord b roots [a, mb] True
           = Inr \<lparr>pfsRoots = Roots cfg, pfsRootFilePathToRealFilePath = [(k, na)]\<rparr>"
    and "GetProtoFileSetForRealFilePaths ord b roots [a, mb] False = Inl (ErrStorage e)"
proof -
  have ne: "nb \<noteq> na" using a(2) m(2) by auto
  have c1: "checkRealFilePaths b True [a, mb] [] [] = ([na, nb], Inr [na])"
    unfolding checkRealFilePaths_Cons [OF a(1)] using a(2) ne m
    by (simp add: checkRealFilePaths_Cons [OF m(1)])
  have c0: "checkRealFilePaths b False [a, mb] [] [] = ([na, nb], Inl (ErrStorage e))"
    unfolding checkRealFilePaths_Cons [OF a(1)] using a(2) ne m
    by (simp add: checkRealFilePaths_Cons [OF m(1)])
  have "resolveRealFilePaths ord (SliceToMap (Roots cfg)) (Roots cfg)
          (rangeOrder (range154 ord) [na]) [] = Inr [(k, na)]"
    unfolding rangeOrder_single resolveRealFilePaths_Cons rootFilePathIn_single [OF r(1)] r(2)
    by simp
  then show "GetProtoFileSetForRealFilePaths ord b roots [a, mb] True
           = Inr \<lparr>pfsRoots = Roots cfg, pfsRootFilePathToRealFilePath = [(k, na)]\<rparr>"
    unfolding GetProtoFileSetForRealFilePaths_def run_stages [OF cfg c1] by simp
  show "GetProtoFileSetForRealFilePaths ord b roots [a, mb] False = Inl (ErrStorage e)"
    unfolding GetProtoFileSetForRealFilePaths_def run_stages [OF cfg c0] by simp
qed


subsection \<open>Collisions and empty results\<close>

text \<open>
  A successful resolution pairs different paths with different logical paths; the
  collision error of the explicit mode comes from two different surviving paths with
  the same logical path.
\<close>

lemma resolveRealFilePaths_result:
  assumes "resolveRealFilePaths ord rootMap roots ps [] = Inr out"
  shows "distinct (map fst out)"
    and "length out = length ps"
    and "set out = {(k, p). p \<in> set ps \<and> rootFilePathIn ord rootMap roots p = Inr k}"
    and "\<And>p q k. p \<in> set ps \<Longrightarrow> q \<in> set ps \<Longrightarrow> rootFilePathIn ord rootMap roots p = Inr k
          \<Longrightarrow> rootFilePathIn ord rootMap roots q = Inr k \<Longrightarrow> p = q"
proof -
  obtain ks where ks: "map (rootFilePathIn ord rootMap roots) ps = map Inr ks"
    and out: "out = zip ks ps" and d: "distinct (map fst out)"
    using resolveRealFilePaths_Inr [OF assms] by auto
  have len: "length ks = length ps" using ks by (metis length_map)
  have nth: "\<And>i. i < length ps \<Longrightarrow> rootFilePathIn ord rootMap roots (ps ! i) = Inr (ks ! i)"
    using ks len by (metis nth_map)
  have dk: "distinct ks" using d out len by simp
  show "distinct (map fst out)" by (rule d)
  show "length out = length ps" using out len by simp
  show "set out = {(k, p). p \<in> set ps \<and> rootFilePathIn ord rootMap roots p = Inr k}"
  proof (rule set_eqI)
    fix x :: "string \<times> string"
    obtain k p where x: "x = (k, p)" by (cases x)
    have "(k, p) \<in> set (zip ks ps) \<longleftrightarrow> (\<exists>i<length ps. ks ! i = k \<and> ps ! i = p)"
      using len by (auto simp: set_zip)
    also have "\<dots> \<longleftrightarrow> p \<in> set ps \<and> rootFilePathIn ord rootMap roots p = Inr k"
      using nth by (auto simp: in_set_conv_nth)
    finally show "x \<in> set out \<longleftrightarrow> x \<in> {(k, p). p \<in> set ps \<and> rootFilePathIn ord rootMap roots p = Inr k}"
      using x out by simp
  qed
  show "p = q" if h: "p \<in> set ps" "q \<in> set ps" "rootFilePathIn ord rootMap roots p = Inr k"
    "rootFilePathIn ord rootMap roots q = Inr k" for p q k
  proof -
    obtain i j where i: "i < length ps" "ps ! i = p" and j: "j < length ps" "ps ! j = q"
      using h(1,2) by (auto simp: in_set_conv_nth)
    have "ks ! i = k" "ks ! j = k" using nth [OF i(1)] nth [OF j(1)] i(2) j(2) h(3,4) by simp_all
    then have "ks ! i = ks ! j" by simp
    then have "i = j" using dk i(1) j(1) len by (metis nth_eq_iff_index_eq)
    then show ?thesis using i(2) j(2) by simp
  qed
qed

lemma explicit_another_root:
  assumes "GetProtoFileSetForRealFilePaths ord b roots paths allow = Inl (ErrWithinAnotherRoot p k q)"
  shows "p \<noteq> q \<and> (\<exists>cfg calls S. newConfig roots [] = Inr cfg
           \<and> checkRealFilePaths b allow paths [] [] = (calls, Inr S) \<and> p \<in> set S \<and> q \<in> set S
           \<and> rootFilePathIn ord (SliceToMap (Roots cfg)) (Roots cfg) p = Inr k
           \<and> rootFilePathIn ord (SliceToMap (Roots cfg)) (Roots cfg) q = Inr k)"
proof -
  let ?e = "ErrWithinAnotherRoot p k q"
  have "newConfig roots [] = Inl ?e
      \<or> snd (checkRealFilePaths b allow paths [] []) = Inl ?e
      \<or> (\<exists>(cfg :: config) S. newConfig roots [] = Inr cfg
            \<and> snd (checkRealFilePaths b allow paths [] []) = Inr S
            \<and> resolveRealFilePaths ord (SliceToMap (Roots cfg)) (Roots cfg)
                         (rangeOrder (range154 ord) S) [] = Inl ?e)"
    using explicit_Inl [OF assms] by auto
  then show ?thesis
  proof (elim disjE exE conjE)
    assume "newConfig roots [] = Inl ?e"
    then show ?thesis using newConfig_Inl by fastforce
  next
    assume "snd (checkRealFilePaths b allow paths [] []) = Inl ?e"
    then show ?thesis using checkRealFilePaths_Inl_kind by fastforce
  next
    fix cfg :: config and S
    assume cfg: "newConfig roots [] = Inr cfg"
      and S: "snd (checkRealFilePaths b allow paths [] []) = Inr S"
      and r: "resolveRealFilePaths ord (SliceToMap (Roots cfg)) (Roots cfg)
                         (rangeOrder (range154 ord) S) [] = Inl ?e"
    let ?f = "rootFilePathIn ord (SliceToMap (Roots cfg)) (Roots cfg)"
    obtain calls where c: "checkRealFilePaths b allow paths [] [] = (calls, Inr S)"
      using S by (cases "checkRealFilePaths b allow paths [] []") simp
    have dS: "distinct (rangeOrder (range154 ord) S)"
      using checkRealFilePaths_Inr_distinct [OF c] by (simp add: distinct_rangeOrder)
    have "\<not> (\<exists>x. ?f x = Inl ?e)" using rootFilePathIn_Inl by fastforce
    then obtain pre post where L: "rangeOrder (range154 ord) S = pre @ p # post"
      and pk: "?f p = Inr k" and qk: "q \<in> set pre \<and> ?f q = Inr k"
      using resolveRealFilePaths_Inl [OF r] by auto
    have "p \<noteq> q" using dS qk unfolding L by auto
    moreover have "p \<in> set S" "q \<in> set S"
      using L qk set_rangeOrder [of "range154 ord" S] by auto
    ultimately show ?thesis using cfg c pk qk by blast
  qed
qed

lemma explicit_collision_fails:
  assumes cfg: "newConfig roots [] = Inr cfg"
    and c: "checkRealFilePaths b allow paths [] [] = (calls, Inr S)"
    and pq: "p \<in> set S" "q \<in> set S" "p \<noteq> q"
    and k: "rootFilePathIn ord (SliceToMap (Roots cfg)) (Roots cfg) p = Inr k"
      "rootFilePathIn ord (SliceToMap (Roots cfg)) (Roots cfg) q = Inr k"
  shows "\<exists>e. GetProtoFileSetForRealFilePaths ord b roots paths allow = Inl e"
    and "list_all (\<lambda>x. \<exists>kx. rootFilePathIn ord (SliceToMap (Roots cfg)) (Roots cfg) x = Inr kx) S
           \<Longrightarrow> \<exists>p' k' q'. GetProtoFileSetForRealFilePaths ord b roots paths allow
                 = Inl (ErrWithinAnotherRoot p' k' q')"
proof -
  let ?f = "rootFilePathIn ord (SliceToMap (Roots cfg)) (Roots cfg)"
  let ?L = "rangeOrder (range154 ord) S"
  have inL: "p \<in> set ?L" "q \<in> set ?L" using pq(1,2) by (simp_all add: set_rangeOrder)
  obtain e where e: "resolveRealFilePaths ord (SliceToMap (Roots cfg)) (Roots cfg) ?L [] = Inl e"
  proof (cases "resolveRealFilePaths ord (SliceToMap (Roots cfg)) (Roots cfg) ?L []")
    case (Inl e)
    then show ?thesis using that by blast
  next
    case (Inr out)
    then have "p = q" using resolveRealFilePaths_result(4) [OF Inr inL(1) inL(2) k] by simp
    then show ?thesis using pq(3) by simp
  qed
  have G: "GetProtoFileSetForRealFilePaths ord b roots paths allow = Inl e"
    unfolding GetProtoFileSetForRealFilePaths_def run_stages [OF cfg c] using e by simp
  then show "\<exists>e. GetProtoFileSetForRealFilePaths ord b roots paths allow = Inl e" by blast
  show "\<exists>p' k' q'. GetProtoFileSetForRealFilePaths ord b roots paths allow
                 = Inl (ErrWithinAnotherRoot p' k' q')"
    if "list_all (\<lambda>x. \<exists>kx. ?f x = Inr kx) S"
  proof -
    have "\<not> (\<exists>x\<in>set ?L. ?f x = Inl e)"
      using that unfolding list_all_iff set_rangeOrder by auto
    then have "\<exists>p' k' q'. e = ErrWithinAnotherRoot p' k' q'"
      using resolveRealFilePaths_Inl [OF e] by blast
    then show ?thesis using G by auto
  qed
qed

lemma bucket_collision_fails:
  assumes cfg: "newConfig roots excludes = Inr cfg" and m: "walkRoots b (Roots cfg) [] = Inr m"
    and kps: "(k, ps) \<in> set m" "2 \<le> length ps"
  shows "\<exists>e. GetProtoFileSetForBucket ord b roots excludes = Inl e"
proof (cases "collapse ord (rangeOrder (range74 ord) m) []")
  case (Inl e)
  then show ?thesis using cfg m by (simp add: GetProtoFileSetForBucket_def)
next
  case (Inr c)
  have "accInv m" using walkRoots_Inr [OF m accInv_Nil] by simp
  then have "\<forall>(k, ps)\<in>set m. length ps = 1" using collapse_result [OF _ Inr] by simp
  then show ?thesis using kps by auto
qed

lemma explicit_nonempty:
  assumes "GetProtoFileSetForRealFilePaths ord b roots paths allow = Inr pfs"
  shows "pfsRootFilePathToRealFilePath pfs \<noteq> [] \<and> distinct (map fst (pfsRootFilePathToRealFilePath pfs))"
proof -
  obtain cfg :: config and S where "resolveRealFilePaths ord (SliceToMap (Roots cfg)) (Roots cfg)
                  (rangeOrder (range154 ord) S) [] = Inr (pfsRootFilePathToRealFilePath pfs)"
    and ne: "pfsRootFilePathToRealFilePath pfs \<noteq> []"
    using explicit_Inr [OF assms] by blast
  then show ?thesis using resolveRealFilePaths_result(1) by blast
qed

lemma explicit_empty:
  assumes cfg: "newConfig roots [] = Inr cfg"
    and c: "checkRealFilePaths b allow paths [] [] = (calls, Inr [])"
  shows "GetProtoFileSetForRealFilePaths ord b roots paths allow = Inl ErrNoInputFilesSpecified"
proof -
  have "rangeOrder (range154 ord) ([] :: string list) = []" by (simp add: rangeOrder_Nil_iff)
  then show ?thesis
    unfolding GetProtoFileSetForRealFilePaths_def run_stages [OF cfg c] by simp
qed

subsection \<open>The file set in terms of the bucket and of the paths given\<close>

text \<open>
  The mapping of a file set that the root scan returns is described by the files that
  the walks of the roots enumerate, and the mapping that the explicit mode returns by
  the paths given that normalise and exist in the bucket. Two different files with one
  logical path, and the absence of any file, make either entry point return an error.
\<close>

lemma walkRoots_entries:
  assumes m: "walkRoots b rs [] = Inr m"
  shows "accInv m"
    and "entriesOf m = (\<Union>r\<in>set rs. visitEntries r (walked b r))"
  using walkRoots_Inr [OF m accInv_Nil] by (simp_all add: entriesOf_Nil)

lemma scan_entries:
  assumes G: "GetProtoFileSetForBucket ord b roots excludes = Inr pfs"
    and cfg: "newConfig roots excludes = Inr cfg"
  shows "set (pfsRootFilePathToRealFilePath pfs) =
     {(k, p). (\<exists>r\<in>set (Roots cfg). p \<in> set (walked b r) \<and> Ext p = ''.proto''
                  \<and> rootFilePathOf r p = Inr k)
              \<and> \<not> MapContainsMatch (SliceToMap (Excludes cfg)) (Dir p)}"
proof -
  obtain cfg' m c where cfg': "newConfig roots excludes = Inr cfg'"
    and m': "walkRoots b (Roots cfg') [] = Inr m"
    and c: "collapse ord (rangeOrder (range74 ord) m) [] = Inr c"
    using GetProtoFileSetForBucket_Inr [OF G] by blast
  have "cfg' = cfg" using cfg cfg' by simp
  then have m: "walkRoots b (Roots cfg) [] = Inr m" using m' by simp
  have inv: "accInv m" using walkRoots_entries(1) [OF m] .
  have "set c = entriesOf m" using collapse_result [OF inv c] by simp
  then have sc: "set c = (\<Union>r\<in>set (Roots cfg). visitEntries r (walked b r))"
    using walkRoots_entries(2) [OF m] by simp
  have sc': "set c = {(k, p). \<exists>r\<in>set (Roots cfg). p \<in> set (walked b r) \<and> Ext p = ''.proto''
                  \<and> rootFilePathOf r p = Inr k}"
    unfolding sc visitEntries_def by auto
  show ?thesis
  proof (cases "excludes = []")
    case True
    then have "Excludes cfg = []" using newConfig_Excludes_Nil [OF cfg] by simp
    then have no: "\<And>p. \<not> MapContainsMatch (SliceToMap (Excludes cfg)) (Dir p)"
      by (simp add: SliceToMap_def MapContainsMatch_def)
    have "pfsRootFilePathToRealFilePath pfs = c"
      using G True unfolding GetProtoFileSetForBucket_stages [OF cfg m c]
      by (auto split: if_splits)
    then show ?thesis using sc' no by simp
  next
    case False
    have "pfsRootFilePathToRealFilePath pfs =
        filter (\<lambda>(k, v). \<not> MapContainsMatch (SliceToMap (Excludes cfg)) (Dir v))
                      (rangeOrder (range100 ord) c)"
      using G False unfolding GetProtoFileSetForBucket_stages [OF cfg m c]
      by (auto split: if_splits)
    then have "set (pfsRootFilePathToRealFilePath pfs) =
        {x \<in> set c. case x of (k, v) \<Rightarrow> \<not> MapContainsMatch (SliceToMap (Excludes cfg)) (Dir v)}"
      by (simp add: set_rangeOrder)
    then show ?thesis unfolding sc' by auto
  qed
qed

lemma scan_entry_sound:
  assumes G: "GetProtoFileSetForBucket ord b roots excludes = Inr pfs"
    and cfg: "newConfig roots excludes = Inr cfg"
    and e: "(k, p) \<in> set (pfsRootFilePathToRealFilePath pfs)"
  shows "(\<exists>r\<in>set (Roots cfg). p \<in> set (walked b r) \<and> Ext p = ''.proto''
                  \<and> rootFilePathOf r p = Inr k)
              \<and> \<not> MapContainsMatch (SliceToMap (Excludes cfg)) (Dir p)"
  using e unfolding scan_entries [OF G cfg] by simp

lemma scan_maps_file:
  assumes G: "GetProtoFileSetForBucket ord b roots excludes = Inr pfs"
    and cfg: "newConfig roots excludes = Inr cfg"
    and r: "r \<in> set (Roots cfg)" and p: "p \<in> set (walked b r)" "Ext p = ''.proto''"
    and k: "rootFilePathOf r p = Inr k"
    and x: "\<not> MapContainsMatch (SliceToMap (Excludes cfg)) (Dir p)"
  shows "map_of (pfsRootFilePathToRealFilePath pfs) k = Some p"
proof -
  have "(k, p) \<in> set (pfsRootFilePathToRealFilePath pfs)"
    unfolding scan_entries [OF G cfg] using r p k x by blast
  moreover have "distinct (map fst (pfsRootFilePathToRealFilePath pfs))"
    using GetProtoFileSetForBucket_nonempty [OF G] by simp
  ultimately show ?thesis by simp
qed

lemma scan_collision_fails:
  assumes cfg: "newConfig roots excludes = Inr cfg"
    and r: "r1 \<in> set (Roots cfg)" "r2 \<in> set (Roots cfg)"
    and p: "p1 \<in> set (walked b r1)" "p2 \<in> set (walked b r2)"
    and x: "Ext p1 = ''.proto''" "Ext p2 = ''.proto''"
    and k: "rootFilePathOf r1 p1 = Inr k" "rootFilePathOf r2 p2 = Inr k"
    and ne: "p1 \<noteq> p2"
  shows "\<exists>e. GetProtoFileSetForBucket ord b roots excludes = Inl e"
proof (cases "GetProtoFileSetForBucket ord b roots excludes")
  case (Inl e)
  then show ?thesis by blast
next
  case (Inr pfs)
  obtain cfg' m c where cfg': "newConfig roots excludes = Inr cfg'"
    and m': "walkRoots b (Roots cfg') [] = Inr m"
    and c: "collapse ord (rangeOrder (range74 ord) m) [] = Inr c"
    using GetProtoFileSetForBucket_Inr [OF Inr] by blast
  have "cfg' = cfg" using cfg cfg' by simp
  then have m: "walkRoots b (Roots cfg) [] = Inr m" using m' by simp
  have inv: "accInv m" using walkRoots_entries(1) [OF m] .
  have em: "entriesOf m = (\<Union>r\<in>set (Roots cfg). visitEntries r (walked b r))"
    using walkRoots_entries(2) [OF m] .
  have "(k, p1) \<in> visitEntries r1 (walked b r1)" "(k, p2) \<in> visitEntries r2 (walked b r2)"
    using p x k by (simp_all add: visitEntries_def)
  then have "(k, p1) \<in> entriesOf m" "(k, p2) \<in> entriesOf m"
    unfolding em using r by blast+
  then obtain ps where ps: "map_of m k = Some ps" "p1 \<in> set ps" "p2 \<in> set ps"
    by (auto simp: entriesOf_def)
  have "(k, ps) \<in> set m" using ps(1) by (rule map_of_SomeD)
  moreover have "\<forall>(k, ps)\<in>set m. length ps = 1" using collapse_result [OF inv c] by simp
  ultimately have "length ps = 1" by blast
  then have "ps = [hd ps]" by (rule length_one_hd)
  then have "p1 = hd ps" "p2 = hd ps" using ps(2,3) by (metis empty_iff empty_set set_ConsD)+
  then show ?thesis using ne by simp
qed

lemma scan_empty_fails:
  assumes cfg: "newConfig roots excludes = Inr cfg"
    and none: "\<forall>r\<in>set (Roots cfg). \<forall>p\<in>set (walked b r). \<forall>k.
        Ext p = ''.proto'' \<longrightarrow> rootFilePathOf r p = Inr k \<longrightarrow>
          MapContainsMatch (SliceToMap (Excludes cfg)) (Dir p)"
  shows "\<exists>e. GetProtoFileSetForBucket ord b roots excludes = Inl e"
proof (cases "GetProtoFileSetForBucket ord b roots excludes")
  case (Inl e)
  then show ?thesis by blast
next
  case (Inr pfs)
  have "set (pfsRootFilePathToRealFilePath pfs) = {}"
    unfolding scan_entries [OF Inr cfg] using none by blast
  then have "pfsRootFilePathToRealFilePath pfs = []" by simp
  then show ?thesis using GetProtoFileSetForBucket_nonempty [OF Inr] by simp
qed

lemma checkRealFilePaths_Inr_subset:
  "checkRealFilePaths b allow ps seen calls = (c, Inr s) \<Longrightarrow>
     set s \<subseteq> set seen \<union> {n. \<exists>p\<in>set ps. NormalizeAndValidate p = Inr n}"
proof (induction ps arbitrary: seen calls)
  case Nil
  then show ?case by simp
next
  case (Cons q ps)
  obtain n where n: "NormalizeAndValidate q = Inr n"
    and alt: "Stat b n = None \<and> checkRealFilePaths b allow ps (seen @ [n]) (calls @ [n]) = (c, Inr s)
              \<or> (\<exists>e. Stat b n = Some e \<and> IsNotExist e \<and> allow)
                 \<and> checkRealFilePaths b allow ps seen (calls @ [n]) = (c, Inr s)"
    using checkRealFilePaths_Inr_step [OF Cons.prems(1)] by blast
  from alt show ?case
  proof
    assume a: "Stat b n = None \<and> checkRealFilePaths b allow ps (seen @ [n]) (calls @ [n]) = (c, Inr s)"
    have "set s \<subseteq> set (seen @ [n]) \<union> {n. \<exists>p\<in>set ps. NormalizeAndValidate p = Inr n}"
      using Cons.IH [OF conjunct2 [OF a]] .
    then show ?thesis using n by auto
  next
    assume a: "(\<exists>e. Stat b n = Some e \<and> IsNotExist e \<and> allow)
                 \<and> checkRealFilePaths b allow ps seen (calls @ [n]) = (c, Inr s)"
    have "set s \<subseteq> set seen \<union> {n. \<exists>p\<in>set ps. NormalizeAndValidate p = Inr n}"
      using Cons.IH [OF conjunct2 [OF a]] .
    then show ?thesis by auto
  qed
qed

lemma checkRealFilePaths_survivors:
  assumes c: "checkRealFilePaths b allow paths [] [] = (calls, Inr S)"
  shows "set S = {n. (\<exists>p\<in>set paths. NormalizeAndValidate p = Inr n) \<and> Stat b n = None}"
proof (rule set_eqI)
  fix n
  have a: "n \<in> set S \<Longrightarrow> \<exists>p\<in>set paths. NormalizeAndValidate p = Inr n"
    using checkRealFilePaths_Inr_subset [OF c] by auto
  have st: "n \<in> set S \<Longrightarrow> Stat b n = None"
    using checkRealFilePaths_Inr_distinct [OF c] by simp
  have m: "\<And>p. p \<in> set paths \<Longrightarrow> NormalizeAndValidate p = Inr n \<Longrightarrow> Stat b n = None \<Longrightarrow> n \<in> set S"
    using checkRealFilePaths_Inr_member [OF c] by blast
  show "n \<in> set S \<longleftrightarrow> n \<in> {n. (\<exists>p\<in>set paths. NormalizeAndValidate p = Inr n) \<and> Stat b n = None}"
    using a st m by blast
qed

lemma explicit_entries:
  assumes G: "GetProtoFileSetForRealFilePaths ord b roots paths allow = Inr pfs"
    and cfg: "newConfig roots [] = Inr cfg"
  shows "set (pfsRootFilePathToRealFilePath pfs) =
     {(k, n). (\<exists>p\<in>set paths. NormalizeAndValidate p = Inr n) \<and> Stat b n = None
              \<and> rootFilePathIn ord (SliceToMap (Roots cfg)) (Roots cfg) n = Inr k}"
proof -
  obtain cfg' :: config and calls S where cfg': "newConfig roots [] = Inr cfg'"
    and c: "checkRealFilePaths b allow paths [] [] = (calls, Inr S)"
    and r': "resolveRealFilePaths ord (SliceToMap (Roots cfg')) (Roots cfg')
                  (rangeOrder (range154 ord) S) [] = Inr (pfsRootFilePathToRealFilePath pfs)"
    using explicit_Inr [OF G] by blast
  have "cfg' = cfg" using cfg cfg' by simp
  then have r: "resolveRealFilePaths ord (SliceToMap (Roots cfg)) (Roots cfg)
                  (rangeOrder (range154 ord) S) [] = Inr (pfsRootFilePathToRealFilePath pfs)"
    using r' by simp
  have "set (pfsRootFilePathToRealFilePath pfs) =
     {(k, p). p \<in> set S \<and> rootFilePathIn ord (SliceToMap (Roots cfg)) (Roots cfg) p = Inr k}"
    using resolveRealFilePaths_result(3) [OF r] by (simp add: set_rangeOrder)
  then show ?thesis unfolding checkRealFilePaths_survivors [OF c] by auto
qed

lemma explicit_entry_sound:
  assumes G: "GetProtoFileSetForRealFilePaths ord b roots paths allow = Inr pfs"
    and cfg: "newConfig roots [] = Inr cfg"
    and e: "(k, n) \<in> set (pfsRootFilePathToRealFilePath pfs)"
  shows "(\<exists>p\<in>set paths. NormalizeAndValidate p = Inr n) \<and> Stat b n = None
              \<and> rootFilePathIn ord (SliceToMap (Roots cfg)) (Roots cfg) n = Inr k"
  using e unfolding explicit_entries [OF G cfg] by simp

lemma explicit_maps_file:
  assumes G: "GetProtoFileSetForRealFilePaths ord b roots paths allow = Inr pfs"
    and cfg: "newConfig roots [] = Inr cfg"
    and p: "p \<in> set paths" "NormalizeAndValidate p = Inr n" "Stat b n = None"
    and k: "rootFilePathIn ord (SliceToMap (Roots cfg)) (Roots cfg) n = Inr k"
  shows "map_of (pfsRootFilePathToRealFilePath pfs) k = Some n"
proof -
  have "(k, n) \<in> set (pfsRootFilePathToRealFilePath pfs)"
    unfolding explicit_entries [OF G cfg] using p k by blast
  moreover have "distinct (map fst (pfsRootFilePathToRealFilePath pfs))"
    using explicit_nonempty [OF G] by simp
  ultimately show ?thesis by simp
qed

lemma explicit_input_collision_fails:
  assumes cfg: "newConfig roots [] = Inr cfg"
    and p: "p \<in> set paths" "NormalizeAndValidate p = Inr n" "Stat b n = None"
    and q: "q \<in> set paths" "NormalizeAndValidate q = Inr n'" "Stat b n' = None"
    and k: "rootFilePathIn ord (SliceToMap (Roots cfg)) (Roots cfg) n = Inr k"
      "rootFilePathIn ord (SliceToMap (Roots cfg)) (Roots cfg) n' = Inr k"
    and ne: "n \<noteq> n'"
  shows "\<exists>e. GetProtoFileSetForRealFilePaths ord b roots paths allow = Inl e"
proof (cases "GetProtoFileSetForRealFilePaths ord b roots paths allow")
  case (Inl e)
  then show ?thesis by blast
next
  case (Inr pfs)
  have "map_of (pfsRootFilePathToRealFilePath pfs) k = Some n"
    using explicit_maps_file [OF Inr cfg p k(1)] .
  moreover have "map_of (pfsRootFilePathToRealFilePath pfs) k = Some n'"
    using explicit_maps_file [OF Inr cfg q k(2)] .
  ultimately show ?thesis using ne by simp
qed

lemma explicit_no_survivor_fails:
  assumes none: "\<forall>p\<in>set paths. \<forall>n. NormalizeAndValidate p = Inr n \<longrightarrow> Stat b n \<noteq> None"
  shows "\<exists>e. GetProtoFileSetForRealFilePaths ord b roots paths allow = Inl e"
proof (cases "GetProtoFileSetForRealFilePaths ord b roots paths allow")
  case (Inl e)
  then show ?thesis by blast
next
  case (Inr pfs)
  obtain cfg :: config where cfg: "newConfig roots [] = Inr cfg"
    using explicit_Inr [OF Inr] by blast
  have "set (pfsRootFilePathToRealFilePath pfs) = {}"
    unfolding explicit_entries [OF Inr cfg] using none by blast
  then have "pfsRootFilePathToRealFilePath pfs = []" by simp
  then show ?thesis using explicit_nonempty [OF Inr] by simp
qed

lemma checkRealFilePaths_all_missing:
  "\<forall>p\<in>set ps. \<exists>n e. NormalizeAndValidate p = Inr n \<and> Stat b n = Some e \<and> IsNotExist e \<and> allow \<Longrightarrow>
     \<exists>c. checkRealFilePaths b allow ps [] calls = (c, Inr [])"
proof (induction ps arbitrary: calls)
  case Nil
  then show ?case by simp
next
  case (Cons p ps)
  obtain n e where n: "NormalizeAndValidate p = Inr n" "Stat b n = Some e" "IsNotExist e" "allow"
    using Cons.prems by auto
  have "checkRealFilePaths b allow (p # ps) [] calls = checkRealFilePaths b allow ps [] (calls @ [n])"
    unfolding checkRealFilePaths_Cons [OF n(1)] using n(2,3,4) by simp
  moreover have "\<exists>c. checkRealFilePaths b allow ps [] (calls @ [n]) = (c, Inr [])"
    using Cons.IH [of "calls @ [n]"] Cons.prems by simp
  ultimately show ?case by simp
qed

lemma explicit_all_missing:
  assumes cfg: "newConfig roots [] = Inr cfg"
    and miss: "\<forall>p\<in>set paths. \<exists>n e. NormalizeAndValidate p = Inr n \<and> Stat b n = Some e
                  \<and> IsNotExist e \<and> allow"
  shows "GetProtoFileSetForRealFilePaths ord b roots paths allow = Inl ErrNoInputFilesSpecified"
proof -
  obtain c where "checkRealFilePaths b allow paths [] [] = (c, Inr [])"
    using checkRealFilePaths_all_missing [OF miss] by blast
  then show ?thesis using explicit_empty [OF cfg] by blast
qed

lemma scan_all_excluded_fails:
  assumes cfg: "newConfig roots excludes = Inr cfg"
    and none: "\<forall>r\<in>set (Roots cfg). \<forall>p\<in>set (walked b r).
        Ext p = ''.proto'' \<longrightarrow> MapContainsMatch (SliceToMap (Excludes cfg)) (Dir p)"
  shows "\<exists>e. GetProtoFileSetForBucket ord b roots excludes = Inl e"
  using scan_empty_fails [OF cfg] none by blast


section \<open>The claims\<close>

text \<open>
  Claim C1. For a validated configuration without excludes and a bucket that behaves on
  the roots (no walk fails, and every path enumerated is normalised and lies under the
  root walked), a successful root scan returns the roots of the configuration and a
  mapping that holds exactly the files with extension \<open>.proto\<close> enumerated under the
  roots, each keyed by its path relative to the root it was found under; no logical
  path and no real path occurs twice. The scan fails only when there is no such file
  or when two real paths share a logical path. Read from the side of the bucket: every
  such file under a root has a relative path, and the mapping takes that path to the
  file. With roots \<open>["proto"]\<close> and a bucket holding \<open>proto/foo/a.proto\<close> and
  \<open>proto/foo/b.proto\<close> the result maps \<open>foo/a.proto\<close> to \<open>proto/foo/a.proto\<close> and
  \<open>foo/b.proto\<close> to \<open>proto/foo/b.proto\<close>, whatever the iteration order of the maps.
\<close>

theorem root_scan_maps_every_proto_file_once:
  "(\<forall>ord b roots cfg pfs.
      newConfig roots [] = Inr cfg \<longrightarrow> wellFormedBucket b (Roots cfg) \<longrightarrow>
      GetProtoFileSetForBucket ord b roots [] = Inr pfs \<longrightarrow>
        pfsRoots pfs = Roots cfg
        \<and> set (pfsRootFilePathToRealFilePath pfs) = set (protoFilesUnder b (Roots cfg))
        \<and> distinct (map fst (pfsRootFilePathToRealFilePath pfs))
        \<and> distinct (map snd (pfsRootFilePathToRealFilePath pfs)))
   \<and> (\<forall>ord b roots cfg err.
      newConfig roots [] = Inr cfg \<longrightarrow> wellFormedBucket b (Roots cfg) \<longrightarrow>
      GetProtoFileSetForBucket ord b roots [] = Inl err \<longrightarrow>
        err = ErrNoInputFilesMatchRoots \<and> protoFilesUnder b (Roots cfg) = []
        \<or> (\<exists>k p q ps. err = ErrWithinMultipleRoots k ps \<and> p \<noteq> q
               \<and> (k, p) \<in> set (protoFilesUnder b (Roots cfg))
               \<and> (k, q) \<in> set (protoFilesUnder b (Roots cfg))))
   \<and> (\<forall>ord b roots cfg pfs root p.
      newConfig roots [] = Inr cfg \<longrightarrow> wellFormedBucket b (Roots cfg) \<longrightarrow>
      GetProtoFileSetForBucket ord b roots [] = Inr pfs \<longrightarrow>
      root \<in> set (Roots cfg) \<longrightarrow> p \<in> set (walked b root) \<longrightarrow> Ext p = ''.proto'' \<longrightarrow>
        (\<exists>k. Rel root p = Inr k \<and> map_of (pfsRootFilePathToRealFilePath pfs) k = Some p))
   \<and> (\<forall>ord. \<exists>pfs.
         GetProtoFileSetForBucket ord (memBucket [''proto/foo/a.proto'', ''proto/foo/b.proto''])
           [''proto''] [] = Inr pfs
         \<and> pfsRoots pfs = [''proto'']
         \<and> map_of (pfsRootFilePathToRealFilePath pfs)
             = [''foo/a.proto'' \<mapsto> ''proto/foo/a.proto'', ''foo/b.proto'' \<mapsto> ''proto/foo/b.proto''])"
proof -
  have scenario: "\<exists>pfs.
         GetProtoFileSetForBucket ord (memBucket [''proto/foo/a.proto'', ''proto/foo/b.proto''])
           [''proto''] [] = Inr pfs
         \<and> pfsRoots pfs = [''proto'']
         \<and> map_of (pfsRootFilePathToRealFilePath pfs)
             = [''foo/a.proto'' \<mapsto> ''proto/foo/a.proto'', ''foo/b.proto'' \<mapsto> ''proto/foo/b.proto'']"
    for ord
  proof -
    let ?b = "memBucket [''proto/foo/a.proto'', ''proto/foo/b.proto'']"
    let ?G = "GetProtoFileSetForBucket ord ?b [''proto''] []"
    let ?E = "[(''foo/a.proto'', ''proto/foo/a.proto''), (''foo/b.proto'', ''proto/foo/b.proto'')]"
    have wf: "wellFormedBucket ?b (Roots \<lparr>Roots = [''proto''], Excludes = []\<rparr>)"
      using scenario_wellFormed by simp
    have P: "protoFilesUnder ?b (Roots \<lparr>Roots = [''proto''], Excludes = []\<rparr>) = ?E"
      using scenario_protoFilesUnder by simp
    show ?thesis
    proof (cases ?G)
      case (Inl err)
      have "err = ErrNoInputFilesMatchRoots \<and> ?E = []
           \<or> (\<exists>k p q ps. err = ErrWithinMultipleRoots k ps \<and> p \<noteq> q
                  \<and> (k, p) \<in> set ?E \<and> (k, q) \<in> set ?E)"
        using scan_Inl [OF scenario_config wf Inl] unfolding P .
      then have False by auto
      then show ?thesis ..
    next
      case (Inr pfs)
      have "pfsRoots pfs = Roots \<lparr>Roots = [''proto''], Excludes = []\<rparr>
           \<and> set (pfsRootFilePathToRealFilePath pfs) = set ?E
           \<and> distinct (map fst (pfsRootFilePathToRealFilePath pfs))
           \<and> distinct (map snd (pfsRootFilePathToRealFilePath pfs))"
        using scan_Inr [OF scenario_config wf Inr] unfolding P .
      then have s: "set (pfsRootFilePathToRealFilePath pfs) = set ?E"
        and d: "distinct (map fst (pfsRootFilePathToRealFilePath pfs))"
        and r: "pfsRoots pfs = [''proto'']"
        by simp_all
      have "distinct (map fst ?E)" by simp
      then have "map_of (pfsRootFilePathToRealFilePath pfs) = map_of ?E"
        using d s map_of_inject_set by blast
      also have "\<dots> = [''foo/a.proto'' \<mapsto> ''proto/foo/a.proto'', ''foo/b.proto'' \<mapsto> ''proto/foo/b.proto'']"
        by (rule ext) simp
      finally show ?thesis using Inr r by simp
    qed
  qed
  have A: "\<forall>ord b roots cfg pfs.
      newConfig roots [] = Inr cfg \<longrightarrow> wellFormedBucket b (Roots cfg) \<longrightarrow>
      GetProtoFileSetForBucket ord b roots [] = Inr pfs \<longrightarrow>
        pfsRoots pfs = Roots cfg
        \<and> set (pfsRootFilePathToRealFilePath pfs) = set (protoFilesUnder b (Roots cfg))
        \<and> distinct (map fst (pfsRootFilePathToRealFilePath pfs))
        \<and> distinct (map snd (pfsRootFilePathToRealFilePath pfs))"
    by (intro allI impI) (rule scan_Inr)
  have B: "\<forall>ord b roots cfg err.
      newConfig roots [] = Inr cfg \<longrightarrow> wellFormedBucket b (Roots cfg) \<longrightarrow>
      GetProtoFileSetForBucket ord b roots [] = Inl err \<longrightarrow>
        err = ErrNoInputFilesMatchRoots \<and> protoFilesUnder b (Roots cfg) = []
        \<or> (\<exists>k p q ps. err = ErrWithinMultipleRoots k ps \<and> p \<noteq> q
               \<and> (k, p) \<in> set (protoFilesUnder b (Roots cfg))
               \<and> (k, q) \<in> set (protoFilesUnder b (Roots cfg)))"
    by (intro allI impI) (rule scan_Inl)
  have C: "\<forall>ord b roots cfg pfs root p.
      newConfig roots [] = Inr cfg \<longrightarrow> wellFormedBucket b (Roots cfg) \<longrightarrow>
      GetProtoFileSetForBucket ord b roots [] = Inr pfs \<longrightarrow>
      root \<in> set (Roots cfg) \<longrightarrow> p \<in> set (walked b root) \<longrightarrow> Ext p = ''.proto'' \<longrightarrow>
        (\<exists>k. Rel root p = Inr k \<and> map_of (pfsRootFilePathToRealFilePath pfs) k = Some p)"
    by (intro allI impI) (rule scan_covers)
  have D: "\<forall>ord. \<exists>pfs.
         GetProtoFileSetForBucket ord (memBucket [''proto/foo/a.proto'', ''proto/foo/b.proto''])
           [''proto''] [] = Inr pfs
         \<and> pfsRoots pfs = [''proto'']
         \<and> map_of (pfsRootFilePathToRealFilePath pfs)
             = [''foo/a.proto'' \<mapsto> ''proto/foo/a.proto'', ''foo/b.proto'' \<mapsto> ''proto/foo/b.proto'']"
    by (intro allI) (rule scenario)
  show ?thesis using A B C D by (intro conjI)
qed

theorem root_scan_maps_every_proto_file_once_witness:
  "newConfig [''a'', ''b''] [] = Inr \<lparr>Roots = [''a'', ''b''], Excludes = []\<rparr>
   \<and> wellFormedBucket (memBucket [''a/x.proto'', ''a/README.md'', ''b/y.proto'']) [''a'', ''b'']
   \<and> GetProtoFileSetForBucket insertionOrder (memBucket [''a/x.proto'', ''a/README.md'', ''b/y.proto''])
         [''a'', ''b''] []
       = Inr \<lparr>pfsRoots = [''a'', ''b''],
              pfsRootFilePathToRealFilePath = [(''x.proto'', ''a/x.proto''), (''y.proto'', ''b/y.proto'')]\<rparr>
   \<and> set [(''x.proto'', ''a/x.proto''), (''y.proto'', ''b/y.proto'')]
       = set (protoFilesUnder (memBucket [''a/x.proto'', ''a/README.md'', ''b/y.proto'']) [''a'', ''b''])"
proof -
  let ?b = "memBucket [''a/x.proto'', ''a/README.md'', ''b/y.proto'']"
  let ?cfg = "\<lparr>Roots = [''a'', ''b''], Excludes = []\<rparr>"
  let ?pfs = "\<lparr>pfsRoots = [''a'', ''b''],
              pfsRootFilePathToRealFilePath = [(''x.proto'', ''a/x.proto''), (''y.proto'', ''b/y.proto'')]\<rparr>"
  have h1: "newConfig [''a'', ''b''] [] = Inr ?cfg" by code_simp
  have h2: "wellFormedBucket ?b [''a'', ''b'']" by code_simp
  then have h2': "wellFormedBucket ?b (Roots ?cfg)" by (simp only: config.select_convs)
  have h3: "GetProtoFileSetForBucket insertionOrder ?b [''a'', ''b''] [] = Inr ?pfs" by code_simp
  have "set (pfsRootFilePathToRealFilePath ?pfs) = set (protoFilesUnder ?b (Roots ?cfg))"
    using root_scan_maps_every_proto_file_once [THEN conjunct1, rule_format, OF h1 h2' h3]
    by (rule conjunct1 [OF conjunct2])
  then have h4: "set [(''x.proto'', ''a/x.proto''), (''y.proto'', ''b/y.proto'')]
       = set (protoFilesUnder ?b [''a'', ''b''])"
    by (simp only: config.select_convs ProtoFileSet.select_convs)
  show ?thesis using h1 h2 h3 h4 by (intro conjI)
qed


text \<open>
  Claim C2. When two distinct roots each hold a file with extension \<open>.proto\<close> at the
  same root-relative path, the root scan fails with the collision error
  \<open>ErrWithinMultipleRoots\<close>; the real paths it lists are sorted, at least two, and
  are all the real paths of the logical path it names. This holds for every list of
  excludes the configuration accepts, and for every iteration order of the maps.
\<close>

theorem root_collision_fails_with_sorted_paths:
  assumes cfg: "newConfig roots excludes = Inr cfg"
    and wf: "wellFormedBucket b (Roots cfg)"
    and r1: "r1 \<in> set (Roots cfg)" and r2: "r2 \<in> set (Roots cfg)" and distinct_roots: "r1 \<noteq> r2"
    and p1: "p1 \<in> set (walked b r1)" "Ext p1 = ''.proto''" "Rel r1 p1 = Inr k"
    and p2: "p2 \<in> set (walked b r2)" "Ext p2 = ''.proto''" "Rel r2 p2 = Inr k"
  shows "\<exists>k' ps. GetProtoFileSetForBucket ord b roots excludes = Inl (ErrWithinMultipleRoots k' ps)
           \<and> sorted ps \<and> distinct ps \<and> 2 \<le> length ps
           \<and> set ps = {p. (k', p) \<in> set (protoFilesUnder b (Roots cfg))}"
proof -
  let ?P = "protoFilesUnder b (Roots cfg)"
  obtain m where m: "walkRoots b (Roots cfg) [] = Inr m" and inv: "accInv m"
    and em: "entriesOf m = set ?P"
    using wellFormed_walkRoots [OF wf] by blast
  have no: "\<not> rootsOverlap (Roots cfg)" using newConfig_Inr [OF cfg] by blast
  have in1: "(k, p1) \<in> set ?P" and in2: "(k, p2) \<in> set ?P"
    using r1 r2 p1 p2 unfolding set_protoFilesUnder by blast+
  have "equalsOrContainsPath r1 p1" "equalsOrContainsPath r2 p2"
    using wf r1 r2 p1(1) p2(1) unfolding wellFormedBucket_iff by blast+
  then have ne: "p1 \<noteq> p2" using one_root_contains [OF no r1 r2] distinct_roots by blast
  have "(k, p1) \<in> entriesOf m" "(k, p2) \<in> entriesOf m" using in1 in2 em by simp_all
  then obtain qs where qs: "map_of m k = Some qs" "p1 \<in> set qs" "p2 \<in> set qs"
    by (auto simp: entriesOf_def)
  have "(k, qs) \<in> set m" using qs(1) by (meson map_of_SomeD)
  moreover have "length qs \<noteq> 1"
  proof
    assume "length qs = 1"
    then have "qs = [hd qs]" by (rule length_one_hd)
    then have "p1 = hd qs" "p2 = hd qs" using qs(2,3) by (metis empty_iff empty_set set_ConsD)+
    then show False using ne by simp
  qed
  ultimately have "\<not> (\<forall>(k, ps)\<in>set m. length ps = 1)" by blast
  then obtain e where e: "collapse ord (rangeOrder (range74 ord) m) [] = Inl e"
    using collapse_result [OF inv] by (cases "collapse ord (rangeOrder (range74 ord) m) []") blast+
  then obtain k' ps where ps: "map_of m k' = Some ps" "2 \<le> length ps" "distinct ps"
    and ee: "e = ErrWithinMultipleRoots k' (sort ps)"
    using collapse_fails [OF inv] by blast
  have "\<And>p. (k', p) \<in> entriesOf m \<longleftrightarrow> p \<in> set ps"
    using ps(1) by (simp add: entriesOf_def)
  then have "set (sort ps) = {p. (k', p) \<in> set ?P}"
    unfolding em by simp
  moreover have "GetProtoFileSetForBucket ord b roots excludes = Inl e"
    using cfg m e by (simp add: GetProtoFileSetForBucket_def)
  ultimately show ?thesis using ee ps(2,3) by (intro exI [of _ k'] exI [of _ "sort ps"]) simp
qed

theorem root_collision_fails_with_sorted_paths_witness:
  "GetProtoFileSetForBucket insertionOrder (memBucket [''b/x.proto'', ''a/x.proto'']) [''b'', ''a''] [''a/sub'']
     = Inl (ErrWithinMultipleRoots ''x.proto'' [''a/x.proto'', ''b/x.proto''])
   \<and> (\<exists>k' ps. GetProtoFileSetForBucket insertionOrder (memBucket [''b/x.proto'', ''a/x.proto''])
            [''b'', ''a''] [''a/sub''] = Inl (ErrWithinMultipleRoots k' ps)
           \<and> sorted ps \<and> distinct ps \<and> 2 \<le> length ps
           \<and> set ps = {p. (k', p) \<in> set (protoFilesUnder (memBucket [''b/x.proto'', ''a/x.proto''])
                                        (Roots \<lparr>Roots = [''b'', ''a''], Excludes = [''a/sub'']\<rparr>))})"
proof -
  let ?b = "memBucket [''b/x.proto'', ''a/x.proto'']"
  let ?cfg = "\<lparr>Roots = [''b'', ''a''], Excludes = [''a/sub'']\<rparr>"
  have h1: "newConfig [''b'', ''a''] [''a/sub''] = Inr ?cfg" by code_simp
  have h2: "wellFormedBucket ?b (Roots ?cfg)" by code_simp
  have h3: "''a'' \<in> set (Roots ?cfg)" "''b'' \<in> set (Roots ?cfg)" "''a'' \<noteq> ''b''" by simp_all
  have h4: "''a/x.proto'' \<in> set (walked ?b ''a'')" "Ext ''a/x.proto'' = ''.proto''"
    "Rel ''a'' ''a/x.proto'' = Inr ''x.proto''" by code_simp+
  have h5: "''b/x.proto'' \<in> set (walked ?b ''b'')" "Ext ''b/x.proto'' = ''.proto''"
    "Rel ''b'' ''b/x.proto'' = Inr ''x.proto''" by code_simp+
  have h6: "GetProtoFileSetForBucket insertionOrder ?b [''b'', ''a''] [''a/sub'']
     = Inl (ErrWithinMultipleRoots ''x.proto'' [''a/x.proto'', ''b/x.proto''])" by code_simp
  show ?thesis
    using h6 root_collision_fails_with_sorted_paths [OF h1 h2 h3 h4 h5, of insertionOrder]
    by (intro conjI)
qed

text \<open>
  Claim C3, exclude monotonicity. When the root scan succeeds without excludes and
  succeeds with a list of excludes, on the same bucket and roots (the iteration orders
  of the two runs may differ), every entry of the mapping produced with excludes is an
  entry of the mapping produced without: as sets of pairs and as maps.
\<close>

theorem excludes_only_remove_entries:
  assumes without: "GetProtoFileSetForBucket ord0 b roots [] = Inr pfs0"
    and "with": "GetProtoFileSetForBucket ord1 b roots excludes = Inr pfs1"
  shows "set (pfsRootFilePathToRealFilePath pfs1) \<subseteq> set (pfsRootFilePathToRealFilePath pfs0)
         \<and> map_of (pfsRootFilePathToRealFilePath pfs1) \<subseteq>\<^sub>m map_of (pfsRootFilePathToRealFilePath pfs0)"
proof -
  obtain cfg m c1 where cfg: "newConfig roots excludes = Inr cfg"
    and m: "walkRoots b (Roots cfg) [] = Inr m"
    and c1: "collapse ord1 (rangeOrder (range74 ord1) m) [] = Inr c1"
    using GetProtoFileSetForBucket_Inr [OF "with"] by blast
  have cfg0: "newConfig roots [] = Inr (cfg\<lparr>Excludes := []\<rparr>)"
    using newConfig_no_excludes [OF cfg] .
  have m0: "walkRoots b (Roots (cfg\<lparr>Excludes := []\<rparr>)) [] = Inr m" using m by simp
  have inv: "accInv m" using walkRoots_Inr [OF m accInv_Nil] by simp
  obtain c0 where c0: "collapse ord0 (rangeOrder (range74 ord0) m) [] = Inr c0"
    using collapse_succeeds [of m ord0 "range74 ord0" "[]"] collapse_result [OF inv c1] by blast
  have s0: "set c0 = entriesOf m" "distinct (map fst c0)" using collapse_result [OF inv c0] by simp_all
  have s1: "set c1 = entriesOf m" using collapse_result [OF inv c1] by simp
  have M0: "pfsRootFilePathToRealFilePath pfs0 = c0"
    using without unfolding GetProtoFileSetForBucket_stages [OF cfg0 m0 c0]
    by (auto split: if_splits)
  have "set (pfsRootFilePathToRealFilePath pfs1) \<subseteq> set c1"
    using "with" unfolding GetProtoFileSetForBucket_stages [OF cfg m c1]
    by (auto split: if_splits simp: set_rangeOrder)
  then have sub: "set (pfsRootFilePathToRealFilePath pfs1) \<subseteq> set (pfsRootFilePathToRealFilePath pfs0)"
    using s0(1) s1 M0 by simp
  have "map_of (pfsRootFilePathToRealFilePath pfs1) \<subseteq>\<^sub>m map_of (pfsRootFilePathToRealFilePath pfs0)"
    unfolding map_le_def
  proof (intro ballI)
    fix k assume "k \<in> dom (map_of (pfsRootFilePathToRealFilePath pfs1))"
    then obtain v where v: "map_of (pfsRootFilePathToRealFilePath pfs1) k = Some v" by blast
    then have "(k, v) \<in> set (pfsRootFilePathToRealFilePath pfs1)" by (rule map_of_SomeD)
    then have "(k, v) \<in> set (pfsRootFilePathToRealFilePath pfs0)" using sub by blast
    then have "map_of (pfsRootFilePathToRealFilePath pfs0) k = Some v"
      using s0(2) M0 by simp
    then show "map_of (pfsRootFilePathToRealFilePath pfs1) k
        = map_of (pfsRootFilePathToRealFilePath pfs0) k"
      using v by simp
  qed
  then show ?thesis using sub by simp
qed

theorem excludes_only_remove_entries_witness:
  "GetProtoFileSetForBucket insertionOrder (memBucket [''proto/foo/a.proto'', ''proto/bar/b.proto''])
       [''proto''] []
     = Inr \<lparr>pfsRoots = [''proto''], pfsRootFilePathToRealFilePath =
              [(''foo/a.proto'', ''proto/foo/a.proto''), (''bar/b.proto'', ''proto/bar/b.proto'')]\<rparr>
   \<and> GetProtoFileSetForBucket insertionOrder (memBucket [''proto/foo/a.proto'', ''proto/bar/b.proto''])
       [''proto''] [''proto/foo'']
     = Inr \<lparr>pfsRoots = [''proto''], pfsRootFilePathToRealFilePath =
              [(''bar/b.proto'', ''proto/bar/b.proto'')]\<rparr>
   \<and> set [(''bar/b.proto'', ''proto/bar/b.proto'')]
       \<subseteq> set [(''foo/a.proto'', ''proto/foo/a.proto''), (''bar/b.proto'', ''proto/bar/b.proto'')]"
proof -
  let ?b = "memBucket [''proto/foo/a.proto'', ''proto/bar/b.proto'']"
  let ?p0 = "\<lparr>pfsRoots = [''proto''], pfsRootFilePathToRealFilePath =
              [(''foo/a.proto'', ''proto/foo/a.proto''), (''bar/b.proto'', ''proto/bar/b.proto'')]\<rparr>"
  let ?p1 = "\<lparr>pfsRoots = [''proto''], pfsRootFilePathToRealFilePath =
              [(''bar/b.proto'', ''proto/bar/b.proto'')]\<rparr>"
  have h0: "GetProtoFileSetForBucket insertionOrder ?b [''proto''] [] = Inr ?p0" by code_simp
  have h1: "GetProtoFileSetForBucket insertionOrder ?b [''proto''] [''proto/foo''] = Inr ?p1" by code_simp
  have "set (pfsRootFilePathToRealFilePath ?p1) \<subseteq> set (pfsRootFilePathToRealFilePath ?p0)"
    using excludes_only_remove_entries [OF h0 h1] by (rule conjunct1)
  then have h2: "set [(''bar/b.proto'', ''proto/bar/b.proto'')]
       \<subseteq> set [(''foo/a.proto'', ''proto/foo/a.proto''), (''bar/b.proto'', ''proto/bar/b.proto'')]"
    by (simp only: ProtoFileSet.select_convs)
  show ?thesis using h0 h1 h2 by (intro conjI)
qed

text \<open>
  Claim C4. A root scan that succeeds returns a non-empty mapping. Once the
  configuration is accepted, the walks have succeeded and no logical path has two real
  paths: without excludes an empty mapping gives the error "no input files found that
  match roots", and with excludes a mapping whose every entry is excluded (the
  directory of its real path is equal to or below an exclude) gives the error "no
  input files found that match roots and excludes". The two errors are different, the
  first is returned only without excludes and the second only with excludes. Roots
  \<open>["proto"]\<close> with excludes \<open>["proto/foo"]\<close> over a bucket holding only
  \<open>proto/foo/a.proto\<close> and \<open>proto/foo/b.proto\<close> fail with the second error, whatever
  the iteration order.
\<close>

theorem empty_result_errors:
  "(\<forall>ord b roots excludes pfs.
      GetProtoFileSetForBucket ord b roots excludes = Inr pfs \<longrightarrow>
        pfsRootFilePathToRealFilePath pfs \<noteq> [])
   \<and> (\<forall>ord b roots excludes cfg m c.
      newConfig roots excludes = Inr cfg \<longrightarrow> walkRoots b (Roots cfg) [] = Inr m \<longrightarrow>
      collapse ord (rangeOrder (range74 ord) m) [] = Inr c \<longrightarrow>
        (excludes = [] \<longrightarrow> c = [] \<longrightarrow>
           GetProtoFileSetForBucket ord b roots excludes = Inl ErrNoInputFilesMatchRoots)
        \<and> (excludes \<noteq> [] \<longrightarrow>
             list_all (\<lambda>(k, p). MapContainsMatch (SliceToMap (Excludes cfg)) (Dir p)) c \<longrightarrow>
           GetProtoFileSetForBucket ord b roots excludes = Inl ErrNoInputFilesMatchRootsAndExcludes))
   \<and> (\<forall>ord b roots excludes.
      GetProtoFileSetForBucket ord b roots excludes = Inl ErrNoInputFilesMatchRoots \<longrightarrow>
        excludes = [])
   \<and> (\<forall>ord b roots excludes.
      GetProtoFileSetForBucket ord b roots excludes = Inl ErrNoInputFilesMatchRootsAndExcludes \<longrightarrow>
        excludes \<noteq> [])
   \<and> ErrNoInputFilesMatchRoots \<noteq> ErrNoInputFilesMatchRootsAndExcludes
   \<and> (\<forall>ord.
      GetProtoFileSetForBucket ord (memBucket [''proto/foo/a.proto'', ''proto/foo/b.proto''])
        [''proto''] [''proto/foo''] = Inl ErrNoInputFilesMatchRootsAndExcludes)"
proof -
  have stages: "(excludes = [] \<longrightarrow> c = [] \<longrightarrow>
           GetProtoFileSetForBucket ord b roots excludes = Inl ErrNoInputFilesMatchRoots)
        \<and> (excludes \<noteq> [] \<longrightarrow>
             list_all (\<lambda>(k, p). MapContainsMatch (SliceToMap (Excludes cfg)) (Dir p)) c \<longrightarrow>
           GetProtoFileSetForBucket ord b roots excludes = Inl ErrNoInputFilesMatchRootsAndExcludes)"
    if cfg: "newConfig roots excludes = Inr cfg" and m: "walkRoots b (Roots cfg) [] = Inr m"
      and c: "collapse ord (rangeOrder (range74 ord) m) [] = Inr c"
    for ord b roots excludes cfg m c
  proof (intro conjI impI)
    assume "excludes = []" "c = []"
    then show "GetProtoFileSetForBucket ord b roots excludes = Inl ErrNoInputFilesMatchRoots"
      unfolding GetProtoFileSetForBucket_stages [OF cfg m c] by simp
  next
    assume ex: "excludes \<noteq> []"
      and all: "list_all (\<lambda>(k, p). MapContainsMatch (SliceToMap (Excludes cfg)) (Dir p)) c"
    have "filter (\<lambda>(k, v). \<not> MapContainsMatch (SliceToMap (Excludes cfg)) (Dir v))
            (rangeOrder (range100 ord) c) = []"
      using all by (auto simp: filter_empty_conv list_all_iff set_rangeOrder)
    then show "GetProtoFileSetForBucket ord b roots excludes = Inl ErrNoInputFilesMatchRootsAndExcludes"
      unfolding GetProtoFileSetForBucket_stages [OF cfg m c] using ex by simp
  qed
  have only_without: "excludes = []"
    if "GetProtoFileSetForBucket ord b roots excludes = Inl ErrNoInputFilesMatchRoots"
    for ord b roots excludes
    using GetProtoFileSetForBucket_Inl [OF that] by simp
  have only_with: "excludes \<noteq> []"
    if "GetProtoFileSetForBucket ord b roots excludes = Inl ErrNoInputFilesMatchRootsAndExcludes"
    for ord b roots excludes
    using GetProtoFileSetForBucket_Inl [OF that] by simp
  have scenario: "GetProtoFileSetForBucket ord (memBucket [''proto/foo/a.proto'', ''proto/foo/b.proto''])
        [''proto''] [''proto/foo''] = Inl ErrNoInputFilesMatchRootsAndExcludes" for ord
  proof -
    let ?m = "[(''foo/a.proto'', [''proto/foo/a.proto'']), (''foo/b.proto'', [''proto/foo/b.proto''])]"
    let ?cfg = "\<lparr>Roots = [''proto''], Excludes = [''proto/foo'']\<rparr>"
    have inv: "accInv ?m"
      using walkRoots_Inr [OF scenario_excluded_walk accInv_Nil] by simp
    have "\<forall>(k, ps)\<in>set ?m. length ps = 1" by simp
    then obtain c where c: "collapse ord (rangeOrder (range74 ord) ?m) [] = Inr c"
      using collapse_succeeds by blast
    have "set c = entriesOf ?m" using collapse_result [OF inv c] by simp
    then have "\<forall>(k, p)\<in>set c. p = ''proto/foo/a.proto'' \<or> p = ''proto/foo/b.proto''"
      by (auto simp: entriesOf_def split: if_splits)
    then have "list_all (\<lambda>(k, p). MapContainsMatch (SliceToMap (Excludes ?cfg)) (Dir p)) c"
      using scenario_excluded_dirs unfolding list_all_iff by fastforce
    then show ?thesis
      using stages [OF scenario_excluded_config scenario_excluded_walk c] by simp
  qed
  have A: "\<forall>ord b roots excludes pfs.
      GetProtoFileSetForBucket ord b roots excludes = Inr pfs \<longrightarrow>
        pfsRootFilePathToRealFilePath pfs \<noteq> []"
    using GetProtoFileSetForBucket_nonempty by blast
  have B: "\<forall>ord b roots excludes cfg m c.
      newConfig roots excludes = Inr cfg \<longrightarrow> walkRoots b (Roots cfg) [] = Inr m \<longrightarrow>
      collapse ord (rangeOrder (range74 ord) m) [] = Inr c \<longrightarrow>
        (excludes = [] \<longrightarrow> c = [] \<longrightarrow>
           GetProtoFileSetForBucket ord b roots excludes = Inl ErrNoInputFilesMatchRoots)
        \<and> (excludes \<noteq> [] \<longrightarrow>
             list_all (\<lambda>(k, p). MapContainsMatch (SliceToMap (Excludes cfg)) (Dir p)) c \<longrightarrow>
           GetProtoFileSetForBucket ord b roots excludes = Inl ErrNoInputFilesMatchRootsAndExcludes)"
    by (intro allI impI) (rule stages)
  have C: "\<forall>ord b roots excludes.
      GetProtoFileSetForBucket ord b roots excludes = Inl ErrNoInputFilesMatchRoots \<longrightarrow>
        excludes = []"
    by (intro allI impI) (rule only_without)
  have D: "\<forall>ord b roots excludes.
      GetProtoFileSetForBucket ord b roots excludes = Inl ErrNoInputFilesMatchRootsAndExcludes \<longrightarrow>
        excludes \<noteq> []"
    by (intro allI impI) (rule only_with)
  have E: "ErrNoInputFilesMatchRoots \<noteq> ErrNoInputFilesMatchRootsAndExcludes" by simp
  have F: "\<forall>ord.
      GetProtoFileSetForBucket ord (memBucket [''proto/foo/a.proto'', ''proto/foo/b.proto''])
        [''proto''] [''proto/foo''] = Inl ErrNoInputFilesMatchRootsAndExcludes"
    by (intro allI) (rule scenario)
  show ?thesis using A B C D E F by (intro conjI)
qed


theorem empty_result_errors_witness:
  "newConfig [''proto''] [] = Inr \<lparr>Roots = [''proto''], Excludes = []\<rparr>
   \<and> walkRoots (memBucket [''proto/README.md'']) [''proto''] [] = Inr []
   \<and> collapse insertionOrder (rangeOrder (range74 insertionOrder) []) [] = Inr []
   \<and> GetProtoFileSetForBucket insertionOrder (memBucket [''proto/README.md'']) [''proto''] []
       = Inl ErrNoInputFilesMatchRoots
   \<and> newConfig [''proto''] [''proto/foo''] = Inr \<lparr>Roots = [''proto''], Excludes = [''proto/foo'']\<rparr>
   \<and> walkRoots (memBucket [''proto/foo/a.proto'']) [''proto''] []
       = Inr [(''foo/a.proto'', [''proto/foo/a.proto''])]
   \<and> collapse insertionOrder
         (rangeOrder (range74 insertionOrder) [(''foo/a.proto'', [''proto/foo/a.proto''])]) []
       = Inr [(''foo/a.proto'', ''proto/foo/a.proto'')]
   \<and> list_all (\<lambda>(k, p). MapContainsMatch (SliceToMap [''proto/foo'']) (Dir p))
         [(''foo/a.proto'', ''proto/foo/a.proto'')]
   \<and> GetProtoFileSetForBucket insertionOrder (memBucket [''proto/foo/a.proto'']) [''proto''] [''proto/foo'']
       = Inl ErrNoInputFilesMatchRootsAndExcludes"
proof -
  let ?cfg0 = "\<lparr>Roots = [''proto''], Excludes = []\<rparr>"
  let ?cfg1 = "\<lparr>Roots = [''proto''], Excludes = [''proto/foo'']\<rparr>"
  have a1: "newConfig [''proto''] [] = Inr ?cfg0" by code_simp
  have a2: "walkRoots (memBucket [''proto/README.md'']) [''proto''] [] = Inr []" by code_simp
  then have a2': "walkRoots (memBucket [''proto/README.md'']) (Roots ?cfg0) [] = Inr []"
    by (simp only: config.select_convs)
  have a3: "collapse insertionOrder (rangeOrder (range74 insertionOrder) []) [] = Inr []"
    by code_simp
  have a4: "GetProtoFileSetForBucket insertionOrder (memBucket [''proto/README.md'']) [''proto''] []
       = Inl ErrNoInputFilesMatchRoots"
    using empty_result_errors [THEN conjunct2, THEN conjunct1, rule_format, OF a1 a2' a3,
        THEN conjunct1, rule_format, OF refl refl] .
  have b1: "newConfig [''proto''] [''proto/foo''] = Inr ?cfg1" by code_simp
  have b2: "walkRoots (memBucket [''proto/foo/a.proto'']) [''proto''] []
       = Inr [(''foo/a.proto'', [''proto/foo/a.proto''])]" by code_simp
  then have b2': "walkRoots (memBucket [''proto/foo/a.proto'']) (Roots ?cfg1) []
       = Inr [(''foo/a.proto'', [''proto/foo/a.proto''])]"
    by (simp only: config.select_convs)
  have b3: "collapse insertionOrder
         (rangeOrder (range74 insertionOrder) [(''foo/a.proto'', [''proto/foo/a.proto''])]) []
       = Inr [(''foo/a.proto'', ''proto/foo/a.proto'')]" by code_simp
  have b4: "list_all (\<lambda>(k, p). MapContainsMatch (SliceToMap [''proto/foo'']) (Dir p))
         [(''foo/a.proto'', ''proto/foo/a.proto'')]" by code_simp
  then have b4': "list_all (\<lambda>(k, p). MapContainsMatch (SliceToMap (Excludes ?cfg1)) (Dir p))
         [(''foo/a.proto'', ''proto/foo/a.proto'')]"
    by (simp only: config.select_convs)
  have ne: "[''proto/foo''] \<noteq> []" by simp
  have b5: "GetProtoFileSetForBucket insertionOrder (memBucket [''proto/foo/a.proto'']) [''proto''] [''proto/foo'']
       = Inl ErrNoInputFilesMatchRootsAndExcludes"
    using empty_result_errors [THEN conjunct2, THEN conjunct1, rule_format, OF b1 b2' b3,
        THEN conjunct2, rule_format, OF ne b4'] .
  show ?thesis using a1 a2 a3 a4 b1 b2 b3 b4 b5 by (intro conjI)
qed

text \<open>
  Claim C5, as the code has it. The claim says that two entries with the same
  normalised string always give the duplicate-path error, and before any \<open>Stat\<close>. The
  loop checks an entry against the set of paths found to exist, then calls \<open>Stat\<close> for
  it, entry by entry. So: when the entries before an entry pass the loop, and one of
  them normalises to the same string and exists in the bucket, the function fails with
  the duplicate-path error; \<open>Stat\<close> has then been called once for each earlier entry
  (the list of calls is the list of their normalised paths) and not for the repeated
  entry. The explicit paths \<open>["proto/foo/a.proto", "proto/foo/a.proto"]\<close> fail this
  way, after one call of \<open>Stat\<close>, when the file exists.
\<close>

theorem duplicate_of_existing_path_fails:
  assumes cfg: "newConfig roots [] = Inr cfg"
    and pre: "checkRealFilePaths b allow pre [] [] = (calls, Inr seen)"
    and q: "q \<in> set pre" "NormalizeAndValidate q = Inr n" "Stat b n = None"
    and p: "NormalizeAndValidate p = Inr n"
  shows "runGetProtoFileSetForRealFilePaths ord b roots (pre @ p # post) allow
           = (calls, Inl (ErrDuplicateNormalizedFilePath n))
         \<and> map Inr calls = map NormalizeAndValidate pre"
proof -
  have "n \<in> set seen" using checkRealFilePaths_Inr_member [OF pre] q by blast
  then have "checkRealFilePaths b allow (p # post) seen calls
      = (calls, Inl (ErrDuplicateNormalizedFilePath n))"
    unfolding checkRealFilePaths_Cons [OF p] by simp
  then have "checkRealFilePaths b allow (pre @ p # post) [] []
      = (calls, Inl (ErrDuplicateNormalizedFilePath n))"
    unfolding checkRealFilePaths_append pre by simp
  then have "runGetProtoFileSetForRealFilePaths ord b roots (pre @ p # post) allow
           = (calls, Inl (ErrDuplicateNormalizedFilePath n))"
    using run_stages [OF cfg] by simp
  moreover have "map Inr calls = map NormalizeAndValidate pre"
    using checkRealFilePaths_Inr_calls [OF pre] by simp
  ultimately show ?thesis by simp
qed

theorem duplicate_of_existing_path_fails_witness:
  "newConfig [''proto''] [] = Inr \<lparr>Roots = [''proto''], Excludes = []\<rparr>
   \<and> checkRealFilePaths (memBucket [''proto/foo/a.proto'']) False [''proto/foo/a.proto''] [] []
       = ([''proto/foo/a.proto''], Inr [''proto/foo/a.proto''])
   \<and> NormalizeAndValidate ''proto/foo/a.proto'' = Inr ''proto/foo/a.proto''
   \<and> Stat (memBucket [''proto/foo/a.proto'']) ''proto/foo/a.proto'' = None
   \<and> runGetProtoFileSetForRealFilePaths insertionOrder (memBucket [''proto/foo/a.proto'']) [''proto'']
         ([''proto/foo/a.proto''] @ ''proto/foo/a.proto'' # []) False
       = ([''proto/foo/a.proto''], Inl (ErrDuplicateNormalizedFilePath ''proto/foo/a.proto''))"
proof -
  let ?b = "memBucket [''proto/foo/a.proto'']"
  have h1: "newConfig [''proto''] [] = Inr \<lparr>Roots = [''proto''], Excludes = []\<rparr>" by code_simp
  have h2: "checkRealFilePaths ?b False [''proto/foo/a.proto''] [] []
       = ([''proto/foo/a.proto''], Inr [''proto/foo/a.proto''])" by code_simp
  have h3: "''proto/foo/a.proto'' \<in> set [''proto/foo/a.proto'']" by simp
  have h4: "NormalizeAndValidate ''proto/foo/a.proto'' = Inr ''proto/foo/a.proto''" by code_simp
  have h5: "Stat ?b ''proto/foo/a.proto'' = None" by code_simp
  have h6: "runGetProtoFileSetForRealFilePaths insertionOrder ?b [''proto'']
         ([''proto/foo/a.proto''] @ ''proto/foo/a.proto'' # []) False
       = ([''proto/foo/a.proto''], Inl (ErrDuplicateNormalizedFilePath ''proto/foo/a.proto''))"
    using duplicate_of_existing_path_fails [OF h1 h2 h3 h4 h5 h4, of insertionOrder "[]"]
    by (rule conjunct1)
  show ?thesis using h1 h2 h4 h5 h6 by (intro conjI)
qed

text \<open>
  The claim as stated fails: with the file in the bucket the duplicate is reported
  after \<open>Stat\<close> was called for the first occurrence; with the file missing the
  duplicate is not reported at all, the function returns "no input files specified"
  when missing files are tolerated and the error of \<open>Stat\<close> when they are not.
\<close>

theorem duplicate_paths_counterexample:
  "fst (runGetProtoFileSetForRealFilePaths insertionOrder (memBucket [''proto/foo/a.proto''])
          [''proto''] [''proto/foo/a.proto'', ''proto/foo/a.proto''] False)
     = [''proto/foo/a.proto'']
   \<and> GetProtoFileSetForRealFilePaths insertionOrder (memBucket [''proto/foo/b.proto''])
         [''proto''] [''proto/foo/a.proto'', ''proto/foo/a.proto''] True
     = Inl ErrNoInputFilesSpecified
   \<and> GetProtoFileSetForRealFilePaths insertionOrder (memBucket [''proto/foo/b.proto''])
         [''proto''] [''proto/foo/a.proto'', ''proto/foo/a.proto''] False
     = Inl (ErrStorage (NotExist ''proto/foo/a.proto''))"
  by code_simp

text \<open>
  Claim C6. Take explicit paths \<open>[a, b]\<close> under an accepted configuration, where
  \<open>a\<close> exists in the bucket and lies within exactly one root, and \<open>b\<close> does not
  exist. With missing files tolerated the function returns the file set whose mapping
  holds only the logical path of \<open>a\<close>; with missing files not tolerated it fails with
  the error of \<open>Stat\<close>. And whatever the flag: when \<open>Stat\<close> fails for an entry with an
  error other than not-exists, the function fails.
\<close>

theorem missing_file_tolerance:
  "(\<forall>ord b roots cfg a na r k mb nb e.
      newConfig roots [] = Inr cfg \<longrightarrow>
      NormalizeAndValidate a = Inr na \<longrightarrow> Stat b na = None \<longrightarrow>
      MapMatches (SliceToMap (Roots cfg)) na = [r] \<longrightarrow> rootFilePathOf r na = Inr k \<longrightarrow>
      NormalizeAndValidate mb = Inr nb \<longrightarrow> Stat b nb = Some e \<longrightarrow> IsNotExist e \<longrightarrow>
        GetProtoFileSetForRealFilePaths ord b roots [a, mb] True
          = Inr \<lparr>pfsRoots = Roots cfg, pfsRootFilePathToRealFilePath = [(k, na)]\<rparr>
        \<and> GetProtoFileSetForRealFilePaths ord b roots [a, mb] False = Inl (ErrStorage e))
   \<and> (\<forall>ord b roots paths allow p n e.
      p \<in> set paths \<longrightarrow> NormalizeAndValidate p = Inr n \<longrightarrow>
      Stat b n = Some e \<longrightarrow> \<not> IsNotExist e \<longrightarrow>
        (\<exists>err. GetProtoFileSetForRealFilePaths ord b roots paths allow = Inl err))"
proof (intro conjI allI impI)
  fix ord roots cfg a na r k mb nb e and b :: bucket
  assume h: "newConfig roots [] = Inr cfg" "NormalizeAndValidate a = Inr na" "Stat b na = None"
    "MapMatches (SliceToMap (Roots cfg)) na = [r]" "rootFilePathOf r na = Inr k"
    "NormalizeAndValidate mb = Inr nb" "Stat b nb = Some e" "IsNotExist e"
  show "GetProtoFileSetForRealFilePaths ord b roots [a, mb] True
          = Inr \<lparr>pfsRoots = Roots cfg, pfsRootFilePathToRealFilePath = [(k, na)]\<rparr>"
    using h by (rule explicit_tolerance(1))
  show "GetProtoFileSetForRealFilePaths ord b roots [a, mb] False = Inl (ErrStorage e)"
    using h by (rule explicit_tolerance(2))
next
  fix ord roots paths allow p n e and b :: bucket
  assume "p \<in> set paths" "NormalizeAndValidate p = Inr n" "Stat b n = Some e" "\<not> IsNotExist e"
  then show "\<exists>err. GetProtoFileSetForRealFilePaths ord b roots paths allow = Inl err"
    by (rule explicit_stat_failure)
qed

theorem missing_file_tolerance_witness:
  "newConfig [''proto''] [] = Inr \<lparr>Roots = [''proto''], Excludes = []\<rparr>
   \<and> NormalizeAndValidate ''proto/a.proto'' = Inr ''proto/a.proto''
   \<and> Stat (memBucket [''proto/a.proto'']) ''proto/a.proto'' = None
   \<and> MapMatches (SliceToMap [''proto'']) ''proto/a.proto'' = [''proto'']
   \<and> rootFilePathOf ''proto'' ''proto/a.proto'' = Inr ''a.proto''
   \<and> NormalizeAndValidate ''proto/b.proto'' = Inr ''proto/b.proto''
   \<and> Stat (memBucket [''proto/a.proto'']) ''proto/b.proto'' = Some (NotExist ''proto/b.proto'')
   \<and> IsNotExist (NotExist ''proto/b.proto'')
   \<and> GetProtoFileSetForRealFilePaths insertionOrder (memBucket [''proto/a.proto'']) [''proto'']
         [''proto/a.proto'', ''proto/b.proto''] True
       = Inr \<lparr>pfsRoots = [''proto''], pfsRootFilePathToRealFilePath = [(''a.proto'', ''proto/a.proto'')]\<rparr>
   \<and> GetProtoFileSetForRealFilePaths insertionOrder (memBucket [''proto/a.proto'']) [''proto'']
         [''proto/a.proto'', ''proto/b.proto''] False
       = Inl (ErrStorage (NotExist ''proto/b.proto''))
   \<and> Stat brokenBucket ''proto/b.proto'' = Some (StorageFailure ''permission denied'')
   \<and> \<not> IsNotExist (StorageFailure ''permission denied'')
   \<and> (\<exists>err. GetProtoFileSetForRealFilePaths insertionOrder brokenBucket [''proto'']
         [''proto/a.proto'', ''proto/b.proto''] True = Inl err)
   \<and> GetProtoFileSetForRealFilePaths insertionOrder brokenBucket [''proto'']
         [''proto/a.proto'', ''proto/b.proto''] True
       = Inl (ErrStorage (StorageFailure ''permission denied''))"
proof -
  let ?b = "memBucket [''proto/a.proto'']"
  let ?cfg = "\<lparr>Roots = [''proto''], Excludes = []\<rparr>"
  have h1: "newConfig [''proto''] [] = Inr ?cfg" by code_simp
  have h2: "NormalizeAndValidate ''proto/a.proto'' = Inr ''proto/a.proto''" by code_simp
  have h3: "Stat ?b ''proto/a.proto'' = None" by code_simp
  have h4: "MapMatches (SliceToMap [''proto'']) ''proto/a.proto'' = [''proto'']" by code_simp
  then have h4': "MapMatches (SliceToMap (Roots ?cfg)) ''proto/a.proto'' = [''proto'']"
    by (simp only: config.select_convs)
  have h5: "rootFilePathOf ''proto'' ''proto/a.proto'' = Inr ''a.proto''" by code_simp
  have h6: "NormalizeAndValidate ''proto/b.proto'' = Inr ''proto/b.proto''" by code_simp
  have h7: "Stat ?b ''proto/b.proto'' = Some (NotExist ''proto/b.proto'')" by code_simp
  have h8: "IsNotExist (NotExist ''proto/b.proto'')" by simp
  note t = missing_file_tolerance [THEN conjunct1, rule_format, OF h1 h2 h3 h4' h5 h6 h7 h8,
      of insertionOrder]
  have h9: "GetProtoFileSetForRealFilePaths insertionOrder ?b [''proto'']
         [''proto/a.proto'', ''proto/b.proto''] True
       = Inr \<lparr>pfsRoots = [''proto''], pfsRootFilePathToRealFilePath = [(''a.proto'', ''proto/a.proto'')]\<rparr>"
    using t [THEN conjunct1] by (simp only: config.select_convs)
  have h10: "GetProtoFileSetForRealFilePaths insertionOrder ?b [''proto'']
         [''proto/a.proto'', ''proto/b.proto''] False
       = Inl (ErrStorage (NotExist ''proto/b.proto''))"
    using t [THEN conjunct2] .
  have h11: "Stat brokenBucket ''proto/b.proto'' = Some (StorageFailure ''permission denied'')"
    by code_simp
  have h12: "\<not> IsNotExist (StorageFailure ''permission denied'')" by simp
  have h13: "''proto/b.proto'' \<in> set [''proto/a.proto'', ''proto/b.proto'']" by simp
  have h14: "\<exists>err. GetProtoFileSetForRealFilePaths insertionOrder brokenBucket [''proto'']
         [''proto/a.proto'', ''proto/b.proto''] True = Inl err"
    using missing_file_tolerance [THEN conjunct2, rule_format, OF h13 h6 h11 h12] .
  have h15: "GetProtoFileSetForRealFilePaths insertionOrder brokenBucket [''proto'']
         [''proto/a.proto'', ''proto/b.proto''] True
       = Inl (ErrStorage (StorageFailure ''permission denied''))"
    by code_simp
  show ?thesis using h1 h2 h3 h4 h5 h6 h7 h8 h9 h10 h11 h12 h14 h15 by (intro conjI)
qed

text \<open>
  Claim C7, as the code has it. The claim says that a collision in explicit mode has
  the shape of the collision error of the root scan, with the real paths sorted. The
  explicit mode has an error of its own, "file with path %s is within another root as
  %s at %s": it names the real path being resolved, its logical path, and the real
  path that claimed this logical path before. Whenever the function returns this
  error, the two real paths are different, both passed the existence check, and both
  have the logical path named. And when every surviving path has a logical path and
  two different surviving paths share one, the function fails with an error of this
  shape.
\<close>

theorem explicit_collision_error:
  "(\<forall>ord b roots paths allow p k q.
      GetProtoFileSetForRealFilePaths ord b roots paths allow = Inl (ErrWithinAnotherRoot p k q) \<longrightarrow>
        p \<noteq> q
        \<and> (\<exists>cfg calls S. newConfig roots [] = Inr cfg
              \<and> checkRealFilePaths b allow paths [] [] = (calls, Inr S) \<and> p \<in> set S \<and> q \<in> set S
              \<and> rootFilePathIn ord (SliceToMap (Roots cfg)) (Roots cfg) p = Inr k
              \<and> rootFilePathIn ord (SliceToMap (Roots cfg)) (Roots cfg) q = Inr k))
   \<and> (\<forall>ord b roots paths allow cfg calls S p q k.
      newConfig roots [] = Inr cfg \<longrightarrow>
      checkRealFilePaths b allow paths [] [] = (calls, Inr S) \<longrightarrow>
      list_all (\<lambda>x. \<exists>kx. rootFilePathIn ord (SliceToMap (Roots cfg)) (Roots cfg) x = Inr kx) S \<longrightarrow>
      p \<in> set S \<longrightarrow> q \<in> set S \<longrightarrow> p \<noteq> q \<longrightarrow>
      rootFilePathIn ord (SliceToMap (Roots cfg)) (Roots cfg) p = Inr k \<longrightarrow>
      rootFilePathIn ord (SliceToMap (Roots cfg)) (Roots cfg) q = Inr k \<longrightarrow>
        (\<exists>p' k' q'. GetProtoFileSetForRealFilePaths ord b roots paths allow
           = Inl (ErrWithinAnotherRoot p' k' q')))"
proof (intro conjI allI impI)
  fix ord b roots paths allow p k q
  assume "GetProtoFileSetForRealFilePaths ord b roots paths allow = Inl (ErrWithinAnotherRoot p k q)"
  then have r: "p \<noteq> q \<and> (\<exists>cfg calls S. newConfig roots [] = Inr cfg
           \<and> checkRealFilePaths b allow paths [] [] = (calls, Inr S) \<and> p \<in> set S \<and> q \<in> set S
           \<and> rootFilePathIn ord (SliceToMap (Roots cfg)) (Roots cfg) p = Inr k
           \<and> rootFilePathIn ord (SliceToMap (Roots cfg)) (Roots cfg) q = Inr k)"
    by (rule explicit_another_root)
  from r show "p \<noteq> q" by (rule conjunct1)
  from r show "\<exists>cfg calls S. newConfig roots [] = Inr cfg
           \<and> checkRealFilePaths b allow paths [] [] = (calls, Inr S) \<and> p \<in> set S \<and> q \<in> set S
           \<and> rootFilePathIn ord (SliceToMap (Roots cfg)) (Roots cfg) p = Inr k
           \<and> rootFilePathIn ord (SliceToMap (Roots cfg)) (Roots cfg) q = Inr k"
    by (rule conjunct2)
next
  fix ord b roots paths allow calls S p q k and cfg :: config
  assume h: "newConfig roots [] = Inr cfg" "checkRealFilePaths b allow paths [] [] = (calls, Inr S)"
    "p \<in> set S" "q \<in> set S" "p \<noteq> q"
    "rootFilePathIn ord (SliceToMap (Roots cfg)) (Roots cfg) p = Inr k"
    "rootFilePathIn ord (SliceToMap (Roots cfg)) (Roots cfg) q = Inr k"
    and all: "list_all (\<lambda>x. \<exists>kx. rootFilePathIn ord (SliceToMap (Roots cfg)) (Roots cfg) x = Inr kx) S"
  show "\<exists>p' k' q'. GetProtoFileSetForRealFilePaths ord b roots paths allow
           = Inl (ErrWithinAnotherRoot p' k' q')"
    using explicit_collision_fails(2) [OF h all] .
qed

theorem explicit_collision_error_witness:
  "GetProtoFileSetForRealFilePaths insertionOrder (memBucket [''a/x.proto'', ''b/x.proto''])
       [''a'', ''b''] [''a/x.proto'', ''b/x.proto''] False
     = Inl (ErrWithinAnotherRoot ''b/x.proto'' ''x.proto'' ''a/x.proto'')
   \<and> ''b/x.proto'' \<noteq> ''a/x.proto''
   \<and> (\<exists>cfg calls S. newConfig [''a'', ''b''] [] = Inr cfg
         \<and> checkRealFilePaths (memBucket [''a/x.proto'', ''b/x.proto'']) False
              [''a/x.proto'', ''b/x.proto''] [] [] = (calls, Inr S)
         \<and> ''b/x.proto'' \<in> set S \<and> ''a/x.proto'' \<in> set S
         \<and> rootFilePathIn insertionOrder (SliceToMap (Roots cfg)) (Roots cfg) ''b/x.proto'' = Inr ''x.proto''
         \<and> rootFilePathIn insertionOrder (SliceToMap (Roots cfg)) (Roots cfg) ''a/x.proto'' = Inr ''x.proto'')"
proof -
  have h: "GetProtoFileSetForRealFilePaths insertionOrder (memBucket [''a/x.proto'', ''b/x.proto''])
       [''a'', ''b''] [''a/x.proto'', ''b/x.proto''] False
     = Inl (ErrWithinAnotherRoot ''b/x.proto'' ''x.proto'' ''a/x.proto'')"
    by code_simp
  show ?thesis
    using h explicit_collision_error [THEN conjunct1, rule_format, OF h]
    by (intro conjI) blast+
qed


text \<open>
  The claim as stated fails: for the explicit paths \<open>a/x.proto\<close> and \<open>b/x.proto\<close>
  under the roots \<open>a\<close> and \<open>b\<close> the error is not the one of the root scan. When the
  map of the surviving paths is visited in the order of insertion the error names
  \<open>b/x.proto\<close> before \<open>a/x.proto\<close>, which is not the sorted order; when it is visited
  in the other order the error names them the other way round. The root scan of the
  same bucket returns its collision error with the two paths sorted.
\<close>

theorem explicit_collision_counterexample:
  "GetProtoFileSetForRealFilePaths insertionOrder (memBucket [''a/x.proto'', ''b/x.proto''])
       [''a'', ''b''] [''a/x.proto'', ''b/x.proto''] False
     = Inl (ErrWithinAnotherRoot ''b/x.proto'' ''x.proto'' ''a/x.proto'')
   \<and> \<not> sorted [''b/x.proto'', ''a/x.proto'']
   \<and> GetProtoFileSetForRealFilePaths (insertionOrder\<lparr>range154 := [1]\<rparr>)
       (memBucket [''a/x.proto'', ''b/x.proto'']) [''a'', ''b''] [''a/x.proto'', ''b/x.proto''] False
     = Inl (ErrWithinAnotherRoot ''a/x.proto'' ''x.proto'' ''b/x.proto'')
   \<and> GetProtoFileSetForBucket insertionOrder (memBucket [''a/x.proto'', ''b/x.proto''])
       [''a'', ''b''] []
     = Inl (ErrWithinMultipleRoots ''x.proto'' [''a/x.proto'', ''b/x.proto''])"
  by code_simp


text \<open>
  Claim C8, the invariant of the file set, stated over the files of the bucket and over
  the paths given. A file set returned by either entry point has a non-empty mapping
  whose logical paths are pairwise different. After a successful root scan every entry
  of the mapping is a \<open>.proto\<close> file that the walk of a root enumerates, under its path
  relative to that root, and is not excluded; and every such file that is not excluded
  is the one real path of its logical path. Where two different \<open>.proto\<close> files under
  the roots have the same logical path, and where every \<open>.proto\<close> file under the roots
  is excluded (or there is none), the root scan returns an error and no set. In the
  explicit mode the same holds of the paths given that normalise and exist in the
  bucket: the mapping holds exactly these, two different ones with the same logical
  path give an error, and so does a list none of whose paths exists; where every path
  is missing and missing files are tolerated the error is "no input files specified".
\<close>

theorem file_set_invariant:
  "(\<forall>ord b roots excludes pfs.
      GetProtoFileSetForBucket ord b roots excludes = Inr pfs \<longrightarrow>
        pfsRootFilePathToRealFilePath pfs \<noteq> []
        \<and> distinct (map fst (pfsRootFilePathToRealFilePath pfs)))
   \<and> (\<forall>ord b roots paths allow pfs.
      GetProtoFileSetForRealFilePaths ord b roots paths allow = Inr pfs \<longrightarrow>
        pfsRootFilePathToRealFilePath pfs \<noteq> []
        \<and> distinct (map fst (pfsRootFilePathToRealFilePath pfs)))
   \<and> (\<forall>ord b roots excludes pfs cfg k p.
      GetProtoFileSetForBucket ord b roots excludes = Inr pfs \<longrightarrow>
      newConfig roots excludes = Inr cfg \<longrightarrow>
      (k, p) \<in> set (pfsRootFilePathToRealFilePath pfs) \<longrightarrow>
        (\<exists>r\<in>set (Roots cfg). p \<in> set (walked b r) \<and> Ext p = ''.proto''
            \<and> rootFilePathOf r p = Inr k)
        \<and> \<not> MapContainsMatch (SliceToMap (Excludes cfg)) (Dir p))
   \<and> (\<forall>ord b roots excludes pfs cfg r p k.
      GetProtoFileSetForBucket ord b roots excludes = Inr pfs \<longrightarrow>
      newConfig roots excludes = Inr cfg \<longrightarrow>
      r \<in> set (Roots cfg) \<longrightarrow> p \<in> set (walked b r) \<longrightarrow> Ext p = ''.proto'' \<longrightarrow>
      rootFilePathOf r p = Inr k \<longrightarrow>
      \<not> MapContainsMatch (SliceToMap (Excludes cfg)) (Dir p) \<longrightarrow>
        map_of (pfsRootFilePathToRealFilePath pfs) k = Some p)
   \<and> (\<forall>ord b roots excludes cfg r1 r2 p1 p2 k.
      newConfig roots excludes = Inr cfg \<longrightarrow>
      r1 \<in> set (Roots cfg) \<longrightarrow> r2 \<in> set (Roots cfg) \<longrightarrow>
      p1 \<in> set (walked b r1) \<longrightarrow> p2 \<in> set (walked b r2) \<longrightarrow>
      Ext p1 = ''.proto'' \<longrightarrow> Ext p2 = ''.proto'' \<longrightarrow>
      rootFilePathOf r1 p1 = Inr k \<longrightarrow> rootFilePathOf r2 p2 = Inr k \<longrightarrow> p1 \<noteq> p2 \<longrightarrow>
        (\<exists>e. GetProtoFileSetForBucket ord b roots excludes = Inl e))
   \<and> (\<forall>ord b roots excludes cfg.
      newConfig roots excludes = Inr cfg \<longrightarrow>
      (\<forall>r\<in>set (Roots cfg). \<forall>p\<in>set (walked b r).
          Ext p = ''.proto'' \<longrightarrow> MapContainsMatch (SliceToMap (Excludes cfg)) (Dir p)) \<longrightarrow>
        (\<exists>e. GetProtoFileSetForBucket ord b roots excludes = Inl e))
   \<and> (\<forall>ord b roots paths allow pfs cfg k n.
      GetProtoFileSetForRealFilePaths ord b roots paths allow = Inr pfs \<longrightarrow>
      newConfig roots [] = Inr cfg \<longrightarrow>
      (k, n) \<in> set (pfsRootFilePathToRealFilePath pfs) \<longrightarrow>
        (\<exists>p\<in>set paths. NormalizeAndValidate p = Inr n) \<and> Stat b n = None
        \<and> rootFilePathIn ord (SliceToMap (Roots cfg)) (Roots cfg) n = Inr k)
   \<and> (\<forall>ord b roots paths allow pfs cfg p n k.
      GetProtoFileSetForRealFilePaths ord b roots paths allow = Inr pfs \<longrightarrow>
      newConfig roots [] = Inr cfg \<longrightarrow>
      p \<in> set paths \<longrightarrow> NormalizeAndValidate p = Inr n \<longrightarrow> Stat b n = None \<longrightarrow>
      rootFilePathIn ord (SliceToMap (Roots cfg)) (Roots cfg) n = Inr k \<longrightarrow>
        map_of (pfsRootFilePathToRealFilePath pfs) k = Some n)
   \<and> (\<forall>ord b roots paths allow cfg p n q n' k.
      newConfig roots [] = Inr cfg \<longrightarrow>
      p \<in> set paths \<longrightarrow> NormalizeAndValidate p = Inr n \<longrightarrow> Stat b n = None \<longrightarrow>
      q \<in> set paths \<longrightarrow> NormalizeAndValidate q = Inr n' \<longrightarrow> Stat b n' = None \<longrightarrow>
      rootFilePathIn ord (SliceToMap (Roots cfg)) (Roots cfg) n = Inr k \<longrightarrow>
      rootFilePathIn ord (SliceToMap (Roots cfg)) (Roots cfg) n' = Inr k \<longrightarrow> n \<noteq> n' \<longrightarrow>
        (\<exists>e. GetProtoFileSetForRealFilePaths ord b roots paths allow = Inl e))
   \<and> (\<forall>ord b roots paths allow.
      (\<forall>p\<in>set paths. \<forall>n. NormalizeAndValidate p = Inr n \<longrightarrow> Stat b n \<noteq> None) \<longrightarrow>
        (\<exists>e. GetProtoFileSetForRealFilePaths ord b roots paths allow = Inl e))
   \<and> (\<forall>ord b roots paths allow cfg.
      newConfig roots [] = Inr cfg \<longrightarrow>
      (\<forall>p\<in>set paths. \<exists>n e. NormalizeAndValidate p = Inr n \<and> Stat b n = Some e
          \<and> IsNotExist e \<and> allow) \<longrightarrow>
        GetProtoFileSetForRealFilePaths ord b roots paths allow = Inl ErrNoInputFilesSpecified)"
proof -
  have A: "\<forall>ord b roots excludes pfs.
      GetProtoFileSetForBucket ord b roots excludes = Inr pfs \<longrightarrow>
        pfsRootFilePathToRealFilePath pfs \<noteq> []
        \<and> distinct (map fst (pfsRootFilePathToRealFilePath pfs))"
    by (intro allI impI) (rule GetProtoFileSetForBucket_nonempty)
  have B: "\<forall>ord b roots paths allow pfs.
      GetProtoFileSetForRealFilePaths ord b roots paths allow = Inr pfs \<longrightarrow>
        pfsRootFilePathToRealFilePath pfs \<noteq> []
        \<and> distinct (map fst (pfsRootFilePathToRealFilePath pfs))"
    by (intro allI impI) (rule explicit_nonempty)
  have C: "\<forall>ord b roots excludes pfs cfg k p.
      GetProtoFileSetForBucket ord b roots excludes = Inr pfs \<longrightarrow>
      newConfig roots excludes = Inr cfg \<longrightarrow>
      (k, p) \<in> set (pfsRootFilePathToRealFilePath pfs) \<longrightarrow>
        (\<exists>r\<in>set (Roots cfg). p \<in> set (walked b r) \<and> Ext p = ''.proto''
            \<and> rootFilePathOf r p = Inr k)
        \<and> \<not> MapContainsMatch (SliceToMap (Excludes cfg)) (Dir p)"
    by (intro allI impI) (rule scan_entry_sound)
  have D: "\<forall>ord b roots excludes pfs cfg r p k.
      GetProtoFileSetForBucket ord b roots excludes = Inr pfs \<longrightarrow>
      newConfig roots excludes = Inr cfg \<longrightarrow>
      r \<in> set (Roots cfg) \<longrightarrow> p \<in> set (walked b r) \<longrightarrow> Ext p = ''.proto'' \<longrightarrow>
      rootFilePathOf r p = Inr k \<longrightarrow>
      \<not> MapContainsMatch (SliceToMap (Excludes cfg)) (Dir p) \<longrightarrow>
        map_of (pfsRootFilePathToRealFilePath pfs) k = Some p"
    by (intro allI impI) (rule scan_maps_file)
  have E: "\<forall>ord b roots excludes cfg r1 r2 p1 p2 k.
      newConfig roots excludes = Inr cfg \<longrightarrow>
      r1 \<in> set (Roots cfg) \<longrightarrow> r2 \<in> set (Roots cfg) \<longrightarrow>
      p1 \<in> set (walked b r1) \<longrightarrow> p2 \<in> set (walked b r2) \<longrightarrow>
      Ext p1 = ''.proto'' \<longrightarrow> Ext p2 = ''.proto'' \<longrightarrow>
      rootFilePathOf r1 p1 = Inr k \<longrightarrow> rootFilePathOf r2 p2 = Inr k \<longrightarrow> p1 \<noteq> p2 \<longrightarrow>
        (\<exists>e. GetProtoFileSetForBucket ord b roots excludes = Inl e)"
    by (intro allI impI) (rule scan_collision_fails)
  have F: "\<forall>ord b roots excludes cfg.
      newConfig roots excludes = Inr cfg \<longrightarrow>
      (\<forall>r\<in>set (Roots cfg). \<forall>p\<in>set (walked b r).
          Ext p = ''.proto'' \<longrightarrow> MapContainsMatch (SliceToMap (Excludes cfg)) (Dir p)) \<longrightarrow>
        (\<exists>e. GetProtoFileSetForBucket ord b roots excludes = Inl e)"
    by (intro allI impI) (rule scan_all_excluded_fails)
  have G: "\<forall>ord b roots paths allow pfs cfg k n.
      GetProtoFileSetForRealFilePaths ord b roots paths allow = Inr pfs \<longrightarrow>
      newConfig roots [] = Inr cfg \<longrightarrow>
      (k, n) \<in> set (pfsRootFilePathToRealFilePath pfs) \<longrightarrow>
        (\<exists>p\<in>set paths. NormalizeAndValidate p = Inr n) \<and> Stat b n = None
        \<and> rootFilePathIn ord (SliceToMap (Roots cfg)) (Roots cfg) n = Inr k"
    by (intro allI impI) (rule explicit_entry_sound)
  have H: "\<forall>ord b roots paths allow pfs cfg p n k.
      GetProtoFileSetForRealFilePaths ord b roots paths allow = Inr pfs \<longrightarrow>
      newConfig roots [] = Inr cfg \<longrightarrow>
      p \<in> set paths \<longrightarrow> NormalizeAndValidate p = Inr n \<longrightarrow> Stat b n = None \<longrightarrow>
      rootFilePathIn ord (SliceToMap (Roots cfg)) (Roots cfg) n = Inr k \<longrightarrow>
        map_of (pfsRootFilePathToRealFilePath pfs) k = Some n"
    by (intro allI impI) (rule explicit_maps_file)
  have I: "\<forall>ord b roots paths allow cfg p n q n' k.
      newConfig roots [] = Inr cfg \<longrightarrow>
      p \<in> set paths \<longrightarrow> NormalizeAndValidate p = Inr n \<longrightarrow> Stat b n = None \<longrightarrow>
      q \<in> set paths \<longrightarrow> NormalizeAndValidate q = Inr n' \<longrightarrow> Stat b n' = None \<longrightarrow>
      rootFilePathIn ord (SliceToMap (Roots cfg)) (Roots cfg) n = Inr k \<longrightarrow>
      rootFilePathIn ord (SliceToMap (Roots cfg)) (Roots cfg) n' = Inr k \<longrightarrow> n \<noteq> n' \<longrightarrow>
        (\<exists>e. GetProtoFileSetForRealFilePaths ord b roots paths allow = Inl e)"
    by (intro allI impI) (rule explicit_input_collision_fails)
  have J: "\<forall>ord b roots paths allow.
      (\<forall>p\<in>set paths. \<forall>n. NormalizeAndValidate p = Inr n \<longrightarrow> Stat b n \<noteq> None) \<longrightarrow>
        (\<exists>e. GetProtoFileSetForRealFilePaths ord b roots paths allow = Inl e)"
    by (intro allI impI) (rule explicit_no_survivor_fails)
  have K: "\<forall>ord b roots paths allow cfg.
      newConfig roots [] = Inr cfg \<longrightarrow>
      (\<forall>p\<in>set paths. \<exists>n e. NormalizeAndValidate p = Inr n \<and> Stat b n = Some e
          \<and> IsNotExist e \<and> allow) \<longrightarrow>
        GetProtoFileSetForRealFilePaths ord b roots paths allow = Inl ErrNoInputFilesSpecified"
    by (intro allI impI) (rule explicit_all_missing)
  show ?thesis using A B C D E F G H I J K by (intro conjI)
qed


theorem file_set_invariant_witness:
  "GetProtoFileSetForBucket insertionOrder (memBucket [''proto/foo/a.proto'', ''proto/foo/b.proto''])
       [''proto''] [''proto/bar'']
     = Inr \<lparr>pfsRoots = [''proto''], pfsRootFilePathToRealFilePath =
              [(''foo/a.proto'', ''proto/foo/a.proto''), (''foo/b.proto'', ''proto/foo/b.proto'')]\<rparr>
   \<and> [(''foo/a.proto'', ''proto/foo/a.proto''), (''foo/b.proto'', ''proto/foo/b.proto'')] \<noteq> []
   \<and> distinct (map fst [(''foo/a.proto'', ''proto/foo/a.proto''), (''foo/b.proto'', ''proto/foo/b.proto'')])
   \<and> GetProtoFileSetForRealFilePaths insertionOrder (memBucket [''proto/foo/a.proto'', ''proto/foo/b.proto''])
       [''proto''] [''proto/foo/b.proto''] False
     = Inr \<lparr>pfsRoots = [''proto''], pfsRootFilePathToRealFilePath = [(''foo/b.proto'', ''proto/foo/b.proto'')]\<rparr>
   \<and> [(''foo/b.proto'', ''proto/foo/b.proto'')] \<noteq> []
   \<and> distinct (map fst [(''foo/b.proto'', ''proto/foo/b.proto'')])
   \<and> newConfig [''proto''] [''proto/bar''] = Inr \<lparr>Roots = [''proto''], Excludes = [''proto/bar'']\<rparr>
   \<and> (\<exists>r\<in>set [''proto''].
         ''proto/foo/a.proto'' \<in> set (walked (memBucket [''proto/foo/a.proto'', ''proto/foo/b.proto'']) r)
         \<and> Ext ''proto/foo/a.proto'' = ''.proto''
         \<and> rootFilePathOf r ''proto/foo/a.proto'' = Inr ''foo/a.proto'')
   \<and> \<not> MapContainsMatch (SliceToMap [''proto/bar'']) (Dir ''proto/foo/a.proto'')
   \<and> ''proto/foo/b.proto'' \<in> set (walked (memBucket [''proto/foo/a.proto'', ''proto/foo/b.proto'']) ''proto'')
   \<and> rootFilePathOf ''proto'' ''proto/foo/b.proto'' = Inr ''foo/b.proto''
   \<and> map_of [(''foo/a.proto'', ''proto/foo/a.proto''), (''foo/b.proto'', ''proto/foo/b.proto'')]
        ''foo/b.proto'' = Some ''proto/foo/b.proto''
   \<and> newConfig [''a'', ''b''] [] = Inr \<lparr>Roots = [''a'', ''b''], Excludes = []\<rparr>
   \<and> ''a/x.proto'' \<in> set (walked (memBucket [''a/x.proto'', ''b/x.proto'']) ''a'')
   \<and> ''b/x.proto'' \<in> set (walked (memBucket [''a/x.proto'', ''b/x.proto'']) ''b'')
   \<and> rootFilePathOf ''a'' ''a/x.proto'' = Inr ''x.proto''
   \<and> rootFilePathOf ''b'' ''b/x.proto'' = Inr ''x.proto''
   \<and> (\<exists>e. GetProtoFileSetForBucket insertionOrder (memBucket [''a/x.proto'', ''b/x.proto''])
         [''a'', ''b''] [] = Inl e)
   \<and> newConfig [''proto''] [''proto/foo''] = Inr \<lparr>Roots = [''proto''], Excludes = [''proto/foo'']\<rparr>
   \<and> (\<exists>e. GetProtoFileSetForBucket insertionOrder (memBucket [''proto/foo/a.proto'', ''proto/foo/b.proto''])
         [''proto''] [''proto/foo''] = Inl e)
   \<and> newConfig [''proto''] [] = Inr \<lparr>Roots = [''proto''], Excludes = []\<rparr>
   \<and> (\<exists>p\<in>set [''proto/foo/b.proto'']. NormalizeAndValidate p = Inr ''proto/foo/b.proto'')
   \<and> Stat (memBucket [''proto/foo/a.proto'', ''proto/foo/b.proto'']) ''proto/foo/b.proto'' = None
   \<and> rootFilePathIn insertionOrder (SliceToMap [''proto'']) [''proto''] ''proto/foo/b.proto''
       = Inr ''foo/b.proto''
   \<and> map_of [(''foo/b.proto'', ''proto/foo/b.proto'')] ''foo/b.proto'' = Some ''proto/foo/b.proto''
   \<and> NormalizeAndValidate ''a/x.proto'' = Inr ''a/x.proto''
   \<and> NormalizeAndValidate ''b/x.proto'' = Inr ''b/x.proto''
   \<and> Stat (memBucket [''a/x.proto'', ''b/x.proto'']) ''a/x.proto'' = None
   \<and> Stat (memBucket [''a/x.proto'', ''b/x.proto'']) ''b/x.proto'' = None
   \<and> rootFilePathIn insertionOrder (SliceToMap [''a'', ''b'']) [''a'', ''b''] ''a/x.proto'' = Inr ''x.proto''
   \<and> rootFilePathIn insertionOrder (SliceToMap [''a'', ''b'']) [''a'', ''b''] ''b/x.proto'' = Inr ''x.proto''
   \<and> (\<exists>e. GetProtoFileSetForRealFilePaths insertionOrder (memBucket [''a/x.proto'', ''b/x.proto''])
         [''a'', ''b''] [''a/x.proto'', ''b/x.proto''] False = Inl e)
   \<and> Stat (memBucket []) ''a/x.proto'' = Some (NotExist ''a/x.proto'')
   \<and> IsNotExist (NotExist ''a/x.proto'')
   \<and> (\<exists>e. GetProtoFileSetForRealFilePaths insertionOrder (memBucket []) [''a'', ''b'']
         [''a/x.proto''] False = Inl e)
   \<and> GetProtoFileSetForRealFilePaths insertionOrder (memBucket []) [''a'', ''b''] [''a/x.proto''] True
       = Inl ErrNoInputFilesSpecified"
proof -
  let ?b = "memBucket [''proto/foo/a.proto'', ''proto/foo/b.proto'']"
  let ?c = "memBucket [''a/x.proto'', ''b/x.proto'']"
  let ?cfgb = "\<lparr>Roots = [''proto''], Excludes = [''proto/bar'']\<rparr>"
  let ?cfgx = "\<lparr>Roots = [''proto''], Excludes = [''proto/foo'']\<rparr>"
  let ?cfgp = "\<lparr>Roots = [''proto''], Excludes = []\<rparr>"
  let ?cfg = "\<lparr>Roots = [''a'', ''b''], Excludes = []\<rparr>"
  let ?p = "\<lparr>pfsRoots = [''proto''], pfsRootFilePathToRealFilePath =
              [(''foo/a.proto'', ''proto/foo/a.proto''), (''foo/b.proto'', ''proto/foo/b.proto'')]\<rparr>"
  let ?q = "\<lparr>pfsRoots = [''proto''], pfsRootFilePathToRealFilePath = [(''foo/b.proto'', ''proto/foo/b.proto'')]\<rparr>"
  have a1: "GetProtoFileSetForBucket insertionOrder ?b [''proto''] [''proto/bar''] = Inr ?p"
    by code_simp
  have a23: "[(''foo/a.proto'', ''proto/foo/a.proto''), (''foo/b.proto'', ''proto/foo/b.proto'')] \<noteq> []
     \<and> distinct (map fst [(''foo/a.proto'', ''proto/foo/a.proto''), (''foo/b.proto'', ''proto/foo/b.proto'')])"
    using file_set_invariant [THEN conjunct1, rule_format, OF a1]
    unfolding ProtoFileSet.select_convs .
  have a2: "[(''foo/a.proto'', ''proto/foo/a.proto''), (''foo/b.proto'', ''proto/foo/b.proto'')] \<noteq> []"
    using a23 by (rule conjunct1)
  have a3: "distinct (map fst [(''foo/a.proto'', ''proto/foo/a.proto''), (''foo/b.proto'', ''proto/foo/b.proto'')])"
    using a23 by (rule conjunct2)
  have b1: "GetProtoFileSetForRealFilePaths insertionOrder ?b [''proto''] [''proto/foo/b.proto''] False = Inr ?q"
    by code_simp
  have b23: "[(''foo/b.proto'', ''proto/foo/b.proto'')] \<noteq> []
     \<and> distinct (map fst [(''foo/b.proto'', ''proto/foo/b.proto'')])"
    using file_set_invariant [THEN conjunct2, THEN conjunct1, rule_format, OF b1]
    unfolding ProtoFileSet.select_convs .
  have b2: "[(''foo/b.proto'', ''proto/foo/b.proto'')] \<noteq> []"
    using b23 by (rule conjunct1)
  have b3: "distinct (map fst [(''foo/b.proto'', ''proto/foo/b.proto'')])"
    using b23 by (rule conjunct2)
  have c1: "newConfig [''proto''] [''proto/bar''] = Inr ?cfgb" by code_simp
  have c2: "(''foo/a.proto'', ''proto/foo/a.proto'') \<in> set (pfsRootFilePathToRealFilePath ?p)"
    by simp
  have c34: "(\<exists>r\<in>set [''proto''].
         ''proto/foo/a.proto'' \<in> set (walked ?b r)
         \<and> Ext ''proto/foo/a.proto'' = ''.proto''
         \<and> rootFilePathOf r ''proto/foo/a.proto'' = Inr ''foo/a.proto'')
     \<and> \<not> MapContainsMatch (SliceToMap [''proto/bar'']) (Dir ''proto/foo/a.proto'')"
    using file_set_invariant [THEN conjunct2, THEN conjunct2, THEN conjunct1, rule_format,
        OF a1 c1 c2]
    unfolding config.select_convs .
  have c3: "\<exists>r\<in>set [''proto''].
         ''proto/foo/a.proto'' \<in> set (walked ?b r)
         \<and> Ext ''proto/foo/a.proto'' = ''.proto''
         \<and> rootFilePathOf r ''proto/foo/a.proto'' = Inr ''foo/a.proto''"
    using c34 by (rule conjunct1)
  have c4: "\<not> MapContainsMatch (SliceToMap [''proto/bar'']) (Dir ''proto/foo/a.proto'')"
    using c34 by (rule conjunct2)
  have d1: "''proto'' \<in> set (Roots ?cfgb)" by simp
  have d2: "''proto/foo/b.proto'' \<in> set (walked ?b ''proto'')" by code_simp
  have d3: "Ext ''proto/foo/b.proto'' = ''.proto''" by code_simp
  have d4: "rootFilePathOf ''proto'' ''proto/foo/b.proto'' = Inr ''foo/b.proto''" by code_simp
  have d5: "\<not> MapContainsMatch (SliceToMap (Excludes ?cfgb)) (Dir ''proto/foo/b.proto'')"
    by code_simp
  have d6: "map_of [(''foo/a.proto'', ''proto/foo/a.proto''), (''foo/b.proto'', ''proto/foo/b.proto'')]
        ''foo/b.proto'' = Some ''proto/foo/b.proto''"
    using file_set_invariant [THEN conjunct2, THEN conjunct2, THEN conjunct2, THEN conjunct1,
        rule_format, OF a1 c1 d1 d2 d3 d4 d5]
    unfolding ProtoFileSet.select_convs .
  have e1: "newConfig [''a'', ''b''] [] = Inr ?cfg" by code_simp
  have e2: "''a'' \<in> set (Roots ?cfg)" "''b'' \<in> set (Roots ?cfg)" by simp_all
  have e3: "''a/x.proto'' \<in> set (walked ?c ''a'')" by code_simp
  have e4: "''b/x.proto'' \<in> set (walked ?c ''b'')" by code_simp
  have e5: "Ext ''a/x.proto'' = ''.proto''" "Ext ''b/x.proto'' = ''.proto''" by code_simp+
  have e6: "rootFilePathOf ''a'' ''a/x.proto'' = Inr ''x.proto''" by code_simp
  have e7: "rootFilePathOf ''b'' ''b/x.proto'' = Inr ''x.proto''" by code_simp
  have e8: "''a/x.proto'' \<noteq> ''b/x.proto''" by simp
  have e9: "\<exists>e. GetProtoFileSetForBucket insertionOrder ?c [''a'', ''b''] [] = Inl e"
    using file_set_invariant [THEN conjunct2, THEN conjunct2, THEN conjunct2, THEN conjunct2,
        THEN conjunct1, rule_format, OF e1 e2 e3 e4 e5 e6 e7 e8] .
  have f1: "newConfig [''proto''] [''proto/foo''] = Inr ?cfgx" by code_simp
  have f2: "\<forall>r\<in>set (Roots ?cfgx). \<forall>p\<in>set (walked ?b r).
          Ext p = ''.proto'' \<longrightarrow> MapContainsMatch (SliceToMap (Excludes ?cfgx)) (Dir p)"
    by code_simp
  have f3: "\<exists>e. GetProtoFileSetForBucket insertionOrder ?b [''proto''] [''proto/foo''] = Inl e"
    using file_set_invariant [THEN conjunct2, THEN conjunct2, THEN conjunct2, THEN conjunct2,
        THEN conjunct2, THEN conjunct1, rule_format (no_asm), OF f1 f2] .
  have g1: "newConfig [''proto''] [] = Inr ?cfgp" by code_simp
  have g2: "(''foo/b.proto'', ''proto/foo/b.proto'') \<in> set (pfsRootFilePathToRealFilePath ?q)"
    by simp
  have g345: "(\<exists>p\<in>set [''proto/foo/b.proto'']. NormalizeAndValidate p = Inr ''proto/foo/b.proto'')
     \<and> Stat ?b ''proto/foo/b.proto'' = None
     \<and> rootFilePathIn insertionOrder (SliceToMap [''proto'']) [''proto''] ''proto/foo/b.proto''
         = Inr ''foo/b.proto''"
    using file_set_invariant [THEN conjunct2, THEN conjunct2, THEN conjunct2, THEN conjunct2,
        THEN conjunct2, THEN conjunct2, THEN conjunct1, rule_format, OF b1 g1 g2]
    unfolding config.select_convs .
  have g3: "\<exists>p\<in>set [''proto/foo/b.proto'']. NormalizeAndValidate p = Inr ''proto/foo/b.proto''"
    using g345 by (rule conjunct1)
  have g4: "Stat ?b ''proto/foo/b.proto'' = None"
    using g345 [THEN conjunct2] by (rule conjunct1)
  have g5: "rootFilePathIn insertionOrder (SliceToMap [''proto'']) [''proto''] ''proto/foo/b.proto''
         = Inr ''foo/b.proto''"
    using g345 [THEN conjunct2] by (rule conjunct2)
  have h1: "''proto/foo/b.proto'' \<in> set [''proto/foo/b.proto'']" by simp
  have h2: "NormalizeAndValidate ''proto/foo/b.proto'' = Inr ''proto/foo/b.proto''" by code_simp
  have h3: "Stat ?b ''proto/foo/b.proto'' = None" by code_simp
  have h4: "rootFilePathIn insertionOrder (SliceToMap (Roots ?cfgp)) (Roots ?cfgp) ''proto/foo/b.proto''
         = Inr ''foo/b.proto''"
    by code_simp
  have h5: "map_of [(''foo/b.proto'', ''proto/foo/b.proto'')] ''foo/b.proto'' = Some ''proto/foo/b.proto''"
    using file_set_invariant [THEN conjunct2, THEN conjunct2, THEN conjunct2, THEN conjunct2,
        THEN conjunct2, THEN conjunct2, THEN conjunct2, THEN conjunct1, rule_format,
        OF b1 g1 h1 h2 h3 h4]
    unfolding ProtoFileSet.select_convs .
  have i1: "''a/x.proto'' \<in> set [''a/x.proto'', ''b/x.proto'']"
    "''b/x.proto'' \<in> set [''a/x.proto'', ''b/x.proto'']"
    by simp_all
  have i2: "NormalizeAndValidate ''a/x.proto'' = Inr ''a/x.proto''" by code_simp
  have i3: "NormalizeAndValidate ''b/x.proto'' = Inr ''b/x.proto''" by code_simp
  have i4: "Stat ?c ''a/x.proto'' = None" by code_simp
  have i5: "Stat ?c ''b/x.proto'' = None" by code_simp
  have i6: "rootFilePathIn insertionOrder (SliceToMap [''a'', ''b'']) [''a'', ''b''] ''a/x.proto'' = Inr ''x.proto''"
    by code_simp
  have i7: "rootFilePathIn insertionOrder (SliceToMap [''a'', ''b'']) [''a'', ''b''] ''b/x.proto'' = Inr ''x.proto''"
    by code_simp
  have i6': "rootFilePathIn insertionOrder (SliceToMap (Roots ?cfg)) (Roots ?cfg) ''a/x.proto'' = Inr ''x.proto''"
    using i6 by (simp only: config.select_convs)
  have i7': "rootFilePathIn insertionOrder (SliceToMap (Roots ?cfg)) (Roots ?cfg) ''b/x.proto'' = Inr ''x.proto''"
    using i7 by (simp only: config.select_convs)
  have i8: "\<exists>e. GetProtoFileSetForRealFilePaths insertionOrder ?c [''a'', ''b'']
        [''a/x.proto'', ''b/x.proto''] False = Inl e"
    using file_set_invariant [THEN conjunct2, THEN conjunct2, THEN conjunct2, THEN conjunct2,
        THEN conjunct2, THEN conjunct2, THEN conjunct2, THEN conjunct2, THEN conjunct1,
        rule_format, OF e1 i1(1) i2 i4 i1(2) i3 i5 i6' i7' e8] .
  have j1: "Stat (memBucket []) ''a/x.proto'' = Some (NotExist ''a/x.proto'')" by code_simp
  have j2: "IsNotExist (NotExist ''a/x.proto'')" by code_simp
  have j3: "\<forall>p\<in>set [''a/x.proto'']. \<forall>n. NormalizeAndValidate p = Inr n \<longrightarrow> Stat (memBucket []) n \<noteq> None"
    by (simp add: i2 j1)
  have j4: "\<exists>e. GetProtoFileSetForRealFilePaths insertionOrder (memBucket []) [''a'', ''b'']
         [''a/x.proto''] False = Inl e"
    using file_set_invariant [THEN conjunct2, THEN conjunct2, THEN conjunct2, THEN conjunct2,
        THEN conjunct2, THEN conjunct2, THEN conjunct2, THEN conjunct2, THEN conjunct2,
        THEN conjunct1, rule_format (no_asm), OF j3] .
  have k1: "\<forall>p\<in>set [''a/x.proto'']. \<exists>n e. NormalizeAndValidate p = Inr n
        \<and> Stat (memBucket []) n = Some e \<and> IsNotExist e \<and> True"
    by (simp add: i2 j1 j2)
  have k2: "GetProtoFileSetForRealFilePaths insertionOrder (memBucket []) [''a'', ''b''] [''a/x.proto''] True
       = Inl ErrNoInputFilesSpecified"
    using file_set_invariant [THEN conjunct2, THEN conjunct2, THEN conjunct2, THEN conjunct2,
        THEN conjunct2, THEN conjunct2, THEN conjunct2, THEN conjunct2, THEN conjunct2,
        THEN conjunct2, rule_format (no_asm), OF e1 k1] .
  show ?thesis
    using a1 a2 a3 b1 b2 b3 c1 c3 c4 d2 d4 d6 e1 e3 e4 e6 e7 e9 f1 f3 g1 g3 g4 g5 h5
      i2 i3 i4 i5 i6 i7 i8 j1 j2 j4 k2
    by (intro conjI)
qed

text \<open>
  Claim C9. The root scan never returns the error "no real file path for file path":
  whatever the bucket, the roots, the excludes and the iteration order. The reason is
  the invariant of the accumulation: every key of the map the walks build holds at
  least one real path.
\<close>

theorem no_real_file_path_error_unreachable:
  "(\<forall>ord b roots excludes k.
      GetProtoFileSetForBucket ord b roots excludes \<noteq> Inl (ErrNoRealFilePath k))
   \<and> (\<forall>b roots m k ps. walkRoots b roots [] = Inr m \<longrightarrow> (k, ps) \<in> set m \<longrightarrow> ps \<noteq> [])"
proof (intro conjI allI impI)
  fix ord b roots excludes k
  show "GetProtoFileSetForBucket ord b roots excludes \<noteq> Inl (ErrNoRealFilePath k)"
  proof
    assume "GetProtoFileSetForBucket ord b roots excludes = Inl (ErrNoRealFilePath k)"
    then show False using GetProtoFileSetForBucket_Inl by fastforce
  qed
next
  fix b roots m k ps
  assume m: "walkRoots b roots [] = Inr m" and kps: "(k, ps) \<in> set m"
  have "accInv m" using walkRoots_Inr [OF m accInv_Nil] by simp
  then show "ps \<noteq> []" using accInv_set kps by blast
qed

theorem no_real_file_path_error_unreachable_witness:
  "walkRoots (memBucket [''proto/foo/a.proto'', ''proto/foo/b.proto'']) [''proto''] []
     = Inr [(''foo/a.proto'', [''proto/foo/a.proto'']), (''foo/b.proto'', [''proto/foo/b.proto''])]
   \<and> (''foo/b.proto'', [''proto/foo/b.proto''])
        \<in> set [(''foo/a.proto'', [''proto/foo/a.proto'']), (''foo/b.proto'', [''proto/foo/b.proto''])]
   \<and> [''proto/foo/b.proto''] \<noteq> []
   \<and> GetProtoFileSetForBucket insertionOrder (memBucket []) [''proto''] []
        \<noteq> Inl (ErrNoRealFilePath ''foo/a.proto'')"
proof -
  have h1: "walkRoots (memBucket [''proto/foo/a.proto'', ''proto/foo/b.proto'']) [''proto''] []
     = Inr [(''foo/a.proto'', [''proto/foo/a.proto'']), (''foo/b.proto'', [''proto/foo/b.proto''])]"
    by code_simp
  have h2: "(''foo/b.proto'', [''proto/foo/b.proto''])
        \<in> set [(''foo/a.proto'', [''proto/foo/a.proto'']), (''foo/b.proto'', [''proto/foo/b.proto''])]"
    by simp
  have h3: "[''proto/foo/b.proto''] \<noteq> []"
    using no_real_file_path_error_unreachable [THEN conjunct2, rule_format, OF h1 h2] .
  have h4: "GetProtoFileSetForBucket insertionOrder (memBucket []) [''proto''] []
        \<noteq> Inl (ErrNoRealFilePath ''foo/a.proto'')"
    using no_real_file_path_error_unreachable [THEN conjunct1, rule_format] .
  show ?thesis using h1 h2 h3 h4 by (intro conjI)
qed


text \<open>
  Claim C10. The duplicate-path error names only a path that exists in the bucket:
  a path is recorded for the detection of duplicates only after \<open>Stat\<close> succeeded for
  it. With missing files tolerated, an entry whose normalised path does not exist is
  dropped wherever it stands in the list, so also when it repeats an earlier entry
  that does not exist: the result is the result for the list without it.
\<close>

theorem missing_duplicates_are_dropped:
  "(\<forall>ord b roots paths allow n.
      GetProtoFileSetForRealFilePaths ord b roots paths allow = Inl (ErrDuplicateNormalizedFilePath n)
        \<longrightarrow> Stat b n = None)
   \<and> (\<forall>ord b roots pre p post n e.
      NormalizeAndValidate p = Inr n \<longrightarrow> Stat b n = Some e \<longrightarrow> IsNotExist e \<longrightarrow>
        GetProtoFileSetForRealFilePaths ord b roots (pre @ p # post) True
          = GetProtoFileSetForRealFilePaths ord b roots (pre @ post) True)"
proof (intro conjI allI impI)
  fix ord b roots paths allow n
  assume "GetProtoFileSetForRealFilePaths ord b roots paths allow = Inl (ErrDuplicateNormalizedFilePath n)"
  then show "Stat b n = None" by (rule explicit_duplicate_existed)
next
  fix ord roots pre p post n e and b :: bucket
  assume "NormalizeAndValidate p = Inr n" "Stat b n = Some e" "IsNotExist e"
  then have "snd (checkRealFilePaths b True (pre @ p # post) [] [])
           = snd (checkRealFilePaths b True (pre @ post) [] [])"
    by (rule checkRealFilePaths_drop_missing)
  then show "GetProtoFileSetForRealFilePaths ord b roots (pre @ p # post) True
          = GetProtoFileSetForRealFilePaths ord b roots (pre @ post) True"
    by (rule explicit_result_of_check)
qed

theorem missing_duplicates_are_dropped_witness:
  "NormalizeAndValidate ''proto/gone.proto'' = Inr ''proto/gone.proto''
   \<and> Stat (memBucket [''proto/a.proto'']) ''proto/gone.proto'' = Some (NotExist ''proto/gone.proto'')
   \<and> IsNotExist (NotExist ''proto/gone.proto'')
   \<and> GetProtoFileSetForRealFilePaths insertionOrder (memBucket [''proto/a.proto'']) [''proto'']
        ([''proto/gone.proto'', ''proto/a.proto''] @ ''proto/gone.proto'' # []) True
      = GetProtoFileSetForRealFilePaths insertionOrder (memBucket [''proto/a.proto'']) [''proto'']
        ([''proto/gone.proto'', ''proto/a.proto''] @ []) True
   \<and> GetProtoFileSetForRealFilePaths insertionOrder (memBucket [''proto/a.proto'']) [''proto'']
        [''proto/gone.proto'', ''proto/a.proto'', ''proto/gone.proto''] True
      = Inr \<lparr>pfsRoots = [''proto''], pfsRootFilePathToRealFilePath = [(''a.proto'', ''proto/a.proto'')]\<rparr>
   \<and> GetProtoFileSetForRealFilePaths insertionOrder (memBucket [''proto/a.proto'']) [''proto'']
        [''proto/a.proto'', ''proto/a.proto''] True
      = Inl (ErrDuplicateNormalizedFilePath ''proto/a.proto'')
   \<and> Stat (memBucket [''proto/a.proto'']) ''proto/a.proto'' = None"
proof -
  let ?b = "memBucket [''proto/a.proto'']"
  have h1: "NormalizeAndValidate ''proto/gone.proto'' = Inr ''proto/gone.proto''" by code_simp
  have h2: "Stat ?b ''proto/gone.proto'' = Some (NotExist ''proto/gone.proto'')" by code_simp
  have h3: "IsNotExist (NotExist ''proto/gone.proto'')" by simp
  have h4: "GetProtoFileSetForRealFilePaths insertionOrder ?b [''proto'']
        ([''proto/gone.proto'', ''proto/a.proto''] @ ''proto/gone.proto'' # []) True
      = GetProtoFileSetForRealFilePaths insertionOrder ?b [''proto'']
        ([''proto/gone.proto'', ''proto/a.proto''] @ []) True"
    using missing_duplicates_are_dropped [THEN conjunct2, rule_format, OF h1 h2 h3] .
  have h5: "GetProtoFileSetForRealFilePaths insertionOrder ?b [''proto'']
        [''proto/gone.proto'', ''proto/a.proto'', ''proto/gone.proto''] True
      = Inr \<lparr>pfsRoots = [''proto''], pfsRootFilePathToRealFilePath = [(''a.proto'', ''proto/a.proto'')]\<rparr>"
    by code_simp
  have h6: "GetProtoFileSetForRealFilePaths insertionOrder ?b [''proto'']
        [''proto/a.proto'', ''proto/a.proto''] True
      = Inl (ErrDuplicateNormalizedFilePath ''proto/a.proto'')"
    by code_simp
  have h7: "Stat ?b ''proto/a.proto'' = None"
    using missing_duplicates_are_dropped [THEN conjunct1, rule_format, OF h6] .
  show ?thesis using h1 h2 h3 h4 h5 h6 h7 by (intro conjI)
qed

end
